(* ===== verification/Prelude.thy ===== *)
theory Prelude
  imports Complex_Main "HOL-Library.Word" "HOL-Library.List_Lexorder" "HOL-Library.Char_ord"
begin

text \<open>
  Shared vocabulary of the development: Rust's integer widths as words, \<open>Result\<close> as a sum
  with its sequencing operators, checked arithmetic, big-endian codecs of the integers Drive stores
  in GroveDB items, and \<open>BTreeMap\<close> as an association list with strictly ascending keys.

  The plain operators \<open>+\<close>, \<open>-\<close> and \<open>*\<close> of the Rust sources are modelled by the word
  operators, which wrap around: no Cargo profile of the workspace sets \<open>overflow-checks\<close>, so
  the release build of the node binding wraps.
\<close>

section \<open>Names for the machine types\<close>

type_synonym u8 = "8 word"
type_synonym u16 = "16 word"
type_synonym u32 = "32 word"
type_synonym u64 = "64 word"
type_synonym bytes = "u8 list"
type_synonym path = "bytes list"

named_theorems rs_result \<open>elimination of results in the error monad\<close>
named_theorems rs_checked \<open>checked machine arithmetic read on natural numbers\<close>
named_theorems rs_codec \<open>round trips and lengths of big-endian encodings\<close>
named_theorems rs_btree \<open>lookups, key sets and orderings of ordered association lists\<close>

section \<open>Results\<close>

text \<open>The \<open>?\<close> operator: an error leaves the function at once.\<close>

definition rbind :: "'e + 'a \<Rightarrow> ('a \<Rightarrow> 'e + 'b) \<Rightarrow> 'e + 'b" where
  "rbind m f = (case m of Inl e \<Rightarrow> Inl e | Inr x \<Rightarrow> f x)"

definition ok_or :: "'e \<Rightarrow> 'a option \<Rightarrow> 'e + 'a" where
  "ok_or e x = (case x of None \<Rightarrow> Inl e | Some v \<Rightarrow> Inr v)"

definition map_err :: "('e \<Rightarrow> 'f) \<Rightarrow> 'e + 'a \<Rightarrow> 'f + 'a" where
  "map_err f m = (case m of Inl e \<Rightarrow> Inl (f e) | Inr x \<Rightarrow> Inr x)"

definition rmap :: "('a \<Rightarrow> 'b) \<Rightarrow> 'e + 'a \<Rightarrow> 'e + 'b" where
  "rmap f m = (case m of Inl e \<Rightarrow> Inl e | Inr x \<Rightarrow> Inr (f x))"

text \<open>\<open>iter().map(f).collect::<Result<Vec<_>, _>>()\<close>: the first error in order wins.\<close>

fun mapM :: "('a \<Rightarrow> 'e + 'b) \<Rightarrow> 'a list \<Rightarrow> 'e + 'b list" where
  "mapM f [] = Inr []"
| "mapM f (x # xs) = rbind (f x) (\<lambda>y. rbind (mapM f xs) (\<lambda>ys. Inr (y # ys)))"

text \<open>A \<open>for\<close> loop whose body may leave the function with an error.\<close>

fun foldM :: "('s \<Rightarrow> 'a \<Rightarrow> 'e + 's) \<Rightarrow> 's \<Rightarrow> 'a list \<Rightarrow> 'e + 's" where
  "foldM f s [] = Inr s"
| "foldM f s (x # xs) = rbind (f s x) (\<lambda>s'. foldM f s' xs)"

lemma rbind_Inl [simp]: "rbind (Inl e) f = Inl e"
  by (simp add: rbind_def)

lemma rbind_Inr [simp]: "rbind (Inr x) f = f x"
  by (simp add: rbind_def)

lemma rbind_eq_Inr [rs_result]: "rbind m f = Inr y \<longleftrightarrow> (\<exists>x. m = Inr x \<and> f x = Inr y)"
  by (cases m) simp_all

lemma rbind_eq_Inl [rs_result]:
  "rbind m f = Inl e \<longleftrightarrow> m = Inl e \<or> (\<exists>x. m = Inr x \<and> f x = Inl e)"
  by (cases m) simp_all

lemma rbind_cong [fundef_cong]:
  "m = m' \<Longrightarrow> (\<And>x. m' = Inr x \<Longrightarrow> f x = f' x) \<Longrightarrow> rbind m f = rbind m' f'"
  by (cases m') simp_all

lemma ok_or_simps [simp]: "ok_or e None = Inl e" "ok_or e (Some v) = Inr v"
  by (simp_all add: ok_or_def)

lemma ok_or_eq_Inr [rs_result]: "ok_or e x = Inr v \<longleftrightarrow> x = Some v"
  by (cases x) simp_all

lemma ok_or_eq_Inl [rs_result]: "ok_or e x = Inl e' \<longleftrightarrow> x = None \<and> e' = e"
  by (cases x) auto

lemma map_err_simps [simp]: "map_err f (Inl e) = Inl (f e)" "map_err f (Inr x) = Inr x"
  by (simp_all add: map_err_def)

lemma map_err_eq_Inr [rs_result]: "map_err f m = Inr x \<longleftrightarrow> m = Inr x"
  by (cases m) simp_all

lemma rmap_simps [simp]: "rmap f (Inl e) = Inl e" "rmap f (Inr x) = Inr (f x)"
  by (simp_all add: rmap_def)

lemma rmap_eq_Inr [rs_result]: "rmap f m = Inr y \<longleftrightarrow> (\<exists>x. m = Inr x \<and> y = f x)"
  by (cases m) auto

lemma mapM_eq_Inr [rs_result]: "mapM f xs = Inr ys \<longleftrightarrow> list_all2 (\<lambda>x y. f x = Inr y) xs ys"
  by (induction xs arbitrary: ys) (auto simp: rs_result list_all2_Cons1)

lemma mapM_length: "mapM f xs = Inr ys \<Longrightarrow> length ys = length xs"
  by (auto simp: mapM_eq_Inr dest: list_all2_lengthD)

lemma foldM_append: "foldM f s (xs @ ys) = rbind (foldM f s xs) (\<lambda>s'. foldM f s' ys)"
proof (induction xs arbitrary: s)
  case Nil
  then show ?case by simp
next
  case (Cons x xs)
  then show ?case by (cases "f s x") simp_all
qed

text \<open>Invariant rule of the loop: what the body keeps holds of the result, if there is one.\<close>

lemma foldM_invariant:
  assumes "foldM f s xs = Inr s'" and "P s"
    and "\<And>s x s''. x \<in> set xs \<Longrightarrow> P s \<Longrightarrow> f s x = Inr s'' \<Longrightarrow> P s''"
  shows "P s'"
  using assms
proof (induction xs arbitrary: s)
  case Nil
  then show ?case by simp
next
  case (Cons x xs)
  from Cons.prems(1) obtain t where t: "f s x = Inr t" "foldM f t xs = Inr s'"
    by (auto simp: rs_result)
  have "P t" using Cons.prems(3)[OF _ Cons.prems(2) t(1)] by simp
  show ?case by (rule Cons.IH[OF t(2) \<open>P t\<close>]) (use Cons.prems(3) in auto)
qed

section \<open>Checked arithmetic\<close>

definition checked_add :: "'a::len word \<Rightarrow> 'a word \<Rightarrow> 'a word option" where
  "checked_add a b = (if unat a + unat b < 2 ^ LENGTH('a) then Some (a + b) else None)"

definition checked_sub :: "'a::len word \<Rightarrow> 'a word \<Rightarrow> 'a word option" where
  "checked_sub a b = (if b \<le> a then Some (a - b) else None)"

definition checked_mul :: "'a::len word \<Rightarrow> 'a word \<Rightarrow> 'a word option" where
  "checked_mul a b = (if unat a * unat b < 2 ^ LENGTH('a) then Some (a * b) else None)"

lemma checked_add_Some [rs_checked]:
  "checked_add a b = Some (c :: 'a::len word) \<longleftrightarrow> unat c = unat a + unat b"
proof -
  have lt: "unat c < 2 ^ LENGTH('a)" by simp
  show ?thesis
  proof (cases "unat a + unat b < 2 ^ LENGTH('a)")
    case True
    then have "unat (a + b) = unat a + unat b" by (simp add: unat_word_ariths)
    with True show ?thesis by (auto simp: checked_add_def word_unat_eq_iff)
  next
    case False
    with lt have "unat c \<noteq> unat a + unat b" by metis
    with False show ?thesis by (simp add: checked_add_def)
  qed
qed

lemma checked_add_None [rs_checked]:
  "checked_add a b = None \<longleftrightarrow> 2 ^ LENGTH('a) \<le> unat a + unat (b :: 'a::len word)"
  by (auto simp: checked_add_def)

lemma checked_sub_Some [rs_checked]:
  "checked_sub a b = Some (c :: 'a::len word) \<longleftrightarrow> unat a = unat b + unat c"
proof
  assume "checked_sub a b = Some c"
  then have "b \<le> a" "c = a - b" by (auto simp: checked_sub_def split: if_splits)
  then show "unat a = unat b + unat c" by (simp add: unat_sub word_le_nat_alt)
next
  assume *: "unat a = unat b + unat c"
  then have "b \<le> a" by (simp add: word_le_nat_alt)
  then have "unat (a - b) = unat c" using * by (simp add: unat_sub)
  then show "checked_sub a b = Some c" using \<open>b \<le> a\<close>
    by (simp add: checked_sub_def unsigned_word_eqI)
qed

lemma checked_sub_None [rs_checked]: "checked_sub a b = None \<longleftrightarrow> unat a < unat b"
  by (auto simp: checked_sub_def word_le_nat_alt)

lemma checked_mul_Some [rs_checked]:
  "checked_mul a b = Some (c :: 'a::len word) \<longleftrightarrow> unat c = unat a * unat b"
proof -
  have lt: "unat c < 2 ^ LENGTH('a)" by simp
  show ?thesis
  proof (cases "unat a * unat b < 2 ^ LENGTH('a)")
    case True
    then have "unat (a * b) = unat a * unat b" by (simp add: unat_word_ariths)
    with True show ?thesis by (auto simp: checked_mul_def word_unat_eq_iff)
  next
    case False
    with lt have "unat c \<noteq> unat a * unat b" by metis
    with False show ?thesis by (simp add: checked_mul_def)
  qed
qed

lemma checked_mul_None [rs_checked]:
  "checked_mul a b = None \<longleftrightarrow> 2 ^ LENGTH('a) \<le> unat a * unat (b :: 'a::len word)"
  by (auto simp: checked_mul_def)

text \<open>An unchecked sum that stays below the width is the sum of the naturals.\<close>

lemma unat_plus_no_wrap:
  "unat a + unat b < 2 ^ LENGTH('a) \<Longrightarrow> unat (a + b) = unat a + unat (b :: 'a::len word)"
  by (simp add: unat_word_ariths)

lemma unat_width:
  "unat (a :: u8) < 256" "unat (b :: u16) < 65536" "unat (c :: u32) < 4294967296"
  "unat (d :: u64) < 18446744073709551616"
  using unsigned_less[of a, where ?'a = nat] unsigned_less[of b, where ?'a = nat]
    unsigned_less[of c, where ?'a = nat] unsigned_less[of d, where ?'a = nat] by simp_all

section \<open>Big-endian integers\<close>

fun be_bytes :: "nat \<Rightarrow> nat \<Rightarrow> bytes" where
  "be_bytes 0 x = []"
| "be_bytes (Suc n) x = be_bytes n (x div 256) @ [word_of_nat (x mod 256)]"

lemma be_bytes_eval:
  "be_bytes (numeral n) x = be_bytes (pred_numeral n) (x div 256) @ [word_of_nat (x mod 256)]"
  by (subst numeral_eq_Suc, rule be_bytes.simps(2))

definition be_value :: "bytes \<Rightarrow> nat" where
  "be_value bs = foldl (\<lambda>acc b. acc * 256 + unat b) 0 bs"

definition u16_to_be :: "u16 \<Rightarrow> bytes" where "u16_to_be w = be_bytes 2 (unat w)"
definition u32_to_be :: "u32 \<Rightarrow> bytes" where "u32_to_be w = be_bytes 4 (unat w)"
definition u64_to_be :: "u64 \<Rightarrow> bytes" where "u64_to_be w = be_bytes 8 (unat w)"

text \<open>
  \<open>u16::from_be_bytes(slice.try_into()?)\<close>: the conversion of the slice to an array fails when
  the length differs.
\<close>

definition u16_from_be :: "bytes \<Rightarrow> u16 option" where
  "u16_from_be bs = (if length bs = 2 then Some (word_of_nat (be_value bs)) else None)"

definition u32_from_be :: "bytes \<Rightarrow> u32 option" where
  "u32_from_be bs = (if length bs = 4 then Some (word_of_nat (be_value bs)) else None)"

definition u64_from_be :: "bytes \<Rightarrow> u64 option" where
  "u64_from_be bs = (if length bs = 8 then Some (word_of_nat (be_value bs)) else None)"

lemma length_be_bytes [simp]: "length (be_bytes n x) = n"
  by (induction n arbitrary: x) simp_all

lemma be_value_snoc [simp]: "be_value (bs @ [b]) = be_value bs * 256 + unat b"
  by (simp add: be_value_def)

lemma be_value_Nil [simp]: "be_value [] = 0"
  by (simp add: be_value_def)

lemma unat_byte: "unat (word_of_nat (x mod 256) :: u8) = x mod 256"
  by (simp add: unsigned_of_nat take_bit_eq_mod)

lemma be_value_be_bytes: "be_value (be_bytes n x) = x mod 256 ^ n"
proof (induction n arbitrary: x)
  case 0
  then show ?case by simp
next
  case (Suc n)
  then show ?case
    by (simp add: unat_byte mod_mult2_eq mult.commute)
qed

lemma be_value_bound: "be_value bs < 256 ^ length bs"
proof (induction bs rule: rev_induct)
  case Nil
  then show ?case by simp
next
  case (snoc b bs)
  have "unat b < 256" using unsigned_less[of b] by simp
  with snoc show ?case by simp
qed

lemma be_bytes_be_value: "be_bytes (length bs) (be_value bs) = bs"
proof (induction bs rule: rev_induct)
  case Nil
  then show ?case by simp
next
  case (snoc b bs)
  have "unat b < 256" using unsigned_less[of b] by simp
  with snoc show ?case by (simp add: div_add1_eq)
qed

text \<open>Byte vectors of one length compare as the numbers they spell.\<close>

lemma be_value_Cons: "be_value (b # bs) = unat b * 256 ^ length bs + be_value bs"
proof (induction bs rule: rev_induct)
  case Nil
  then show ?case by (simp add: be_value_def)
next
  case (snoc c bs)
  have "be_value (b # bs @ [c]) = be_value (b # bs) * 256 + unat c"
    using be_value_snoc[of "b # bs" c] by simp
  with snoc show ?case by (simp add: algebra_simps)
qed

lemma digit_less_iff:
  fixes x y :: nat
  assumes "a < P" "b < P"
  shows "x * P + a < y * P + b \<longleftrightarrow> x < y \<or> x = y \<and> a < b"
proof (cases x y rule: linorder_cases)
  case less
  then have "Suc x * P \<le> y * P" by (intro mult_right_mono) simp_all
  with less assms show ?thesis by simp
next
  case greater
  then have "Suc y * P \<le> x * P" by (intro mult_right_mono) simp_all
  with greater assms show ?thesis by simp
qed simp

lemma be_value_less_iff: "length xs = length ys \<Longrightarrow> xs < ys \<longleftrightarrow> be_value xs < be_value ys"
proof (induction xs ys rule: list_induct2)
  case Nil
  then show ?case by simp
next
  case (Cons x xs y ys)
  have "be_value xs < 256 ^ length ys" "be_value ys < 256 ^ length ys"
    using be_value_bound[of xs] be_value_bound[of ys] Cons.hyps by simp_all
  from digit_less_iff[OF this] Cons show ?case
    by (simp add: be_value_Cons word_less_nat_alt word_unat_eq_iff)
qed

text \<open>
  The contract of the encodings of stored integers: fixed length, decoding inverts encoding, and
  only an encoding decodes. Every reader of a GroveDB item relies on it.
\<close>

locale fixed_codec =
  fixes enc :: "'w \<Rightarrow> bytes" and dec :: "bytes \<Rightarrow> 'w option" and width :: nat
  assumes enc_length: "length (enc w) = width"
    and dec_enc: "dec (enc w) = Some w"
    and dec_width: "dec bs = Some w \<Longrightarrow> enc w = bs"
begin

lemma enc_inject: "enc a = enc b \<longleftrightarrow> a = b"
  by (metis dec_enc option.inject)

lemma dec_Some_iff: "dec bs = Some w \<longleftrightarrow> bs = enc w"
  using dec_enc dec_width by auto

lemma dec_length: "dec bs = Some w \<Longrightarrow> length bs = width"
  using dec_width enc_length by blast

end

lemma fixed_codecI:
  fixes enc :: "'a::len word \<Rightarrow> bytes"
  assumes enc: "\<And>w. enc w = be_bytes n (unat w)"
    and dec: "\<And>bs. dec bs = (if length bs = n then Some (word_of_nat (be_value bs)) else None)"
    and width: "LENGTH('a) = 8 * n"
  shows "fixed_codec enc dec n"
proof
  have p: "(256::nat) ^ n = 2 ^ LENGTH('a)"
    by (simp add: width power_mult)
  show "length (enc w) = n" for w by (simp add: enc)
  show "dec (enc w) = Some w" for w
    using unsigned_less[of w] by (simp add: enc dec be_value_be_bytes p)
  show "enc w = bs" if "dec bs = Some w" for bs w
  proof -
    from that have l: "length bs = n" and w: "w = word_of_nat (be_value bs)"
      by (auto simp: dec split: if_splits)
    have "unat w = be_value bs"
      using be_value_bound[of bs] by (simp add: w l p unsigned_of_nat take_bit_nat_eq_self)
    then show ?thesis using be_bytes_be_value[of bs] by (simp add: enc l)
  qed
qed

interpretation u16_codec: fixed_codec u16_to_be u16_from_be 2
  by (rule fixed_codecI) (simp_all add: u16_to_be_def u16_from_be_def)

interpretation u32_codec: fixed_codec u32_to_be u32_from_be 4
  by (rule fixed_codecI) (simp_all add: u32_to_be_def u32_from_be_def)

interpretation u64_codec: fixed_codec u64_to_be u64_from_be 8
  by (rule fixed_codecI) (simp_all add: u64_to_be_def u64_from_be_def)

lemmas codec_simps [simp, rs_codec] =
  u16_codec.dec_enc u32_codec.dec_enc u64_codec.dec_enc
  u16_codec.enc_length u32_codec.enc_length u64_codec.enc_length
  u16_codec.enc_inject u32_codec.enc_inject u64_codec.enc_inject

lemma u16_to_be_less [rs_codec]: "u16_to_be a < u16_to_be b \<longleftrightarrow> a < b"
proof -
  have "unat a < 256 ^ 2" "unat b < 256 ^ 2" using unsigned_less[of a] unsigned_less[of b] by simp_all
  then show ?thesis
    by (simp add: u16_to_be_def be_value_less_iff be_value_be_bytes word_less_nat_alt)
qed

lemma u16_to_be_le [rs_codec]: "u16_to_be a \<le> u16_to_be b \<longleftrightarrow> a \<le> b"
  using u16_to_be_less[of b a] by (simp add: not_less [symmetric])

section \<open>Ordered maps\<close>

text \<open>
  A \<open>BTreeMap\<close> is the list of its entries in iteration order: keys strictly ascending.
\<close>

type_synonym ('k, 'v) btree = "('k \<times> 'v) list"

definition bt_wf :: "('k::linorder, 'v) btree \<Rightarrow> bool" where
  "bt_wf m \<longleftrightarrow> sorted_wrt (<) (map fst m)"

definition bt_get :: "'k \<Rightarrow> ('k, 'v) btree \<Rightarrow> 'v option" where
  "bt_get k m = map_of m k"

fun bt_insert :: "'k::linorder \<Rightarrow> 'v \<Rightarrow> ('k, 'v) btree \<Rightarrow> ('k, 'v) btree" where
  "bt_insert k v [] = [(k, v)]"
| "bt_insert k v (e # m) =
     (if fst e < k then e # bt_insert k v m
      else if fst e = k then (k, v) # m
      else (k, v) # e # m)"

definition bt_remove :: "'k \<Rightarrow> ('k, 'v) btree \<Rightarrow> ('k, 'v) btree" where
  "bt_remove k m = filter (\<lambda>e. fst e \<noteq> k) m"

lemma bt_wf_Nil [simp]: "bt_wf []"
  by (simp add: bt_wf_def)

lemma bt_wf_Cons [simp]: "bt_wf (e # m) \<longleftrightarrow> (\<forall>e' \<in> set m. fst e < fst e') \<and> bt_wf m"
  by (auto simp: bt_wf_def)

lemma bt_wf_distinct: "bt_wf m \<Longrightarrow> distinct (map fst m)"
  by (induction m) force+

lemma bt_get_Nil [simp]: "bt_get k [] = None"
  by (simp add: bt_get_def)

lemma bt_get_insert [rs_btree]: "bt_get k' (bt_insert k v m) = (if k' = k then Some v else bt_get k' m)"
  by (induction m) (auto simp: bt_get_def)

lemma fst_set_bt_insert [rs_btree]: "fst ` set (bt_insert k v m) = insert k (fst ` set m)"
  by (induction m) auto

lemma bt_insert_keys: "e \<in> set (bt_insert k v m) \<Longrightarrow> fst e = k \<or> e \<in> set m"
  by (induction m) (auto split: if_splits)

lemma bt_wf_insert [rs_btree]: "bt_wf m \<Longrightarrow> bt_wf (bt_insert k v m)"
  by (induction m) (auto dest!: bt_insert_keys)

lemma bt_get_remove [rs_btree]: "bt_get k' (bt_remove k m) = (if k' = k then None else bt_get k' m)"
  by (induction m) (auto simp: bt_get_def bt_remove_def)

lemma bt_wf_remove [rs_btree]: "bt_wf m \<Longrightarrow> bt_wf (bt_remove k m)"
  by (induction m) (auto simp: bt_remove_def)

lemma bt_insert_last: "\<forall>e \<in> set m. fst e < k \<Longrightarrow> bt_insert k v m = m @ [(k, v)]"
  by (induction m) auto

text \<open>Inserting the entries of a map one after another, in order, rebuilds it.\<close>

lemma foldl_bt_insert_append:
  "bt_wf (m @ es) \<Longrightarrow> foldl (\<lambda>acc e. bt_insert (fst e) (snd e) acc) m es = m @ es"
proof (induction es arbitrary: m)
  case Nil
  then show ?case by simp
next
  case (Cons e es)
  have "\<forall>x \<in> set m. fst x < fst e"
    using Cons.prems by (induction m) auto
  then have "bt_insert (fst e) (snd e) m = m @ [e]"
    by (simp add: bt_insert_last)
  with Cons.IH[of "m @ [e]"] Cons.prems show ?case by simp
qed

end
