(* ===== verification/Grove.thy ===== *)
theory Grove
  imports Prelude "HOL-Library.Sublist"
begin

text \<open>
  GroveDB is a dependency of Drive whose sources are not part of the repository. This theory holds
  the data Drive exchanges with it (elements, batch operations, path queries, operation costs), the
  record of the entry points Drive calls, which every definition that touches storage takes as an
  argument, and the contract those entry points document, as a locale. A reference store, an
  association list from path and key to element, satisfies the contract.
\<close>

section \<open>Data exchanged with GroveDB\<close>

datatype grove_error =
    PathKeyNotFound string
  | PathNotFound string
  | PathParentLayerNotFound string
  | JustInTimeElementFlagsClientError string
  | SplitRemovalBytesClientError string
  | InternalError string
  | InvalidQuery string
  | OtherGroveError string

type_synonym element_flags = bytes

datatype reference_path_type =
    UpstreamRootHeightReference u8 path
  | SiblingReference bytes
  | OtherReferencePath

datatype element =
    Item bytes "element_flags option"
  | Reference reference_path_type "u8 option" "element_flags option"
  | Tree "bytes option" "element_flags option"

datatype op_kind = Insert element | Delete | DeleteTree | OtherOp

datatype op_mode = RunOp | WorstCaseOp

record grove_op =
  op_path :: path
  op_key :: bytes
  op_op :: op_kind
  op_mode :: op_mode

text \<open>Costs report removed bytes per owner and, for each owner, per epoch of addition.\<close>

type_synonym id32 = bytes
type_synonym int_map = "(u64 \<times> u32) list"
type_synonym removal_per_epoch_by_identifier = "(id32, int_map) btree"

datatype storage_removed_bytes =
    NoStorageRemoval
  | BasicStorageRemoval u32
  | SectionedStorageRemoval removal_per_epoch_by_identifier

record storage_cost =
  added_bytes :: u32
  replaced_bytes :: u32
  removed_bytes :: storage_removed_bytes

record operation_cost =
  seek_count :: u32
  storage_cost :: storage_cost
  storage_loaded_bytes :: u32
  hash_node_calls :: u32

datatype storage_transition = OperationUpdateBiggerSize | OperationUpdateSmallerSize | OtherTransition

section \<open>Queries\<close>

datatype query_item =
    Key bytes
  | Range bytes bytes
  | RangeInclusive bytes bytes
  | RangeFull
  | RangeFrom bytes
  | RangeTo bytes
  | RangeToInclusive bytes
  | RangeAfter bytes
  | RangeAfterTo bytes bytes
  | RangeAfterToInclusive bytes bytes

text \<open>
  A query walks the keys of a tree that its items select. A selected key that a conditional subquery
  names continues with it, any other with the default subquery: first to the fixed key, when there is
  one, then with the subquery in the tree found there.
\<close>

datatype query = GroveQuery
  (items: "query_item list")
  (left_to_right: bool)
  (subquery_key: "bytes option")
  (subquery: "query option")
  (conditional_subqueries: "(query_item \<times> bytes option \<times> query option) list")

record path_query =
  pq_path :: path
  pq_query :: query
  pq_limit :: "u16 option"
  pq_offset :: "u16 option"

definition query_new_with_direction :: "bool \<Rightarrow> query" where
  "query_new_with_direction d = GroveQuery [] d None None []"

definition query_new :: query where
  "query_new = query_new_with_direction True"

definition insert_item :: "query_item \<Rightarrow> query \<Rightarrow> query" where
  "insert_item i q =
     GroveQuery (items q @ [i]) (left_to_right q) (subquery_key q) (subquery q) (conditional_subqueries q)"

definition set_subquery_key :: "bytes \<Rightarrow> query \<Rightarrow> query" where
  "set_subquery_key k q = GroveQuery (items q) (left_to_right q) (Some k) (subquery q) (conditional_subqueries q)"

definition set_subquery :: "query \<Rightarrow> query \<Rightarrow> query" where
  "set_subquery sq q = GroveQuery (items q) (left_to_right q) (subquery_key q) (Some sq) (conditional_subqueries q)"

definition add_conditional_subquery :: "query_item \<Rightarrow> bytes option \<Rightarrow> query option \<Rightarrow> query \<Rightarrow> query" where
  "add_conditional_subquery i k sq q =
     GroveQuery (items q) (left_to_right q) (subquery_key q) (subquery q) (conditional_subqueries q @ [(i, k, sq)])"

lemmas query_setters = insert_item_def set_subquery_key_def set_subquery_def add_conditional_subquery_def
  query_new_def query_new_with_direction_def

text \<open>
  The keys a query item selects. Keys are compared as byte vectors, lexicographically; a range
  whose bounds are reversed selects nothing.
\<close>

fun covers :: "query_item \<Rightarrow> bytes \<Rightarrow> bool" where
  "covers (Key a) k \<longleftrightarrow> k = a"
| "covers (Range a b) k \<longleftrightarrow> a \<le> k \<and> k < b"
| "covers (RangeInclusive a b) k \<longleftrightarrow> a \<le> k \<and> k \<le> b"
| "covers RangeFull k \<longleftrightarrow> True"
| "covers (RangeFrom a) k \<longleftrightarrow> a \<le> k"
| "covers (RangeTo b) k \<longleftrightarrow> k < b"
| "covers (RangeToInclusive b) k \<longleftrightarrow> k \<le> b"
| "covers (RangeAfter a) k \<longleftrightarrow> a < k"
| "covers (RangeAfterTo a b) k \<longleftrightarrow> a < k \<and> k < b"
| "covers (RangeAfterToInclusive a b) k \<longleftrightarrow> a < k \<and> k \<le> b"

definition query_covers :: "query \<Rightarrow> bytes \<Rightarrow> bool" where
  "query_covers q k \<longleftrightarrow> (\<exists>i \<in> set (items q). covers i k)"

lemma query_covers_new [simp]: "\<not> query_covers (query_new_with_direction d) k" "\<not> query_covers query_new k"
  by (simp_all add: query_covers_def query_new_with_direction_def query_new_def)

lemma query_covers_insert [simp]: "query_covers (insert_item i q) k \<longleftrightarrow> covers i k \<or> query_covers q k"
  by (auto simp: query_covers_def insert_item_def)

lemma query_covers_set [simp]:
  "query_covers (set_subquery_key sk q) k = query_covers q k" "query_covers (set_subquery sq q) k = query_covers q k"
  "query_covers (add_conditional_subquery i sk' sq' q) k = query_covers q k"
  by (simp_all add: query_covers_def query_setters)

text \<open>Where a query continues at a selected key, and the paths it selects below its own.\<close>

definition subquery_branch :: "query \<Rightarrow> bytes \<Rightarrow> bytes option \<times> query option" where
  "subquery_branch q k =
     (case List.find (\<lambda>(i, _). covers i k) (conditional_subqueries q) of
        Some (_, branch) \<Rightarrow> branch
      | None \<Rightarrow> (subquery_key q, subquery q))"

function query_selects :: "query \<Rightarrow> path \<Rightarrow> bool" where
  "query_selects q [] \<longleftrightarrow> False"
| "query_selects q (k # rest) \<longleftrightarrow> query_covers q k \<and>
     (case subquery_branch q k of
        (None, None) \<Rightarrow> rest = []
      | (Some sk, None) \<Rightarrow> rest = [sk]
      | (None, Some sq) \<Rightarrow> query_selects sq rest
      | (Some sk, Some sq) \<Rightarrow> rest \<noteq> [] \<and> hd rest = sk \<and> query_selects sq (tl rest))"
  by pat_completeness auto
termination
  by (relation "measure (\<lambda>(q, p). length p)") auto

section \<open>The entry points Drive calls\<close>

type_synonym flags_update =
  "storage_cost \<times> storage_transition \<Rightarrow> element_flags option \<Rightarrow> element_flags \<Rightarrow>
     grove_error + (bool \<times> element_flags)"

type_synonym split_removal =
  "element_flags \<Rightarrow> u32 \<Rightarrow> u32 \<Rightarrow> grove_error + (storage_removed_bytes \<times> storage_removed_bytes)"

record 'db grovedb =
  gdb_get :: "'db \<Rightarrow> path \<Rightarrow> bytes \<Rightarrow> grove_error + element"
  gdb_query_raw :: "'db \<Rightarrow> path_query \<Rightarrow> grove_error + (path \<times> bytes \<times> element) list"
  gdb_has_raw :: "'db \<Rightarrow> path \<Rightarrow> bytes \<Rightarrow> grove_error + bool"
  gdb_is_empty_tree :: "'db \<Rightarrow> path \<Rightarrow> grove_error + bool"
  gdb_consistent :: "grove_op list \<Rightarrow> bool"
  gdb_apply_batch :: "'db \<Rightarrow> grove_op list \<Rightarrow> bool \<Rightarrow> flags_update \<Rightarrow> split_removal \<Rightarrow>
     (grove_error + 'db) \<times> operation_cost"
  gdb_insert :: "'db \<Rightarrow> path \<Rightarrow> bytes \<Rightarrow> element \<Rightarrow> bool \<Rightarrow> (grove_error + 'db) \<times> operation_cost"
  gdb_delete :: "'db \<Rightarrow> path \<Rightarrow> bytes \<Rightarrow> (grove_error + 'db) \<times> operation_cost"
  gdb_delete_operation :: "'db \<Rightarrow> path \<Rightarrow> bytes \<Rightarrow> grove_op list \<Rightarrow>
     (grove_error + grove_op option) \<times> operation_cost"
  gdb_delete_up_tree :: "'db \<Rightarrow> path \<Rightarrow> bytes \<Rightarrow> u16 option \<Rightarrow> grove_op list \<Rightarrow>
     (grove_error + grove_op list option) \<times> operation_cost"
  gdb_insert_if_not_exists :: "'db \<Rightarrow> path \<Rightarrow> bytes \<Rightarrow> element \<Rightarrow>
     (grove_error + (bool \<times> 'db)) \<times> operation_cost"
  gdb_get_raw :: "'db \<Rightarrow> path \<Rightarrow> bytes \<Rightarrow> grove_error + element"
  gdb_query :: "'db \<Rightarrow> path_query \<Rightarrow> grove_error + (bytes list \<times> u16)"
  gdb_proved_query :: "'db \<Rightarrow> path_query \<Rightarrow> grove_error + bytes"
  gdb_cost_get :: "'db \<Rightarrow> path \<Rightarrow> bytes \<Rightarrow> operation_cost"
  gdb_cost_has_raw :: "'db \<Rightarrow> path \<Rightarrow> bytes \<Rightarrow> operation_cost"
  gdb_cost_get_raw :: "'db \<Rightarrow> path \<Rightarrow> bytes \<Rightarrow> operation_cost"
  gdb_cost_query :: "'db \<Rightarrow> path_query \<Rightarrow> operation_cost"
  gdb_worst_case_get :: "path \<Rightarrow> bytes \<Rightarrow> u32 \<Rightarrow> u32 list \<Rightarrow> operation_cost"
  gdb_worst_case_has_raw :: "path \<Rightarrow> bytes \<Rightarrow> u32 \<Rightarrow> operation_cost"
  gdb_worst_case_deletion :: "path \<Rightarrow> bytes \<Rightarrow> u32 \<Rightarrow> operation_cost"
  gdb_worst_case_batch :: "grove_op list \<Rightarrow> bool \<Rightarrow> flags_update \<Rightarrow> split_removal \<Rightarrow>
     (grove_error + unit) \<times> operation_cost"
  gdb_node_byte_size :: "element \<Rightarrow> u32 \<Rightarrow> u32"
  gdb_required_item_space :: "u32 \<Rightarrow> u32 \<Rightarrow> u32"
  gdb_byte_size :: "element \<Rightarrow> u32"

section \<open>The contract\<close>

text \<open>
  \<open>last_write ops p k\<close> is what the batch leaves at key \<open>k\<close> under path \<open>p\<close>; \<open>disturbs\<close> tells
  that an operation rewrites a tree on the way to \<open>p\<close>.
\<close>

definition writes :: "path \<Rightarrow> bytes \<Rightarrow> grove_op \<Rightarrow> bool" where
  "writes p k o' \<longleftrightarrow> op_path o' = p \<and> op_key o' = k"

definition last_write :: "grove_op list \<Rightarrow> path \<Rightarrow> bytes \<Rightarrow> op_kind option" where
  "last_write ops p k = map_option op_op (List.find (writes p k) (rev ops))"

definition disturbs :: "path \<Rightarrow> grove_op \<Rightarrow> bool" where
  "disturbs p o' \<longleftrightarrow> prefix (op_path o' @ [op_key o']) p"

lemma last_write_Nil [simp]: "last_write [] p k = None"
  by (simp add: last_write_def)

lemma find_append: "List.find P (xs @ ys) = (case List.find P xs of None \<Rightarrow> List.find P ys | r \<Rightarrow> r)"
  by (induction xs) simp_all

lemma last_write_append:
  "last_write (xs @ ys) p k = (case last_write ys p k of None \<Rightarrow> last_write xs p k | r \<Rightarrow> r)"
  by (auto simp: last_write_def find_append split: option.splits)

lemma last_write_single [simp]: "last_write [o'] p k = (if writes p k o' then Some (op_op o') else None)"
  by (simp add: last_write_def)

lemma last_write_None: "last_write ops p k = None \<longleftrightarrow> (\<forall>o' \<in> set ops. \<not> writes p k o')"
  by (auto simp: last_write_def find_None_iff)

text \<open>A key all operations on which agree holds what they agree on.\<close>

lemma last_write_unique:
  assumes "\<exists>o' \<in> set ops. writes p k o'" "\<forall>o' \<in> set ops. writes p k o' \<longrightarrow> op_op o' = x"
  shows "last_write ops p k = Some x"
proof -
  obtain o' where o': "List.find (writes p k) (rev ops) = Some o'"
    using assms(1) by (metis find_None_iff not_None_eq set_rev)
  then have "o' \<in> set ops \<and> writes p k o'" by (metis find_Some_iff nth_mem set_rev)
  with o' assms(2) show ?thesis by (simp add: last_write_def)
qed

text \<open>
  A read follows references. Drive stores references only below the root tree of the contract documents,
  so everywhere else a read returns the stored element itself. Inside, the laws speak of the stored
  elements (\<open>get_raw\<close>) and of following one reference. An element that was inserted is stored with its
  content; its flags, and the root key of a tree, are the database's.
\<close>

definition contract_documents_root :: bytes where
  "contract_documents_root = [1]"

definition outside_documents :: "path \<Rightarrow> bool" where
  "outside_documents p \<longleftrightarrow> p = [] \<or> hd p \<noteq> contract_documents_root"

lemma outside_documents_eval [simp]:
  "outside_documents []" "outside_documents (x # p) \<longleftrightarrow> x \<noteq> [1]"
  by (simp_all add: outside_documents_def contract_documents_root_def)

fun stored_as :: "element \<Rightarrow> element \<Rightarrow> bool" where
  "stored_as (Item b _) e \<longleftrightarrow> (\<exists>f. e = Item b f)"
| "stored_as (Reference r n _) e \<longleftrightarrow> (\<exists>f. e = Reference r n f)"
| "stored_as (Tree _ _) e \<longleftrightarrow> (\<exists>r f. e = Tree r f)"

fun is_reference :: "element \<Rightarrow> bool" where
  "is_reference (Reference _ _ _) = True"
| "is_reference _ = False"

text \<open>
  What Drive relies on. A batch that was applied is visible to later reads at every key whose last
  operation inserted an item without flags, unless the batch also deletes a tree above it; keys the
  batch does not mention, directly or through a tree above them, read as before. A query returns at
  most its limit, only paths it selects, and for a query without a subquery the stored items
  in key order, the first ones, and all of them when it stops short of the limit. A key whose last
  operation deleted it is not found afterwards, and the deletion of a stored item is the operation
  \<open>Delete\<close> at its key; a deletion that goes up the trees it leaves empty deletes keys on the way only, and
  first of all the reference it is asked to delete. \<open>has_raw\<close> tells whether \<open>get_raw\<close> finds
  an element.
\<close>

definition plain_query :: "path_query \<Rightarrow> bool" where
  "plain_query q \<longleftrightarrow> subquery (pq_query q) = None \<and> subquery_key (pq_query q) = None \<and>
     conditional_subqueries (pq_query q) = [] \<and> pq_offset q = None \<and> left_to_right (pq_query q)"

definition deletes :: "grove_op \<Rightarrow> bool" where
  "deletes o' \<longleftrightarrow> op_op o' = Delete \<or> op_op o' = DeleteTree"

fun not_found :: "grove_error \<Rightarrow> bool" where
  "not_found (PathKeyNotFound _) = True"
| "not_found (PathNotFound _) = True"
| "not_found (PathParentLayerNotFound _) = True"
| "not_found _ = False"

locale grove_contract =
  fixes G :: "'db grovedb"
  assumes apply_read:
      "gdb_apply_batch G db ops v u sp = (Inr db', c) \<Longrightarrow>
       last_write ops p k = Some (Insert (Item b None)) \<Longrightarrow>
       (\<And>o'. o' \<in> set ops \<Longrightarrow> deletes o' \<Longrightarrow> \<not> disturbs p o') \<Longrightarrow>
       gdb_get G db' p k = Inr (Item b None)"
    and apply_frame:
      "gdb_apply_batch G db ops v u sp = (Inr db', c) \<Longrightarrow>
       (\<And>o'. o' \<in> set ops \<Longrightarrow> \<not> writes p k o' \<and> \<not> disturbs p o') \<Longrightarrow> outside_documents p \<Longrightarrow>
       gdb_get G db' p k = gdb_get G db p k"
    and apply_raw:
      "gdb_apply_batch G db ops v u sp = (Inr db', c) \<Longrightarrow> last_write ops p k = Some (Insert e) \<Longrightarrow>
       (\<And>o'. o' \<in> set ops \<Longrightarrow> deletes o' \<Longrightarrow> \<not> disturbs p o') \<Longrightarrow>
       \<exists>e'. gdb_get_raw G db' p k = Inr e' \<and> stored_as e e'"
    and get_stored: "gdb_get_raw G db p k = Inr e \<Longrightarrow> \<not> is_reference e \<Longrightarrow> gdb_get G db p k = Inr e"
    and get_sibling:
      "gdb_get_raw G db p k = Inr (Reference (SiblingReference k') (Some 1) f) \<Longrightarrow>
       gdb_get_raw G db p k' = Inr (Item b f') \<Longrightarrow> \<not> outside_documents p \<Longrightarrow> gdb_get G db p k = Inr (Item b f')"
    and delete_up_tree:
      "gdb_delete_up_tree G db p k h ops = (Inr (Some os), c) \<Longrightarrow> o' \<in> set os \<Longrightarrow>
       deletes o' \<and> prefix (op_path o' @ [op_key o']) (p @ [k])"
    and delete_up_tree_entry:
      "gdb_delete_up_tree G db p k (Some height) ops = (Inr res, c) \<Longrightarrow> gdb_get_raw G db p k = Inr (Reference t n f) \<Longrightarrow>
       unat height < length p \<Longrightarrow> \<exists>os. res = Some os \<and> last_write os p k = Some Delete"
    and query_limit:
      "gdb_query_raw G db q = Inr rs \<Longrightarrow> pq_limit q = Some l \<Longrightarrow> length rs \<le> unat l"
    and query_selected:
      "gdb_query_raw G db q = Inr rs \<Longrightarrow> (p, k, e) \<in> set rs \<Longrightarrow>
       \<exists>rel. p @ [k] = pq_path q @ rel \<and> query_selects (pq_query q) rel"
    and query_sorted:
      "gdb_query_raw G db q = Inr rs \<Longrightarrow> plain_query q \<Longrightarrow>
       sorted_wrt (<) (map (\<lambda>(p, k, e). k) rs)"
    and query_stored:
      "gdb_query_raw G db q = Inr rs \<Longrightarrow> plain_query q \<Longrightarrow> (p, k, Item b f) \<in> set rs \<Longrightarrow>
       gdb_get G db p k = Inr (Item b f)"
    and query_complete:
      "gdb_query_raw G db q = Inr rs \<Longrightarrow> plain_query q \<Longrightarrow> pq_limit q = Some l \<Longrightarrow>
       length rs < unat l \<Longrightarrow> query_covers (pq_query q) k \<Longrightarrow>
       outside_documents (pq_path q) \<Longrightarrow>
       gdb_get G db (pq_path q) k = Inr (Item b f) \<Longrightarrow> (pq_path q, k, Item b f) \<in> set rs"
    and query_prefix:
      "gdb_query_raw G db q = Inr rs \<Longrightarrow> plain_query q \<Longrightarrow> (p, k', e') \<in> set rs \<Longrightarrow> k < k' \<Longrightarrow>
       query_covers (pq_query q) k \<Longrightarrow> outside_documents (pq_path q) \<Longrightarrow>
       gdb_get G db (pq_path q) k = Inr (Item b f) \<Longrightarrow>
       (pq_path q, k, Item b f) \<in> set rs"
    and apply_delete:
      "gdb_apply_batch G db ops v u sp = (Inr db', c) \<Longrightarrow> last_write ops p k = Some Delete \<Longrightarrow>
       \<exists>err. gdb_get G db' p k = Inl err \<and> not_found err"
    and delete_operation:
      "gdb_delete_operation G db p k ops = (Inr r, c) \<Longrightarrow> gdb_get G db p k = Inr (Item b f) \<Longrightarrow>
       r = Some \<lparr>op_path = p, op_key = k, op_op = Delete, op_mode = RunOp\<rparr>"
    and has_raw_present: "gdb_get_raw G db p k = Inr e \<Longrightarrow> gdb_has_raw G db p k = Inr True"
    and has_raw_absent: "gdb_get_raw G db p k = Inl err \<Longrightarrow> not_found err \<Longrightarrow> gdb_has_raw G db p k = Inr False"
    and has_raw_error: "gdb_get_raw G db p k = Inl err \<Longrightarrow> \<not> not_found err \<Longrightarrow> gdb_has_raw G db p k = Inl err"

context grove_contract
begin

lemma query_plain:
  assumes "gdb_query_raw G db q = Inr rs" "plain_query q" "(p, k, e) \<in> set rs"
  shows "p = pq_path q \<and> query_covers (pq_query q) k"
proof -
  obtain rel where "p @ [k] = pq_path q @ rel" "query_selects (pq_query q) rel"
    using query_selected[OF assms(1,3)] by blast
  then show ?thesis
    using assms(2) by (cases rel) (auto simp: plain_query_def subquery_branch_def)
qed

lemma query_nested:
  assumes "gdb_query_raw G db q = Inr rs" "(p, k, e) \<in> set rs" "subquery (pq_query q) = Some sq"
    and "subquery_key (pq_query q) = None" "conditional_subqueries (pq_query q) = []"
    and "subquery sq = None" "subquery_key sq = None" "conditional_subqueries sq = []"
  shows "\<exists>k'. p = pq_path q @ [k'] \<and> query_covers (pq_query q) k' \<and> query_covers sq k"
proof -
  obtain rel where rel: "p @ [k] = pq_path q @ rel" "query_selects (pq_query q) rel"
    using query_selected[OF assms(1,2)] by blast
  then obtain k' rest where k': "rel = k' # rest" "query_covers (pq_query q) k'" "query_selects sq rest"
    using assms(3-5) by (cases rel) (auto simp: subquery_branch_def)
  then have "rest = [k] \<and> query_covers sq k"
    using assms(6-8) rel(1) by (cases rest) (auto simp: subquery_branch_def)
  with rel(1) k' show ?thesis by auto
qed

end

section \<open>A reference store\<close>

type_synonym store = "((path \<times> bytes) \<times> element) list"

definition store_raw :: "store \<Rightarrow> path \<Rightarrow> bytes \<Rightarrow> grove_error + element" where
  "store_raw st p k = ok_or (PathKeyNotFound ''key not found'') (map_of st (p, k))"

text \<open>The path and key one reference points to.\<close>

fun reference_target :: "path \<Rightarrow> reference_path_type \<Rightarrow> (path \<times> bytes) option" where
  "reference_target p (SiblingReference k) = Some (p, k)"
| "reference_target p (UpstreamRootHeightReference n q) =
     (if q = [] then None else Some (take (unat n) p @ butlast q, last q))"
| "reference_target p OtherReferencePath = None"

definition store_follow :: "store \<Rightarrow> path \<Rightarrow> element \<Rightarrow> grove_error + element" where
  "store_follow st p e =
     (case e of
        Reference r n f \<Rightarrow>
          (case reference_target p r of
             Some (q, k) \<Rightarrow> store_raw st q k
           | None \<Rightarrow> Inl (OtherGroveError ''unresolved reference''))
      | _ \<Rightarrow> Inr e)"

definition store_get :: "store \<Rightarrow> path \<Rightarrow> bytes \<Rightarrow> grove_error + element" where
  "store_get st p k =
     (if outside_documents p then store_raw st p k else rbind (store_raw st p k) (store_follow st p))"

lemmas store_raw_eval [simp] = store_raw_def

definition store_drop :: "((path \<times> bytes) \<Rightarrow> bool) \<Rightarrow> store \<Rightarrow> store" where
  "store_drop P st = filter (\<lambda>e. \<not> P (fst e)) st"

definition store_write :: "store \<Rightarrow> grove_op \<Rightarrow> store" where
  "store_write st o' =
     (case op_op o' of
        Insert e \<Rightarrow> ((op_path o', op_key o'), e) # st
      | Delete \<Rightarrow> store_drop (\<lambda>(p, k). writes p k o' \<or> disturbs p o') st
      | DeleteTree \<Rightarrow> store_drop (\<lambda>(p, k). writes p k o' \<or> disturbs p o') st
      | OtherOp \<Rightarrow> st)"

definition store_keys :: "store \<Rightarrow> path \<Rightarrow> bytes list" where
  "store_keys st p = sorted_list_of_set (set (map (snd \<circ> fst) (filter (\<lambda>e. fst (fst e) = p) st)))"

definition store_select :: "store \<Rightarrow> path \<Rightarrow> query \<Rightarrow> bytes list" where
  "store_select st p q =
     (let ks = filter (query_covers q) (store_keys st p) in if left_to_right q then ks else rev ks)"

definition store_rows :: "store \<Rightarrow> path \<Rightarrow> bytes list \<Rightarrow> (path \<times> bytes \<times> element) list" where
  "store_rows st p ks = List.map_filter (\<lambda>k. map_option (\<lambda>e. (p, k, e)) (map_of st (p, k))) ks"

lemma size_subquery_branch:
  "subquery_branch q k = (sk, Some sq) \<Longrightarrow> size sq < size q"
proof (cases q)
  case (GroveQuery its d k' sq' cs)
  assume b: "subquery_branch q k = (sk, Some sq)"
  show ?thesis
  proof (cases "List.find (\<lambda>(i, _). covers i k) cs")
    case None
    with b GroveQuery show ?thesis by (simp add: subquery_branch_def)
  next
    case (Some c)
    then obtain i where "c = (i, sk, Some sq)" using b GroveQuery by (cases c) (auto simp: subquery_branch_def)
    moreover from Some have "c \<in> set cs" by (metis find_Some_iff nth_mem)
    ultimately have "size_prod (\<lambda>_. 0) (size_prod (\<lambda>_. 0) (size_option size)) (i, sk, Some sq) \<le>
        size_list (size_prod (\<lambda>_. 0) (size_prod (\<lambda>_. 0) (size_option size))) cs"
      by (auto intro: size_list_estimation')
    with GroveQuery show ?thesis by simp
  qed
qed

function store_walk :: "store \<Rightarrow> path \<Rightarrow> query \<Rightarrow> (path \<times> bytes \<times> element) list" where
  "store_walk st p q =
     concat (map (\<lambda>k. case subquery_branch q k of
         (None, None) \<Rightarrow> store_rows st p [k]
       | (Some sk, None) \<Rightarrow> store_rows st (p @ [k]) [sk]
       | (None, Some sq) \<Rightarrow> store_walk st (p @ [k]) sq
       | (Some sk, Some sq) \<Rightarrow> store_walk st (p @ [k, sk]) sq) (store_select st p q))"
  by pat_completeness auto
termination
  by (relation "measure (\<lambda>(st, p, q). size q)") (auto dest: size_subquery_branch[OF sym])

declare store_walk.simps [simp del]

definition store_query :: "store \<Rightarrow> path_query \<Rightarrow> (path \<times> bytes \<times> element) list" where
  "store_query st q =
     (let rows = store_walk st (pq_path q) (pq_query q);
          rows = (case pq_offset q of None \<Rightarrow> rows | Some n \<Rightarrow> drop (unat n) rows)
      in (case pq_limit q of None \<Rightarrow> rows | Some n \<Rightarrow> take (unat n) rows))"

definition no_cost :: operation_cost where
  "no_cost = \<lparr>seek_count = 0,
     storage_cost = \<lparr>added_bytes = 0, replaced_bytes = 0, removed_bytes = NoStorageRemoval\<rparr>,
     storage_loaded_bytes = 0, hash_node_calls = 0\<rparr>"

definition reference_grove :: "store grovedb" where
  "reference_grove = \<lparr>
     gdb_get = store_get,
     gdb_query_raw = (\<lambda>st q. Inr (store_query st q)),
     gdb_has_raw = (\<lambda>st p k. Inr (map_of st (p, k) \<noteq> None)),
     gdb_is_empty_tree = (\<lambda>st p. Inr (store_keys st p = [])),
     gdb_consistent = (\<lambda>ops. True),
     gdb_apply_batch = (\<lambda>st ops v u sp. (Inr (foldl store_write st ops), no_cost)),
     gdb_insert = (\<lambda>st p k e v. (Inr (((p, k), e) # st), no_cost)),
     gdb_delete = (\<lambda>st p k. (Inr (store_drop (\<lambda>x. x = (p, k)) st), no_cost)),
     gdb_delete_operation = (\<lambda>st p k ops.
        (Inr (Some \<lparr>op_path = p, op_key = k, op_op = Delete, op_mode = RunOp\<rparr>), no_cost)),
     gdb_delete_up_tree = (\<lambda>st p k h ops.
        (Inr (Some [\<lparr>op_path = p, op_key = k, op_op = Delete, op_mode = RunOp\<rparr>]), no_cost)),
     gdb_insert_if_not_exists = (\<lambda>st p k e.
        (Inr (if map_of st (p, k) = None then (True, ((p, k), e) # st) else (False, st)), no_cost)),
     gdb_get_raw = store_raw,
     gdb_query = (\<lambda>st q. Inr (List.map_filter (\<lambda>(p, k, e). case e of Item b _ \<Rightarrow> Some b | _ \<Rightarrow> None) (store_query st q), 0)),
     gdb_proved_query = (\<lambda>st q. Inr []),
     gdb_cost_get = (\<lambda>st p k. no_cost),
     gdb_cost_has_raw = (\<lambda>st p k. no_cost),
     gdb_cost_get_raw = (\<lambda>st p k. no_cost),
     gdb_cost_query = (\<lambda>st q. no_cost),
     gdb_worst_case_get = (\<lambda>p k n ns. no_cost),
     gdb_worst_case_has_raw = (\<lambda>p k n. no_cost),
     gdb_worst_case_deletion = (\<lambda>p k n. no_cost),
     gdb_worst_case_batch = (\<lambda>ops v u sp. (Inr (), no_cost)),
     gdb_node_byte_size = (\<lambda>e n. n),
     gdb_required_item_space = (\<lambda>n m. n + m),
     gdb_byte_size = (\<lambda>e. 0)\<rparr>"

lemma map_of_store_drop: "map_of (store_drop P st) x = (if P x then None else map_of st x)"
  by (induction st) (auto simp: store_drop_def)

lemma map_of_store_write_other:
  "\<not> writes p k o' \<Longrightarrow> \<not> (deletes o' \<and> disturbs p o') \<Longrightarrow>
   map_of (store_write st o') (p, k) = map_of st (p, k)"
  by (auto simp: store_write_def map_of_store_drop writes_def deletes_def split: op_kind.splits)

lemma map_of_store_write_all:
  "(\<And>o'. o' \<in> set ops \<Longrightarrow> \<not> writes p k o' \<and> \<not> disturbs p o') \<Longrightarrow>
   map_of (foldl store_write st ops) (p, k) = map_of st (p, k)"
  by (induction ops arbitrary: st) (simp_all add: map_of_store_write_other)

lemma map_of_store_write_last:
  assumes "last_write ops p k = Some (Insert e)"
    and "\<And>o'. o' \<in> set ops \<Longrightarrow> deletes o' \<Longrightarrow> \<not> disturbs p o'"
  shows "map_of (foldl store_write st ops) (p, k) = Some e"
  using assms
proof (induction ops rule: rev_induct)
  case Nil
  then show ?case by simp
next
  case (snoc x ops)
  show ?case
  proof (cases "writes p k x")
    case True
    with snoc.prems(1) have "op_op x = Insert e" by (simp add: last_write_append)
    with True show ?thesis by (simp add: store_write_def writes_def)
  next
    case False
    with snoc have "map_of (foldl store_write st ops) (p, k) = Some e"
      by (simp add: last_write_append)
    moreover have "\<not> deletes x \<or> \<not> disturbs p x" using snoc.prems(2)[of x] by auto
    ultimately show ?thesis using False by (simp add: map_of_store_write_other)
  qed
qed

lemma map_of_store_write_deleted:
  assumes "last_write ops p k = Some Delete"
  shows "map_of (foldl store_write st ops) (p, k) = None"
  using assms
proof (induction ops rule: rev_induct)
  case Nil
  then show ?case by simp
next
  case (snoc x ops)
  show ?case
  proof (cases "writes p k x")
    case True
    with snoc.prems have "op_op x = Delete" by (simp add: last_write_append)
    with True show ?thesis by (simp add: store_write_def map_of_store_drop)
  next
    case False
    with snoc have "map_of (foldl store_write st ops) (p, k) = None" by (simp add: last_write_append)
    with False show ?thesis
      by (auto simp: store_write_def[of _ x] map_of_store_drop writes_def split: op_kind.splits)
  qed
qed

lemma store_rows_Cons:
  "store_rows st p (k # ks) =
     (case map_of st (p, k) of None \<Rightarrow> store_rows st p ks | Some e \<Rightarrow> (p, k, e) # store_rows st p ks)"
  by (simp add: store_rows_def List.map_filter_def split: option.splits)

lemma store_rows_concat: "concat (map (\<lambda>k. store_rows st p [k]) ks) = store_rows st p ks"
  by (induction ks) (simp_all add: store_rows_def List.map_filter_def)

lemma store_rows_iff:
  "(p', k, e) \<in> set (store_rows st p ks) \<longleftrightarrow> p' = p \<and> k \<in> set ks \<and> map_of st (p, k) = Some e"
  by (induction ks) (auto simp: store_rows_Cons store_rows_def List.map_filter_def split: option.splits)

lemma store_rows_sorted:
  "sorted_wrt (<) ks \<Longrightarrow> sorted_wrt (<) (map (\<lambda>(p, k, e). k) (store_rows st p ks))"
  by (induction ks)
    (auto simp: store_rows_Cons store_rows_iff store_rows_def List.map_filter_def split: option.splits)

lemma store_select_iff: "k \<in> set (store_select st p q) \<longleftrightarrow> query_covers q k \<and> k \<in> set (store_keys st p)"
  by (auto simp: store_select_def Let_def)

lemma store_keys_iff: "k \<in> set (store_keys st p) \<longleftrightarrow> map_of st (p, k) \<noteq> None"
  by (force simp: store_keys_def map_of_eq_None_iff)

lemma sorted_store_select: "left_to_right q \<Longrightarrow> sorted_wrt (<) (store_select st p q)"
  by (simp add: store_select_def store_keys_def sorted_wrt_filter)

lemma store_walk_selected:
  "(p', k', e) \<in> set (store_walk st p q) \<Longrightarrow> \<exists>rel. p' @ [k'] = p @ rel \<and> query_selects q rel"
proof (induction st p q rule: store_walk.induct)
  case (1 st p q)
  let ?rows = "\<lambda>k. case subquery_branch q k of
         (None, None) \<Rightarrow> store_rows st p [k]
       | (Some sk, None) \<Rightarrow> store_rows st (p @ [k]) [sk]
       | (None, Some sq) \<Rightarrow> store_walk st (p @ [k]) sq
       | (Some sk, Some sq) \<Rightarrow> store_walk st (p @ [k, sk]) sq"
  from 1(3) obtain k where k: "(p', k', e) \<in> set (?rows k)" "k \<in> set (store_select st p q)"
    unfolding store_walk.simps[of st p q] by (auto simp only: set_concat set_map UN_iff bex_simps)
  then have covered: "query_covers q k" by (simp add: store_select_iff)
  show ?case
  proof (cases "subquery_branch q k")
    case b: (Pair sk sq)
    show ?thesis
    proof (cases sk; cases sq)
      fix sq' assume s: "sk = None" "sq = Some sq'"
      with 1(1)[OF k(2) b[symmetric]] k(1) b obtain rel where "p' @ [k'] = (p @ [k]) @ rel" "query_selects sq' rel" by auto
      with covered b s show ?thesis by (intro exI[of _ "k # rel"]) simp
    next
      fix sk' sq' assume s: "sk = Some sk'" "sq = Some sq'"
      with 1(2)[OF k(2) b[symmetric]] k(1) b obtain rel where "p' @ [k'] = (p @ [k, sk']) @ rel" "query_selects sq' rel" by auto
      with covered b s show ?thesis by (intro exI[of _ "k # sk' # rel"]) simp
    qed (use k(1) covered b in \<open>auto simp: store_rows_iff intro: exI[of _ "[k]"] exI[of _ "[k, the sk]"]\<close>)
  qed
qed

lemma store_walk_leaf [simp]:
  "store_walk st p (GroveQuery its d None None []) =
   store_rows st p (store_select st p (GroveQuery its d None None []))"
  by (simp add: store_walk.simps[of st p] subquery_branch_def store_rows_concat)

lemma store_query_plain:
  "plain_query q \<Longrightarrow> store_query st q =
     (let rows = store_rows st (pq_path q) (store_select st (pq_path q) (pq_query q))
      in case pq_limit q of None \<Rightarrow> rows | Some n \<Rightarrow> take (unat n) rows)"
  by (cases "pq_query q") (simp add: store_query_def plain_query_def)

lemma store_query_plain_subset:
  "plain_query q \<Longrightarrow> r \<in> set (store_query st q) \<Longrightarrow>
   r \<in> set (store_rows st (pq_path q) (store_select st (pq_path q) (pq_query q)))"
  by (auto simp: store_query_plain Let_def split: option.splits dest: in_set_takeD)

lemma store_query_walk: "r \<in> set (store_query st q) \<Longrightarrow> r \<in> set (store_walk st (pq_path q) (pq_query q))"
  by (auto simp: store_query_def Let_def split: option.splits dest!: in_set_takeD in_set_dropD)

lemma take_sorted_prefix:
  assumes "sorted_wrt (<) (map f xs)" "x \<in> set xs" "y \<in> set (take n xs)" "f x < (f y :: 'b::linorder)"
  shows "x \<in> set (take n xs)"
proof (rule ccontr)
  assume "x \<notin> set (take n xs)"
  then have "x \<in> set (drop n xs)" using assms(2) by (metis Un_iff append_take_drop_id set_append)
  moreover have "sorted_wrt (<) (map f (take n xs) @ map f (drop n xs))"
    using assms(1) by (simp flip: map_append)
  ultimately have "f y < f x" using assms(3) by (auto simp: sorted_wrt_append)
  with assms(4) show False by simp
qed

lemma store_query_prefix:
  assumes q: "plain_query q" and r: "(p, k', e') \<in> set (store_query st q)" and k: "k < k'"
    "query_covers (pq_query q) k" "map_of st (pq_path q, k) = Some e"
  shows "(pq_path q, k, e) \<in> set (store_query st q)"
proof -
  let ?rows = "store_rows st (pq_path q) (store_select st (pq_path q) (pq_query q))"
  have mem: "(pq_path q, k, e) \<in> set ?rows"
    using k by (simp add: store_rows_iff store_select_iff store_keys_iff)
  have sorted: "sorted_wrt (<) (map (\<lambda>(p, k, e). k) ?rows)"
    using q by (simp add: plain_query_def store_rows_sorted sorted_store_select)
  show ?thesis
  proof (cases "pq_limit q")
    case None
    with q mem show ?thesis by (simp add: store_query_plain)
  next
    case (Some l)
    with q r have "(p, k', e') \<in> set (take (unat l) ?rows)" by (simp add: store_query_plain)
    from take_sorted_prefix[OF sorted mem this] k(1) Some q show ?thesis by (simp add: store_query_plain)
  qed
qed

lemma take_short: "length (take n xs) < n \<Longrightarrow> take n xs = xs"
  by (cases "n \<le> length xs") auto

interpretation ref_grove: grove_contract reference_grove
proof
  fix db :: store and p k e err
  show "(pq_path q, k, Item b f) \<in> set rs"
    if "gdb_query_raw reference_grove db q = Inr rs" "plain_query q" "(p, k', e') \<in> set rs" "k < k'"
      "query_covers (pq_query q) k" "outside_documents (pq_path q)"
      "gdb_get reference_grove db (pq_path q) k = Inr (Item b f)" for q rs k' e' b f
    using store_query_prefix[of q p k' e' db k "Item b f"] that
    by (simp add: reference_grove_def store_get_def ok_or_eq_Inr)
  show "r = Some \<lparr>op_path = p, op_key = k, op_op = Delete, op_mode = RunOp\<rparr>"
    if "gdb_delete_operation reference_grove db p k ops = (Inr r, c)" for ops r c
    using that by (simp add: reference_grove_def)
  show "gdb_has_raw reference_grove db p k = Inr True" if "gdb_get_raw reference_grove db p k = Inr e"
    using that by (auto simp: reference_grove_def store_get_def ok_or_eq_Inr)
  show "gdb_has_raw reference_grove db p k = Inr False"
    if "gdb_get_raw reference_grove db p k = Inl err" "not_found err"
    using that by (auto simp: reference_grove_def store_get_def ok_or_eq_Inl)
  show "gdb_has_raw reference_grove db p k = Inl err"
    if "gdb_get_raw reference_grove db p k = Inl err" "\<not> not_found err"
    using that by (auto simp: reference_grove_def store_get_def ok_or_eq_Inl)
next
  fix db :: store and q rs l p k e
  show "length rs \<le> unat l" if "gdb_query_raw reference_grove db q = Inr rs" "pq_limit q = Some l"
    using that by (auto simp: reference_grove_def store_query_def Let_def)
  show "\<exists>rel. p @ [k] = pq_path q @ rel \<and> query_selects (pq_query q) rel"
    if "gdb_query_raw reference_grove db q = Inr rs" "(p, k, e) \<in> set rs"
    using store_walk_selected[OF store_query_walk[of "(p, k, e)" db q]] that by (simp add: reference_grove_def)
  show "sorted_wrt (<) (map (\<lambda>(p, k, e). k) rs)"
    if "gdb_query_raw reference_grove db q = Inr rs" "plain_query q"
  proof -
    have "sorted_wrt (<) (map (\<lambda>(p, k, e). k)
        (store_rows db (pq_path q) (store_select db (pq_path q) (pq_query q))))"
      using that(2) by (simp add: plain_query_def store_rows_sorted sorted_store_select)
    then show ?thesis using that
      by (auto simp: reference_grove_def store_query_plain Let_def sorted_wrt_take take_map [symmetric]
          split: option.splits)
  qed
  show "gdb_get reference_grove db p k = Inr (Item b f)"
    if "gdb_query_raw reference_grove db q = Inr rs" "plain_query q" "(p, k, Item b f) \<in> set rs" for b f
    using store_query_plain_subset[OF that(2), of "(p, k, Item b f)" db] that(1,3)
    by (simp add: reference_grove_def store_get_def store_follow_def store_rows_iff)
  show "(pq_path q, k, Item b f) \<in> set rs"
    if "gdb_query_raw reference_grove db q = Inr rs" "plain_query q" "pq_limit q = Some l"
      "length rs < unat l" "query_covers (pq_query q) k" "outside_documents (pq_path q)"
      "gdb_get reference_grove db (pq_path q) k = Inr (Item b f)" for b f
  proof -
    have "(pq_path q, k, Item b f) \<in> set (store_rows db (pq_path q) (store_select db (pq_path q) (pq_query q)))"
      using that(5-7)
      by (simp add: reference_grove_def store_get_def rs_result store_rows_iff store_select_iff store_keys_iff)
    then show ?thesis using that(1-4) take_short[of "unat l"]
      by (auto simp: reference_grove_def store_query_plain Let_def)
  qed
next
  fix db db' :: store and ops v u sp c p k b
  assume "gdb_apply_batch reference_grove db ops v u sp = (Inr db', c)"
  then have db': "db' = foldl store_write db ops" by (simp add: reference_grove_def)
  show "gdb_get reference_grove db' p k = Inr (Item b None)"
    if "last_write ops p k = Some (Insert (Item b None))"
      "\<And>o'. o' \<in> set ops \<Longrightarrow> deletes o' \<Longrightarrow> \<not> disturbs p o'"
    using map_of_store_write_last[OF that]
    by (simp add: db' reference_grove_def store_get_def store_follow_def)
  show "\<exists>e'. gdb_get_raw reference_grove db' p k = Inr e' \<and> stored_as e e'"
    if "last_write ops p k = Some (Insert e)" "\<And>o'. o' \<in> set ops \<Longrightarrow> deletes o' \<Longrightarrow> \<not> disturbs p o'" for e
    using map_of_store_write_last[OF that] by (cases e) (simp_all add: db' reference_grove_def)
  show "\<exists>err. gdb_get reference_grove db' p k = Inl err \<and> not_found err" if "last_write ops p k = Some Delete"
    using map_of_store_write_deleted[OF that] by (simp add: db' reference_grove_def store_get_def)
  show "gdb_get reference_grove db' p k = gdb_get reference_grove db p k"
    if "\<And>o'. o' \<in> set ops \<Longrightarrow> \<not> writes p k o' \<and> \<not> disturbs p o'" "outside_documents p"
    using map_of_store_write_all[OF that(1)] that(2)
    by (simp add: db' reference_grove_def store_get_def)
next
  fix db :: store and p k e k' f f' b h ops os c o'
  show "gdb_get reference_grove db p k = Inr e" if "gdb_get_raw reference_grove db p k = Inr e" "\<not> is_reference e"
    using that by (cases e) (auto simp: reference_grove_def store_get_def store_follow_def ok_or_eq_Inr)
  show "gdb_get reference_grove db p k = Inr (Item b f')"
    if "gdb_get_raw reference_grove db p k = Inr (Reference (SiblingReference k') (Some 1) f)"
      "gdb_get_raw reference_grove db p k' = Inr (Item b f')" "\<not> outside_documents p"
    using that by (auto simp: reference_grove_def store_get_def store_follow_def ok_or_eq_Inr)
  show "deletes o' \<and> prefix (op_path o' @ [op_key o']) (p @ [k])"
    if "gdb_delete_up_tree reference_grove db p k h ops = (Inr (Some os), c)" "o' \<in> set os"
    using that by (auto simp: reference_grove_def deletes_def)
  show "\<exists>os. res = Some os \<and> last_write os p k = Some Delete"
    if "gdb_delete_up_tree reference_grove db p k (Some height') ops = (Inr res, c)" for height' res
    using that by (auto simp: reference_grove_def writes_def)
qed

end
