(* ===== verification/Errors.thy ===== *)
theory Errors
  imports Grove
begin

text \<open>
  The error enumerations of Drive (\<open>drive/src/error\<close>) and of the ABCI application
  (\<open>dash-abci/src/error\<close>). A Rust panic is a value of the error type as well: it leaves every
  function it passes through, and no handler of the sources catches it.
\<close>

datatype fee_error =
    Overflow string
  | CorruptedStorageFeeNotItem string
  | CorruptedStorageFeeInvalidItemLength string
  | CorruptedProcessingFeeNotItem string
  | CorruptedProcessingFeeInvalidItemLength string
  | CorruptedStartTimeNotItem
  | CorruptedStartTimeLength
  | CorruptedStartBlockHeightNotItem
  | CorruptedStartBlockHeightItemLength
  | CorruptedProposerBlockCountNotItem string
  | CorruptedProposerBlockCountItemLength string
  | CorruptedStorageFeePoolNotItem string
  | CorruptedStorageFeePoolInvalidItemLength string
  | CorruptedMultiplierNotItem string
  | CorruptedMultiplierInvalidItemLength string
  | CorruptedUnpaidEpochIndexItemLength string
  | CorruptedUnpaidEpochIndexNotItem string
  | CorruptedRemovedBytesFromIdentitiesSerialization string
  | FeeCorruptedCodeExecution string
  | DecimalConversion string

datatype drive_error =
    CorruptedCodeExecution string
  | Unsupported string
  | UnsupportedPrivate string
  | GroveDBInsertion string
  | UpdatingReadOnlyImmutableContract string
  | UpdatingReadOnlyImmutableDocument string
  | InvalidDeletionOfDocumentThatKeepsHistory string
  | DeletingDocumentThatDoesNotExist string
  | UpdatingDocumentThatDoesNotExist string
  | ChangingContractToReadOnly string
  | ChangingContractKeepsHistory string
  | ChangingContractDocumentsKeepsHistoryDefault string
  | ChangingContractDocumentsMutabilityDefault string
  | ChangingDocumentTypeMutability string
  | ChangingDocumentTypeKeepsHistory string
  | CorruptedContractPath string
  | CorruptedContractIndexes string
  | CorruptedDocumentPath string
  | CorruptedDocumentAlreadyExists string
  | CorruptedDocumentNotItem string
  | CorruptedIdentityNotItem string
  | CorruptedWithdrawalNotItem string
  | CorruptedWithdrawalTransactionsCounterInvalidLength string
  | CorruptedWithdrawalTransactionsCounterNotItem string
  | CorruptedElementFlags string
  | DriveCorruptedSerialization string
  | CorruptedGenesisTimeNotItem
  | CorruptedGenesisTimeInvalidItemLength string
  | BatchIsEmpty

datatype storage_flags_error =
    DeserializeUnknownStorageFlagsType string
  | StorageFlagsWrongSize string
  | RemovingAtEpochWithNoAssociatedStorage string
  | StorageFlagsOverflow string
  | MergingStorageFlagsFromDifferentOwners string
  | MergingStorageFlagsWithDifferentBaseEpoch string

datatype identity_error =
    MissingRequiredKey string
  | IdentityKeyMissingField string
  | FieldRequirementUnmet string
  | InvalidIdentityStructure string
  | IdentitySerialization string

datatype query_error =
    QueryUnsupported string
  | InvalidSQL string
  | QueryContractNotFound string
  | QueryDocumentTypeNotFound string
  | DuplicateNonGroupableClauseSameField string
  | MultipleInClauses string
  | MultipleRangeClauses string
  | RangeClausesNotGroupable string
  | InvalidBetweenClause string
  | InvalidInClause string
  | InvalidStartsWithClause string
  | InvalidWhereClauseOrder string
  | InvalidWhereClauseComponents string
  | InvalidOrderByProperties string
  | InvalidOrderByPropertiesOrder string
  | InvalidContractId string
  | InvalidLimit string
  | InvalidFormatWhereClause string
  | ConflictingConditions string
  | DuplicateStartConditions string
  | StartDocumentNotFound string
  | InvalidDocumentType string
  | WhereClauseOnNonIndexedProperty string
  | QueryTooFarFromIndex string
  | QueryOnDocumentTypeWithNoIndexes string
  | MissingOrderByForRange string
  | RangeOperatorNotInFinalIndex string
  | InOperatorNotInFinalIndexesIndex string
  | RangeOperatorDoesNotHaveOrderBy string
  | Validation string
  | WhereConditionPropertiesNumber string
  | StartsWithIllegalString string

datatype structure_error =
    InvalidProtocolVersion string
  | InvalidCBOR string
  | KeyWrongType string
  | KeyWrongBounds string
  | ValueWrongType string

datatype document_error =
    MissingDocumentProperty string
  | InvalidDocumentPropertyType string
  | InvalidContractIdSize
  | DocumentContractNotFound

text \<open>
  The errors of contracts, from \<open>dpp/src/data_contract/extra/errors.rs\<close>; a protocol error of the
  rest of \<open>dpp\<close> is carried as its message.
\<close>

datatype contract_error =
    ContractMissingRequiredKey string
  | ContractFieldRequirementUnmet string
  | ContractKeyWrongType string
  | ContractValueWrongType string
  | ValueDecodingError string
  | EncodingDataStructureNotSupported string
  | InvalidContractStructure string
  | DocumentTypeNotFound string
  | DocumentTypeFieldNotFound string
  | ReferenceDefinitionNotFound string
  | DocumentOwnerIdMissing string
  | DocumentIdMissing string
  | ContractUnsupported string
  | ContractCorruptedSerialization string
  | ContractStructureError structure_error
  | ContractProtocolError string

datatype error =
    Query query_error
  | StorageFlagsErr storage_flags_error
  | DriveErr drive_error
  | GroveDB grove_error
  | ContractErr contract_error
  | IdentityErr identity_error
  | StructureErr structure_error
  | Fee fee_error
  | DocumentErr document_error
  | Panic string

datatype execution_error =
    ExecMissingRequiredKey string
  | ExecOverflow string
  | Conversion string
  | ExecCorruptedCodeExecution string
  | DriveIncoherence string
  | DriveMissingData string

datatype serialization_error =
    CorruptedSerialization string
  | CorruptedDeserialization string

datatype abci_error =
    Drive error
  | Execution execution_error
  | Serialization serialization_error
  | AbciPanic string

text \<open>
  The implicit \<open>From\<close> conversion of \<open>?\<close>, and \<open>map_err(Error::Drive)\<close>: a Drive error is
  wrapped, a panic stays one.
\<close>

definition wrap_drive :: "error \<Rightarrow> abci_error" where
  "wrap_drive e = (case e of Panic s \<Rightarrow> AbciPanic s | _ \<Rightarrow> Drive e)"

definition from_drive :: "error + 'a \<Rightarrow> abci_error + 'a" where
  "from_drive m = map_err wrap_drive m"

lemma from_drive_Inr [simp]: "from_drive (Inr x) = Inr x"
  by (simp add: from_drive_def)

lemma from_drive_eq_Inr [rs_result]: "from_drive m = Inr x \<longleftrightarrow> m = Inr x"
  by (simp add: from_drive_def rs_result)

end
