(* ===== verification/Epochs.thy ===== *)
theory Epochs
  imports Errors
begin

text \<open>
  Epochs and fee pools in Drive: \<open>drive/src/fee_pools\<close> (the \<open>Epoch\<close> value, its keys, paths and
  batch operations) and \<open>drive/src/drive/fee_pools\<close> (the readers of the stored pools). Operations
  append to a batch, readers look one element up and decode it; every failure of a reader is an
  error value. Keys are shown to encode and decode exactly and in the order of the epoch indexes.
\<close>

section \<open>The root tree and batches\<close>

datatype root_tree =
    Identities | ContractDocuments | PublicKeyHashesToIdentities | SpentAssetLockTransactions
  | Pools | Misc | WithdrawalTransactions

fun root_tree_byte :: "root_tree \<Rightarrow> u8" where
  "root_tree_byte Identities = 0"
| "root_tree_byte ContractDocuments = 1"
| "root_tree_byte PublicKeyHashesToIdentities = 2"
| "root_tree_byte SpentAssetLockTransactions = 3"
| "root_tree_byte Pools = 4"
| "root_tree_byte Misc = 5"
| "root_tree_byte WithdrawalTransactions = 6"

definition root_key :: "root_tree \<Rightarrow> bytes" where
  "root_key t = [root_tree_byte t]"

type_synonym batch = "grove_op list"

definition insert_run_op :: "path \<Rightarrow> bytes \<Rightarrow> element \<Rightarrow> grove_op" where
  "insert_run_op p k e = \<lparr>op_path = p, op_key = k, op_op = Insert e, op_mode = RunOp\<rparr>"

definition delete_run_op :: "path \<Rightarrow> bytes \<Rightarrow> grove_op" where
  "delete_run_op p k = \<lparr>op_path = p, op_key = k, op_op = Delete, op_mode = RunOp\<rparr>"

definition delete_tree_run_op :: "path \<Rightarrow> bytes \<Rightarrow> grove_op" where
  "delete_tree_run_op p k = \<lparr>op_path = p, op_key = k, op_op = DeleteTree, op_mode = RunOp\<rparr>"

definition empty_tree :: element where
  "empty_tree = Tree None None"

definition push :: "grove_op \<Rightarrow> batch \<Rightarrow> batch" where
  "push op batch = batch @ [op]"

definition add_insert_empty_tree :: "path \<Rightarrow> bytes \<Rightarrow> batch \<Rightarrow> batch" where
  "add_insert_empty_tree p k batch = push (insert_run_op p k empty_tree) batch"

definition add_delete :: "path \<Rightarrow> bytes \<Rightarrow> batch \<Rightarrow> batch" where
  "add_delete p k batch = push (delete_run_op p k) batch"

definition add_delete_tree :: "path \<Rightarrow> bytes \<Rightarrow> batch \<Rightarrow> batch" where
  "add_delete_tree p k batch = push (delete_tree_run_op p k) batch"

definition add_insert :: "path \<Rightarrow> bytes \<Rightarrow> element \<Rightarrow> batch \<Rightarrow> batch" where
  "add_insert p k e batch = push (insert_run_op p k e) batch"

section \<open>Constants\<close>

definition GENESIS_EPOCH_INDEX :: u16 where "GENESIS_EPOCH_INDEX = 0"
definition EPOCHS_PER_YEAR :: u16 where "EPOCHS_PER_YEAR = 20"
definition PERPETUAL_STORAGE_YEARS :: u16 where "PERPETUAL_STORAGE_YEARS = 50"
definition PERPETUAL_STORAGE_EPOCHS :: u16 where
  "PERPETUAL_STORAGE_EPOCHS = PERPETUAL_STORAGE_YEARS * EPOCHS_PER_YEAR"

definition KEY_STORAGE_FEE_POOL :: bytes where "KEY_STORAGE_FEE_POOL = [115]"
definition KEY_UNPAID_EPOCH_INDEX :: bytes where "KEY_UNPAID_EPOCH_INDEX = [117]"
definition KEY_POOL_PROCESSING_FEES :: bytes where "KEY_POOL_PROCESSING_FEES = [112]"
definition KEY_POOL_STORAGE_FEES :: bytes where "KEY_POOL_STORAGE_FEES = [115]"
definition KEY_START_TIME :: bytes where "KEY_START_TIME = [116]"
definition KEY_START_BLOCK_HEIGHT :: bytes where "KEY_START_BLOCK_HEIGHT = [99]"
definition KEY_PROPOSERS :: bytes where "KEY_PROPOSERS = [109]"
definition KEY_FEE_MULTIPLIER :: bytes where "KEY_FEE_MULTIPLIER = [120]"
definition EPOCH_STORAGE_OFFSET :: u16 where "EPOCH_STORAGE_OFFSET = 256"

lemmas epoch_constants =
  GENESIS_EPOCH_INDEX_def EPOCHS_PER_YEAR_def PERPETUAL_STORAGE_YEARS_def
  PERPETUAL_STORAGE_EPOCHS_def EPOCH_STORAGE_OFFSET_def

lemmas key_constants =
  KEY_STORAGE_FEE_POOL_def KEY_UNPAID_EPOCH_INDEX_def KEY_POOL_PROCESSING_FEES_def
  KEY_POOL_STORAGE_FEES_def KEY_START_TIME_def KEY_START_BLOCK_HEIGHT_def KEY_PROPOSERS_def
  KEY_FEE_MULTIPLIER_def

section \<open>Epochs and their keys\<close>

definition encode_epoch_index_key :: "u16 \<Rightarrow> error + bytes" where
  "encode_epoch_index_key index =
     rbind (ok_or (Fee (Overflow ''stored epoch index too high'')) (checked_add index EPOCH_STORAGE_OFFSET))
       (\<lambda>index_with_offset. Inr (u16_to_be index_with_offset))"

definition decode_epoch_index_key :: "bytes \<Rightarrow> error + u16" where
  "decode_epoch_index_key epoch_key =
     rbind (ok_or (Fee (CorruptedProposerBlockCountItemLength ''item have an invalid length''))
              (u16_from_be epoch_key))
       (\<lambda>index_with_offset. ok_or (Fee (Overflow ''stored epoch index too low''))
              (checked_sub index_with_offset EPOCH_STORAGE_OFFSET))"

record epoch =
  index :: u16
  key :: bytes

definition epoch_new :: "u16 \<Rightarrow> error + epoch" where
  "epoch_new i =
     (case encode_epoch_index_key i of
        Inl e \<Rightarrow> Inl (Panic ''epoch index is too high'')
      | Inr k \<Rightarrow> Inr \<lparr>index = i, key = k\<rparr>)"

definition pools_path :: path where "pools_path = [root_key Pools]"

definition aggregate_storage_fees_distribution_pool_path :: path where
  "aggregate_storage_fees_distribution_pool_path = [root_key Pools, KEY_STORAGE_FEE_POOL]"

definition get_proposers_path :: "epoch \<Rightarrow> path" where
  "get_proposers_path e = [root_key Pools, key e, KEY_PROPOSERS]"

definition get_path :: "epoch \<Rightarrow> path" where
  "get_path e = [root_key Pools, key e]"

text \<open>The epoch of an index that can be stored, and the key it is stored under.\<close>

abbreviation storable :: "u16 \<Rightarrow> bool" where
  "storable i \<equiv> unat i + 256 < 2 ^ 16"

definition epoch_at :: "u16 \<Rightarrow> epoch" where
  "epoch_at i = \<lparr>index = i, key = u16_to_be (i + 256)\<rparr>"

text \<open>Only the contract documents hold references; a read below the pools returns what is stored.\<close>

lemma root_key_documents [simp]: "root_key t = [1] \<longleftrightarrow> t = ContractDocuments"
  by (cases t) (simp_all add: root_key_def)

lemma outside_below_pools: "prefix pools_path p \<Longrightarrow> outside_documents p"
  by (auto simp: pools_path_def prefix_def)

lemma outside_pools [simp]: "outside_documents pools_path"
  by (simp add: outside_below_pools)

lemma encode_epoch_index_key_storable:
  "encode_epoch_index_key i =
     (if storable i then Inr (u16_to_be (i + 256)) else Inl (Fee (Overflow ''stored epoch index too high'')))"
  by (simp add: encode_epoch_index_key_def EPOCH_STORAGE_OFFSET_def checked_add_def)

lemma epoch_new_storable:
  "epoch_new i = (if storable i then Inr (epoch_at i) else Inl (Panic ''epoch index is too high''))"
  by (simp add: epoch_new_def encode_epoch_index_key_storable epoch_at_def)

lemma unat_offset: "storable i \<Longrightarrow> unat (i + 256) = unat i + 256"
  by (simp add: unat_word_ariths)

section \<open>Operations on an epoch\<close>

text \<open>An \<open>f64\<close> is its IEEE bit pattern; only its bytes are stored and read back.\<close>

type_synonym f64_bits = u64

definition u64_item :: "u64 \<Rightarrow> element" where
  "u64_item n = Item (u64_to_be n) None"

definition update_start_time_operation :: "epoch \<Rightarrow> u64 \<Rightarrow> grove_op" where
  "update_start_time_operation e time_ms =
     insert_run_op (get_path e) KEY_START_TIME (u64_item time_ms)"

definition update_start_block_height_operation :: "epoch \<Rightarrow> u64 \<Rightarrow> grove_op" where
  "update_start_block_height_operation e start_block_height =
     insert_run_op (get_path e) KEY_START_BLOCK_HEIGHT (u64_item start_block_height)"

definition update_fee_multiplier_operation :: "epoch \<Rightarrow> f64_bits \<Rightarrow> grove_op" where
  "update_fee_multiplier_operation e multiplier =
     insert_run_op (get_path e) KEY_FEE_MULTIPLIER (u64_item multiplier)"

definition update_processing_credits_for_distribution_operation :: "epoch \<Rightarrow> u64 \<Rightarrow> grove_op" where
  "update_processing_credits_for_distribution_operation e processing_fee =
     insert_run_op (get_path e) KEY_POOL_PROCESSING_FEES (u64_item processing_fee)"

definition delete_processing_credits_for_distribution_operation :: "epoch \<Rightarrow> grove_op" where
  "delete_processing_credits_for_distribution_operation e =
     delete_run_op (get_path e) KEY_POOL_PROCESSING_FEES"

definition update_storage_credits_for_distribution_operation :: "epoch \<Rightarrow> u64 \<Rightarrow> grove_op" where
  "update_storage_credits_for_distribution_operation e storage_fee =
     insert_run_op (get_path e) KEY_POOL_STORAGE_FEES (u64_item storage_fee)"

definition delete_storage_credits_for_distribution_operation :: "epoch \<Rightarrow> grove_op" where
  "delete_storage_credits_for_distribution_operation e =
     delete_run_op (get_path e) KEY_POOL_STORAGE_FEES"

definition update_proposer_block_count_operation :: "epoch \<Rightarrow> bytes \<Rightarrow> u64 \<Rightarrow> grove_op" where
  "update_proposer_block_count_operation e proposer_pro_tx_hash block_count =
     insert_run_op (get_proposers_path e) proposer_pro_tx_hash (u64_item block_count)"

definition init_proposers_tree_operation :: "epoch \<Rightarrow> grove_op" where
  "init_proposers_tree_operation e = insert_run_op (get_path e) KEY_PROPOSERS empty_tree"

definition delete_proposers_tree_operation :: "epoch \<Rightarrow> grove_op" where
  "delete_proposers_tree_operation e = delete_tree_run_op (get_path e) KEY_PROPOSERS"

fun add_delete_proposers_operations :: "epoch \<Rightarrow> bytes list \<Rightarrow> batch \<Rightarrow> batch" where
  "add_delete_proposers_operations e [] batch = batch"
| "add_delete_proposers_operations e (pro_tx_hash # pro_tx_hashes) batch =
     add_delete_proposers_operations e pro_tx_hashes (add_delete (get_proposers_path e) pro_tx_hash batch)"

definition add_init_empty_without_storage_operations :: "epoch \<Rightarrow> batch \<Rightarrow> batch" where
  "add_init_empty_without_storage_operations e batch = add_insert_empty_tree pools_path (key e) batch"

definition add_init_empty_operations :: "epoch \<Rightarrow> batch \<Rightarrow> batch" where
  "add_init_empty_operations e batch =
     push (update_storage_credits_for_distribution_operation e 0)
       (add_init_empty_without_storage_operations e batch)"

definition add_init_current_operations :: "epoch \<Rightarrow> f64_bits \<Rightarrow> u64 \<Rightarrow> u64 \<Rightarrow> batch \<Rightarrow> batch" where
  "add_init_current_operations e multiplier start_block_height start_time_ms batch =
     push (update_start_time_operation e start_time_ms)
      (push (update_fee_multiplier_operation e multiplier)
       (push (init_proposers_tree_operation e)
        (push (update_start_block_height_operation e start_block_height) batch)))"

definition add_mark_as_paid_operations :: "epoch \<Rightarrow> batch \<Rightarrow> batch" where
  "add_mark_as_paid_operations e batch =
     push (delete_processing_credits_for_distribution_operation e)
      (push (delete_storage_credits_for_distribution_operation e)
       (push (delete_proposers_tree_operation e) batch))"

definition update_storage_fee_distribution_pool_operation :: "u64 \<Rightarrow> grove_op" where
  "update_storage_fee_distribution_pool_operation storage_fee =
     insert_run_op pools_path KEY_STORAGE_FEE_POOL (u64_item storage_fee)"

definition update_unpaid_epoch_index_operation :: "u16 \<Rightarrow> grove_op" where
  "update_unpaid_epoch_index_operation epoch_index =
     insert_run_op pools_path KEY_UNPAID_EPOCH_INDEX (Item (u16_to_be epoch_index) None)"

fun init_empty_epochs :: "u16 list \<Rightarrow> batch \<Rightarrow> error + batch" where
  "init_empty_epochs [] batch = Inr batch"
| "init_empty_epochs (i # is) batch =
     rbind (epoch_new i) (\<lambda>e. init_empty_epochs is (add_init_empty_operations e batch))"

definition add_create_fee_pool_trees_operations :: "batch \<Rightarrow> error + batch" where
  "add_create_fee_pool_trees_operations batch =
     init_empty_epochs
       (map word_of_nat [unat GENESIS_EPOCH_INDEX ..< unat PERPETUAL_STORAGE_EPOCHS])
       (push (update_unpaid_epoch_index_operation GENESIS_EPOCH_INDEX)
         (push (update_storage_fee_distribution_pool_operation 0) batch))"

section \<open>Readers\<close>

text \<open>The shape all readers share: look the element up, require an item, decode its bytes.\<close>

definition read_item :: "'db grovedb \<Rightarrow> 'db \<Rightarrow> path \<Rightarrow> bytes \<Rightarrow> (bytes \<Rightarrow> 'a option) \<Rightarrow>
    fee_error \<Rightarrow> fee_error \<Rightarrow> error + 'a" where
  "read_item G db p k dec bad_length not_item =
     rbind (map_err GroveDB (gdb_get G db p k))
       (\<lambda>el. case el of
          Item item _ \<Rightarrow> ok_or (Fee bad_length) (dec item)
        | _ \<Rightarrow> Inl (Fee not_item))"

definition get_unpaid_epoch_index :: "'db grovedb \<Rightarrow> 'db \<Rightarrow> error + u16" where
  "get_unpaid_epoch_index G db =
     read_item G db pools_path KEY_UNPAID_EPOCH_INDEX u16_from_be
       (CorruptedUnpaidEpochIndexItemLength ''item have an invalid length'')
       (CorruptedUnpaidEpochIndexNotItem ''must be an item'')"

definition get_aggregate_storage_fees_from_distribution_pool :: "'db grovedb \<Rightarrow> 'db \<Rightarrow> error + u64" where
  "get_aggregate_storage_fees_from_distribution_pool G db =
     (case gdb_get G db pools_path KEY_STORAGE_FEE_POOL of
        Inr el \<Rightarrow>
          (case el of
             Item item _ \<Rightarrow>
               ok_or (Fee (CorruptedStorageFeePoolInvalidItemLength ''fee pools storage fee pool is not i64''))
                 (u64_from_be item)
           | _ \<Rightarrow> Inl (Fee (CorruptedStorageFeePoolNotItem ''fee pools storage fee pool must be an item'')))
      | Inl (PathKeyNotFound _) \<Rightarrow> Inr 0
      | Inl e \<Rightarrow> Inl (GroveDB e))"

definition get_epoch_storage_credits_for_distribution :: "'db grovedb \<Rightarrow> 'db \<Rightarrow> epoch \<Rightarrow> error + u64" where
  "get_epoch_storage_credits_for_distribution G db e =
     read_item G db (get_path e) KEY_POOL_STORAGE_FEES u64_from_be
       (CorruptedStorageFeeInvalidItemLength ''epochs storage fee is not u64'')
       (CorruptedStorageFeeNotItem ''epochs storage fee must be an item'')"

definition get_epoch_processing_credits_for_distribution :: "'db grovedb \<Rightarrow> 'db \<Rightarrow> epoch \<Rightarrow> error + u64" where
  "get_epoch_processing_credits_for_distribution G db e =
     read_item G db (get_path e) KEY_POOL_PROCESSING_FEES u64_from_be
       (CorruptedProcessingFeeInvalidItemLength ''epochs processing fee is not u64'')
       (CorruptedProcessingFeeNotItem ''epochs processing fee must be an item'')"

definition get_epoch_fee_multiplier :: "'db grovedb \<Rightarrow> 'db \<Rightarrow> epoch \<Rightarrow> error + f64_bits" where
  "get_epoch_fee_multiplier G db e =
     read_item G db (get_path e) KEY_FEE_MULTIPLIER u64_from_be
       (CorruptedMultiplierInvalidItemLength ''epochs multiplier item have an invalid length'')
       (CorruptedMultiplierNotItem ''epochs multiplier must be an item'')"

definition get_epoch_total_credits_for_distribution :: "'db grovedb \<Rightarrow> 'db \<Rightarrow> epoch \<Rightarrow> error + u64" where
  "get_epoch_total_credits_for_distribution G db e =
     rbind (get_epoch_storage_credits_for_distribution G db e) (\<lambda>storage_pool_credits.
     rbind (get_epoch_processing_credits_for_distribution G db e) (\<lambda>processing_pool_credits.
       ok_or (Fee (Overflow ''overflow getting total credits for distribution''))
         (checked_add storage_pool_credits processing_pool_credits)))"

definition get_epoch_start_block_height :: "'db grovedb \<Rightarrow> 'db \<Rightarrow> epoch \<Rightarrow> error + u64" where
  "get_epoch_start_block_height G db e =
     read_item G db (get_path e) KEY_START_BLOCK_HEIGHT u64_from_be
       CorruptedStartBlockHeightItemLength CorruptedStartBlockHeightNotItem"

definition get_epoch_start_time :: "'db grovedb \<Rightarrow> 'db \<Rightarrow> epoch \<Rightarrow> error + u64" where
  "get_epoch_start_time G db e =
     read_item G db (get_path e) KEY_START_TIME u64_from_be
       CorruptedStartTimeLength CorruptedStartTimeNotItem"

definition is_epoch_tree_exists :: "'db grovedb \<Rightarrow> 'db \<Rightarrow> epoch \<Rightarrow> error + bool" where
  "is_epoch_tree_exists G db e = map_err GroveDB (gdb_has_raw G db pools_path (key e))"

definition get_epochs_proposer_block_count :: "'db grovedb \<Rightarrow> 'db \<Rightarrow> epoch \<Rightarrow> bytes \<Rightarrow> error + u64" where
  "get_epochs_proposer_block_count G db e proposer_tx_hash =
     read_item G db (get_proposers_path e) proposer_tx_hash u64_from_be
       (CorruptedProposerBlockCountItemLength ''epochs proposer block count item have an invalid length'')
       (CorruptedProposerBlockCountNotItem ''epochs proposer block count must be an item'')"

definition is_epochs_proposers_tree_empty :: "'db grovedb \<Rightarrow> 'db \<Rightarrow> epoch \<Rightarrow> error + bool" where
  "is_epochs_proposers_tree_empty G db e =
     (case gdb_is_empty_tree G db (get_proposers_path e) of
        Inr result \<Rightarrow> Inr result
      | Inl (PathNotFound _) \<Rightarrow> Inr True
      | Inl (PathParentLayerNotFound _) \<Rightarrow> Inr True
      | Inl _ \<Rightarrow> Inl (DriveErr (CorruptedCodeExecution ''internal grovedb error'')))"

definition proposer_row :: "path \<times> bytes \<times> element \<Rightarrow> error + (bytes \<times> u64)" where
  "proposer_row r =
     (case r of (_, pro_tx_hash, el) \<Rightarrow>
        (case el of
           Item item _ \<Rightarrow>
             rbind (ok_or (Fee (CorruptedProposerBlockCountItemLength
                       ''epochs proposer block count item have an invalid length'')) (u64_from_be item))
               (\<lambda>block_count. Inr (pro_tx_hash, block_count))
         | _ \<Rightarrow> Inl (Fee (CorruptedProposerBlockCountNotItem
                       ''epochs proposer block count must be an item''))))"

definition get_epoch_proposers :: "'db grovedb \<Rightarrow> 'db \<Rightarrow> epoch \<Rightarrow> u16 \<Rightarrow> error + (bytes \<times> u64) list" where
  "get_epoch_proposers G db e limit =
     rbind (map_err GroveDB (gdb_query_raw G db
        \<lparr>pq_path = get_proposers_path e, pq_query = insert_item RangeFull query_new,
         pq_limit = Some limit, pq_offset = None\<rparr>))
       (\<lambda>key_elements. mapM proposer_row key_elements)"

definition first_epoch_query :: "bytes \<Rightarrow> bytes \<Rightarrow> path_query" where
  "first_epoch_query from_epoch_key current_epoch_key =
     \<lparr>pq_path = pools_path,
      pq_query = set_subquery (insert_item (Key KEY_START_BLOCK_HEIGHT) query_new)
        (insert_item (RangeAfterToInclusive from_epoch_key current_epoch_key) query_new),
      pq_limit = Some 1, pq_offset = None\<rparr>"

definition first_epoch_result :: "(path \<times> bytes \<times> element) list \<Rightarrow> error + (u16 \<times> u64) option" where
  "first_epoch_result result_items =
     (case result_items of
        [] \<Rightarrow> Inr None
      | (path, _, el) # _ \<Rightarrow>
          rbind (case el of
                   Item item _ \<Rightarrow> ok_or (Fee (CorruptedProposerBlockCountItemLength ''item have an invalid length''))
                                   (u64_from_be item)
                 | _ \<Rightarrow> Inl (Fee CorruptedStartBlockHeightItemLength)) (\<lambda>next_start_block_height.
          rbind (if path = [] then Inl (Fee CorruptedStartBlockHeightItemLength) else Inr (last path))
            (\<lambda>epoch_key.
          rbind (decode_epoch_index_key epoch_key) (\<lambda>epoch_index.
            Inr (Some (epoch_index, next_start_block_height))))))"

definition get_first_epoch_start_block_height_between_epochs ::
    "'db grovedb \<Rightarrow> 'db \<Rightarrow> u16 \<Rightarrow> u16 \<Rightarrow> error + (u16 \<times> u64) option" where
  "get_first_epoch_start_block_height_between_epochs G db from_epoch_index to_epoch_index =
     rbind (encode_epoch_index_key from_epoch_index) (\<lambda>from_epoch_key.
     rbind (encode_epoch_index_key to_epoch_index) (\<lambda>current_epoch_key.
     rbind (map_err GroveDB (gdb_query_raw G db (first_epoch_query from_epoch_key current_epoch_key)))
       first_epoch_result))"

definition increment_proposer_block_count_operation ::
    "'db grovedb \<Rightarrow> 'db \<Rightarrow> epoch \<Rightarrow> bytes \<Rightarrow> u64 option \<Rightarrow> error + grove_op" where
  "increment_proposer_block_count_operation G db e proposer_pro_tx_hash cached_previous_block_count =
     rbind (case cached_previous_block_count of
              Some block_count \<Rightarrow> Inr block_count
            | None \<Rightarrow>
                (case get_epochs_proposer_block_count G db e proposer_pro_tx_hash of
                   Inl (GroveDB (PathKeyNotFound _)) \<Rightarrow> Inr 0
                 | r \<Rightarrow> r))
       (\<lambda>proposed_block_count.
          Inr (update_proposer_block_count_operation e proposer_pro_tx_hash (proposed_block_count + 1)))"

section \<open>Keys are faithful\<close>

lemma decode_epoch_index_key_u16:
  "decode_epoch_index_key (u16_to_be w) =
     (if 256 \<le> unat w then Inr (w - 256) else Inl (Fee (Overflow ''stored epoch index too low'')))"
  by (simp add: decode_epoch_index_key_def EPOCH_STORAGE_OFFSET_def checked_sub_def word_le_nat_alt)

lemma decode_iff_encode:
  "decode_epoch_index_key k = Inr i \<longleftrightarrow> encode_epoch_index_key i = Inr k"
proof
  assume "decode_epoch_index_key k = Inr i"
  then obtain w where w: "u16_from_be k = Some w" "checked_sub w EPOCH_STORAGE_OFFSET = Some i"
    by (auto simp: decode_epoch_index_key_def rs_result)
  then have k: "k = u16_to_be w" and n: "unat w = unat i + 256"
    by (simp_all add: u16_codec.dec_Some_iff checked_sub_Some EPOCH_STORAGE_OFFSET_def)
  have st: "storable i" using n unat_width(2)[of w] by simp
  then have "w = i + 256" using n by (simp add: word_unat_eq_iff unat_offset)
  with k st show "encode_epoch_index_key i = Inr k" by (simp add: encode_epoch_index_key_storable)
next
  assume "encode_epoch_index_key i = Inr k"
  then have "storable i" "k = u16_to_be (i + 256)"
    by (auto simp: encode_epoch_index_key_storable split: if_splits)
  then show "decode_epoch_index_key k = Inr i"
    by (simp add: decode_epoch_index_key_u16 unat_offset)
qed

lemma epoch_keys_ordered:
  "encode_epoch_index_key i = Inr a \<Longrightarrow> encode_epoch_index_key j = Inr b \<Longrightarrow> a < b \<longleftrightarrow> i < j"
  by (auto simp: encode_epoch_index_key_storable u16_to_be_less word_less_nat_alt unat_offset split: if_splits)

text \<open>The key an epoch is stored under decodes to that epoch's index and nothing else does, so keys
  of the wrong length or below the storage offset are refused; and keys are ordered as the indexes,
  which the range query over epochs relies on.\<close>

theorem epoch_key_codec:
  "(decode_epoch_index_key k = Inr i \<longleftrightarrow> encode_epoch_index_key i = Inr k) \<and>
   (encode_epoch_index_key i = Inr a \<and> encode_epoch_index_key j = Inr b \<longrightarrow> (a < b \<longleftrightarrow> i < j))"
  using decode_iff_encode epoch_keys_ordered by blast

theorem epoch_key_codec_witness:
  "(decode_epoch_index_key [1, 5] = Inr 5 \<longleftrightarrow> encode_epoch_index_key 5 = Inr [1, 5]) \<and>
   ([1, 5] < ([4, 0] :: bytes) \<longleftrightarrow> (5 :: u16) < 768) \<and> encode_epoch_index_key 768 = Inr [4, 0]"
proof -
  have e: "encode_epoch_index_key 5 = Inr [1, 5]" "encode_epoch_index_key 768 = Inr [4, 0]"
    by (simp_all add: encode_epoch_index_key_storable u16_to_be_def be_bytes_eval)
  show ?thesis using epoch_key_codec[of "[1, 5]" 5 "[1, 5]" 768 "[4, 0]"] e by blast
qed

lemma epoch_at_inject: "storable i \<Longrightarrow> storable j \<Longrightarrow> key (epoch_at i) = key (epoch_at j) \<longleftrightarrow> i = j"
  by (simp add: epoch_at_def)

lemma length_epoch_key [simp]: "length (key (epoch_at i)) = 2"
  by (simp add: epoch_at_def)

lemma index_epoch_at [simp]: "index (epoch_at i) = i"
  by (simp add: epoch_at_def)

text \<open>
  The next epoch with a start block lies strictly after the epoch asked about and not past the
  current one.
\<close>

lemma first_epoch_between:
  assumes G: "grove_contract G"
    and r: "get_first_epoch_start_block_height_between_epochs G db i j = Inr (Some (n, h))"
  shows "i < n \<and> n \<le> j"
proof -
  from r obtain a b rows' where
      a: "encode_epoch_index_key i = Inr a" and b: "encode_epoch_index_key j = Inr b"
    and rows': "gdb_query_raw G db (first_epoch_query a b) = Inr rows'"
    and res: "first_epoch_result rows' = Inr (Some (n, h))"
    by (auto simp: get_first_epoch_start_block_height_between_epochs_def rbind_eq_Inr map_err_eq_Inr)
  from res obtain path k el tail where row: "rows' = (path, k, el) # tail"
    and ek: "path \<noteq> []" "decode_epoch_index_key (last path) = Inr n"
    by (auto simp: first_epoch_result_def rbind_eq_Inr split: list.splits if_splits)
  define rows where "rows = rows'"
  have rows: "gdb_query_raw G db (first_epoch_query a b) = Inr rows" "rows = (path, k, el) # tail"
    using rows' row by (simp_all add: rows_def)
  from rows have mem: "(path, k, el) \<in> set rows" by simp
  have q: "subquery (pq_query (first_epoch_query a b)) = Some (insert_item (Key KEY_START_BLOCK_HEIGHT) query_new)"
    "pq_path (first_epoch_query a b) = pools_path"
    "items (pq_query (first_epoch_query a b)) = [RangeAfterToInclusive a b]"
    by (simp_all add: first_epoch_query_def query_setters)
  obtain k' where k': "path = pools_path @ [k']" "query_covers (pq_query (first_epoch_query a b)) k'"
    using grove_contract.query_nested[OF G rows(1) mem q(1)] q(2) by (auto simp: first_epoch_query_def query_setters)
  then have "a < k' \<and> k' \<le> b" by (simp add: query_covers_def q(3))
  moreover have n: "encode_epoch_index_key n = Inr k'" using ek(2) k'(1) by (simp add: decode_iff_encode)
  ultimately show ?thesis
    using epoch_keys_ordered[OF a n] epoch_keys_ordered[OF b n] by (auto simp: not_less [symmetric])
qed

end
