(* ===== verification/Flags.thy ===== *)
theory Flags
  imports Errors
begin

text \<open>
  Storage flags: \<open>drive/src/drive/flags.rs\<close>. Flags record, for every stored element, the epoch it
  was added in, the bytes added to it in later epochs and the identity that pays for it; they are
  serialized into the element's GroveDB flags. Variable-length integers (\<open>integer-encoding\<close>) and the
  integer map (\<open>intmap\<close>) are dependencies: their operations are arguments, their contracts the
  locales \<open>varint_contract\<close> and \<open>int_map_contract\<close>.
\<close>

section \<open>Dependencies\<close>

record varint_ops =
  vi_encode :: "u32 \<Rightarrow> bytes"
  vi_decode :: "bytes \<Rightarrow> (u32 \<times> nat) option"

locale varint_contract =
  fixes V :: varint_ops
  assumes decode_encode: "vi_decode V (vi_encode V n @ rest) = Some (n, length (vi_encode V n))"
    and encode_nonempty: "vi_encode V n \<noteq> []"

text \<open>\<open>IntMap::insert\<close> of a key that is absent adds the entry and keeps the others.\<close>

type_synonym int_map_insert = "u64 \<Rightarrow> u32 \<Rightarrow> int_map \<Rightarrow> int_map"

locale int_map_contract =
  fixes ins :: int_map_insert
  assumes insert_fresh: "k \<notin> fst ` set m \<Longrightarrow> distinct (map fst m) \<Longrightarrow>
    set (ins k v m) = insert (k, v) (set m) \<and> distinct (map fst (ins k v m))"

text \<open>Reference implementations: the base-128 encoding and insertion at the front.\<close>

fun leb128 :: "nat \<Rightarrow> nat \<Rightarrow> bytes" where
  "leb128 0 n = [word_of_nat n]"
| "leb128 (Suc f) n =
     (if n < 128 then [word_of_nat n] else word_of_nat (n mod 128 + 128) # leb128 f (n div 128))"

fun leb128_decode :: "bytes \<Rightarrow> (nat \<times> nat) option" where
  "leb128_decode [] = None"
| "leb128_decode (b # bs) =
     (if unat b < 128 then Some (unat b, 1)
      else map_option (\<lambda>(n, used). (unat b - 128 + 128 * n, Suc used)) (leb128_decode bs))"

definition reference_varint :: varint_ops where
  "reference_varint = \<lparr>
     vi_encode = (\<lambda>n. leb128 5 (unat n)),
     vi_decode = (\<lambda>bs. map_option (\<lambda>(n, used). (word_of_nat n, used)) (leb128_decode bs))\<rparr>"

definition reference_int_map_insert :: int_map_insert where
  "reference_int_map_insert k v m = (k, v) # filter (\<lambda>e. fst e \<noteq> k) m"

lemma leb128_decode_encode:
  "n < 128 ^ Suc f \<Longrightarrow> leb128_decode (leb128 f n @ rest) = Some (n, length (leb128 f n))"
proof (induction f arbitrary: n)
  case 0
  then show ?case by (simp add: unsigned_of_nat take_bit_nat_eq_self)
next
  case (Suc f)
  have small: "unat (word_of_nat n :: u8) = n" if "n < 128"
    using that by (simp add: unsigned_of_nat take_bit_nat_eq_self)
  have big: "unat (word_of_nat (n mod 128 + 128) :: u8) = n mod 128 + 128"
    using mod_less_divisor[of 128 n] by (simp only: unat_of_nat) simp
  have "n div 128 < 128 ^ Suc f" using Suc.prems by (simp add: less_mult_imp_div_less mult.commute)
  from Suc.IH[OF this] show ?case
    by (cases "n < 128") (simp_all only: leb128.simps if_True if_False append.simps leb128_decode.simps
        small big list.size, simp_all)
qed

lemma leb128_nonempty: "leb128 f n \<noteq> []"
  by (cases f) simp_all

interpretation ref_varint: varint_contract reference_varint
proof
  fix n :: u32 and rest :: bytes
  have "unat n < 128 ^ Suc 5" using unat_width(3)[of n] by simp
  then show "vi_decode reference_varint (vi_encode reference_varint n @ rest) =
      Some (n, length (vi_encode reference_varint n))"
    by (simp add: reference_varint_def leb128_decode_encode del: leb128.simps)
  show "vi_encode reference_varint n \<noteq> []"
    by (simp add: reference_varint_def leb128_nonempty del: leb128.simps)
qed

interpretation ref_int_map: int_map_contract reference_int_map_insert
  by unfold_locales (auto simp: reference_int_map_insert_def distinct_map_filter)

section \<open>Flags\<close>

type_synonym epoch_map = "(u16, u32) btree"

datatype storage_flags =
    SingleEpoch u16
  | MultiEpoch u16 epoch_map
  | SingleEpochOwned u16 id32
  | MultiEpochOwned u16 epoch_map id32

definition new_single_epoch :: "u16 \<Rightarrow> id32 option \<Rightarrow> storage_flags" where
  "new_single_epoch epoch maybe_owner_id =
     (case maybe_owner_id of None \<Rightarrow> SingleEpoch epoch | Some oid \<Rightarrow> SingleEpochOwned epoch oid)"

fun base_epoch :: "storage_flags \<Rightarrow> u16" where
  "base_epoch (SingleEpoch b) = b"
| "base_epoch (MultiEpoch b _) = b"
| "base_epoch (SingleEpochOwned b _) = b"
| "base_epoch (MultiEpochOwned b _ _) = b"

fun owner_id :: "storage_flags \<Rightarrow> id32 option" where
  "owner_id (SingleEpochOwned _ id') = Some id'"
| "owner_id (MultiEpochOwned _ _ id') = Some id'"
| "owner_id _ = None"

fun epoch_index_map :: "storage_flags \<Rightarrow> epoch_map option" where
  "epoch_index_map (MultiEpoch _ m) = Some m"
| "epoch_index_map (MultiEpochOwned _ m _) = Some m"
| "epoch_index_map _ = None"

fun type_byte :: "storage_flags \<Rightarrow> u8" where
  "type_byte (SingleEpoch _) = 0"
| "type_byte (MultiEpoch _ _) = 1"
| "type_byte (SingleEpochOwned _ _) = 2"
| "type_byte (MultiEpochOwned _ _ _) = 3"

definition optional_default :: "storage_flags option" where
  "optional_default = None"

section \<open>Combining\<close>

definition different_owners :: "string \<Rightarrow> error" where
  "different_owners s = StorageFlagsErr (MergingStorageFlagsFromDifferentOwners s)"

definition combine_owner_id :: "storage_flags \<Rightarrow> storage_flags \<Rightarrow> error + id32 option" where
  "combine_owner_id self rhs =
     (case owner_id self of
        Some our_owner_id \<Rightarrow>
          (case owner_id rhs of
             Some other_owner_id \<Rightarrow>
               if our_owner_id \<noteq> other_owner_id
               then Inl (different_owners ''can not merge from different owners'')
               else Inr (Some our_owner_id)
           | None \<Rightarrow> Inr (Some our_owner_id))
      | None \<Rightarrow> Inr (owner_id rhs))"

text \<open>\<open>remove\<close> followed by \<open>insert\<close> of the old value plus the new one.\<close>

definition add_bytes :: "u16 \<Rightarrow> u32 \<Rightarrow> epoch_map \<Rightarrow> epoch_map" where
  "add_bytes epoch_index bytes_added m =
     (case bt_get epoch_index m of
        None \<Rightarrow> bt_insert epoch_index bytes_added (bt_remove epoch_index m)
      | Some original_bytes \<Rightarrow> bt_insert epoch_index (original_bytes + bytes_added) (bt_remove epoch_index m))"

definition combine_non_base_epoch_bytes :: "storage_flags \<Rightarrow> storage_flags \<Rightarrow> epoch_map option" where
  "combine_non_base_epoch_bytes self rhs =
     (case epoch_index_map self of
        Some ours \<Rightarrow>
          (case epoch_index_map rhs of
             Some theirs \<Rightarrow> Some (foldl (\<lambda>m e. add_bytes (fst e) (snd e) m) ours theirs)
           | None \<Rightarrow> Some ours)
      | None \<Rightarrow> epoch_index_map rhs)"

definition combine_same_base_epoch :: "storage_flags \<Rightarrow> storage_flags \<Rightarrow> error + storage_flags" where
  "combine_same_base_epoch self rhs =
     rbind (combine_owner_id self rhs) (\<lambda>owner.
       Inr (case (owner, combine_non_base_epoch_bytes self rhs) of
              (None, None) \<Rightarrow> SingleEpoch (base_epoch self)
            | (Some oid, None) \<Rightarrow> SingleEpochOwned (base_epoch self) oid
            | (None, Some other_epoch_bytes) \<Rightarrow> MultiEpoch (base_epoch self) other_epoch_bytes
            | (Some oid, Some other_epoch_bytes) \<Rightarrow>
                MultiEpochOwned (base_epoch self) other_epoch_bytes oid))"

definition unwrap_or_default :: "epoch_map option \<Rightarrow> epoch_map" where
  "unwrap_or_default x = (case x of None \<Rightarrow> [] | Some m \<Rightarrow> m)"

definition multi_epoch :: "u16 \<Rightarrow> epoch_map \<Rightarrow> id32 option \<Rightarrow> storage_flags" where
  "multi_epoch base m owner =
     (case owner of None \<Rightarrow> MultiEpoch base m | Some oid \<Rightarrow> MultiEpochOwned base m oid)"

definition combine_with_higher_base_epoch ::
    "storage_flags \<Rightarrow> storage_flags \<Rightarrow> u32 \<Rightarrow> error + storage_flags" where
  "combine_with_higher_base_epoch self rhs bytes_added =
     rbind (combine_owner_id self rhs) (\<lambda>owner.
       let other_epoch_bytes = unwrap_or_default (combine_non_base_epoch_bytes self rhs)
       in Inr (multi_epoch (base_epoch self) (add_bytes (base_epoch rhs) bytes_added other_epoch_bytes) owner))"

definition remove_epoch_bytes :: "epoch_map \<Rightarrow> u64 \<times> u32 \<Rightarrow> error + epoch_map" where
  "remove_epoch_bytes m e =
     (case e of (epoch, removed) \<Rightarrow>
        rbind (ok_or (StorageFlagsErr (RemovingAtEpochWithNoAssociatedStorage
                  ''can not remove bytes when there is no epoch'')) (bt_get (ucast epoch) m)) (\<lambda>bytes_added_in_epoch.
        rbind (ok_or (StorageFlagsErr (StorageFlagsOverflow
                  ''can't remove more bytes than exist at that epoch''))
                (checked_sub bytes_added_in_epoch removed)) (\<lambda>left.
          Inr (bt_insert (ucast epoch) left m))))"

definition combine_with_higher_base_epoch_remove_bytes ::
    "storage_flags \<Rightarrow> storage_flags \<Rightarrow> storage_removed_bytes \<Rightarrow> error + storage_flags" where
  "combine_with_higher_base_epoch_remove_bytes self rhs removed =
     rbind (combine_owner_id self rhs) (\<lambda>owner.
       let other_epoch_bytes = unwrap_or_default (combine_non_base_epoch_bytes self rhs)
       in rbind
            (case removed of
               SectionedStorageRemoval by_identifier \<Rightarrow>
                 if length by_identifier > 1
                 then Inl (different_owners ''can not remove bytes when there is no epoch'')
                 else rbind (ok_or (different_owners ''can not remove bytes when there is no epoch'')
                        (bt_get (case owner of Some i \<Rightarrow> i | None \<Rightarrow> replicate 32 0) by_identifier))
                        (\<lambda>sectioned. foldM remove_epoch_bytes other_epoch_bytes sectioned)
             | _ \<Rightarrow> Inr other_epoch_bytes)
            (\<lambda>m. Inr (multi_epoch (base_epoch self) m owner)))"

definition older_base_epoch :: error where
  "older_base_epoch = StorageFlagsErr (MergingStorageFlagsWithDifferentBaseEpoch
     ''can not merge with new item in older base epoch'')"

definition combine_added_bytes :: "storage_flags \<Rightarrow> storage_flags \<Rightarrow> u32 \<Rightarrow> error + storage_flags" where
  "combine_added_bytes self rhs bytes_added =
     (if base_epoch self = base_epoch rhs then combine_same_base_epoch self rhs
      else if base_epoch self < base_epoch rhs then combine_with_higher_base_epoch self rhs bytes_added
      else Inl older_base_epoch)"

definition combine_removed_bytes ::
    "storage_flags \<Rightarrow> storage_flags \<Rightarrow> storage_removed_bytes \<Rightarrow> error + storage_flags" where
  "combine_removed_bytes self rhs removed =
     (if base_epoch self = base_epoch rhs then combine_same_base_epoch self rhs
      else if base_epoch self < base_epoch rhs then combine_with_higher_base_epoch_remove_bytes self rhs removed
      else Inl older_base_epoch)"

definition optional_combine_added_bytes ::
    "storage_flags option \<Rightarrow> storage_flags \<Rightarrow> u32 \<Rightarrow> error + storage_flags" where
  "optional_combine_added_bytes ours theirs bytes_added =
     (case ours of None \<Rightarrow> Inr theirs | Some ours \<Rightarrow> combine_added_bytes ours theirs bytes_added)"

definition optional_combine_removed_bytes ::
    "storage_flags option \<Rightarrow> storage_flags \<Rightarrow> storage_removed_bytes \<Rightarrow> error + storage_flags" where
  "optional_combine_removed_bytes ours theirs removed =
     (case ours of None \<Rightarrow> Inr theirs | Some ours \<Rightarrow> combine_removed_bytes ours theirs removed)"

section \<open>Serialization\<close>

definition append_to_vec_base_epoch :: "storage_flags \<Rightarrow> bytes \<Rightarrow> bytes" where
  "append_to_vec_base_epoch self buffer = buffer @ u16_to_be (base_epoch self)"

definition epoch_entry :: "varint_ops \<Rightarrow> u16 \<times> u32 \<Rightarrow> bytes" where
  "epoch_entry V e = u16_to_be (fst e) @ vi_encode V (snd e)"

fun maybe_append_to_vec_epoch_map :: "varint_ops \<Rightarrow> storage_flags \<Rightarrow> bytes \<Rightarrow> bytes" where
  "maybe_append_to_vec_epoch_map V (MultiEpoch _ m) buffer = buffer @ concat (map (epoch_entry V) m)"
| "maybe_append_to_vec_epoch_map V (MultiEpochOwned _ m _) buffer = buffer @ concat (map (epoch_entry V) m)"
| "maybe_append_to_vec_epoch_map V _ buffer = buffer"

fun maybe_append_to_vec_owner_id :: "storage_flags \<Rightarrow> bytes \<Rightarrow> bytes" where
  "maybe_append_to_vec_owner_id (SingleEpochOwned _ oid) buffer = buffer @ oid"
| "maybe_append_to_vec_owner_id (MultiEpochOwned _ _ oid) buffer = buffer @ oid"
| "maybe_append_to_vec_owner_id _ buffer = buffer"

definition serialize :: "varint_ops \<Rightarrow> storage_flags \<Rightarrow> bytes" where
  "serialize V self =
     maybe_append_to_vec_epoch_map V self
       (append_to_vec_base_epoch self (maybe_append_to_vec_owner_id self [type_byte self]))"

definition slice :: "bytes \<Rightarrow> nat \<Rightarrow> nat \<Rightarrow> bytes" where
  "slice data a b = take (b - a) (drop a data)"

definition wrong_size :: "string \<Rightarrow> error" where
  "wrong_size s = StorageFlagsErr (StorageFlagsWrongSize s)"

definition deserialize_single_epoch :: "bytes \<Rightarrow> error + storage_flags" where
  "deserialize_single_epoch data =
     (if length data \<noteq> 3 then Inl (wrong_size ''single epoch must be 3 bytes total'')
      else rbind (ok_or (wrong_size ''single epoch must be 3 bytes total'') (u16_from_be (slice data 1 3)))
             (\<lambda>epoch. Inr (SingleEpoch epoch)))"

text \<open>The loop over the entries that follow the base epoch.\<close>

function deserialize_epoch_map ::
    "varint_ops \<Rightarrow> bytes \<Rightarrow> nat \<Rightarrow> epoch_map \<Rightarrow> error + epoch_map" where
  "deserialize_epoch_map V data offset bytes_per_epoch =
     (if offset + 2 < length data
      then rbind (ok_or (wrong_size ''multi epoch must have enough bytes epoch indexes'')
                    (u16_from_be (slice data offset (offset + 2)))) (\<lambda>epoch_index.
           rbind (ok_or (wrong_size ''multi epoch must have enough bytes for the amount of bytes used'')
                    (vi_decode V (drop (offset + 2) data))) (\<lambda>(bytes_at_epoch, bytes_used).
             deserialize_epoch_map V data (offset + 2 + bytes_used)
               (bt_insert epoch_index bytes_at_epoch bytes_per_epoch)))
      else Inr bytes_per_epoch)"
  by pat_completeness auto

termination by (relation "measure (\<lambda>(V, data, offset, m). length data - offset)") auto

declare deserialize_epoch_map.simps [simp del]

definition deserialize_multi_epoch :: "varint_ops \<Rightarrow> bytes \<Rightarrow> error + storage_flags" where
  "deserialize_multi_epoch V data =
     (if length data < 6 then Inl (wrong_size ''multi epoch must be at least 6 bytes total'')
      else rbind (ok_or (wrong_size ''multi epoch must have enough bytes for the base epoch'')
                    (u16_from_be (slice data 1 3))) (\<lambda>base.
           rbind (deserialize_epoch_map V data 3 []) (\<lambda>m. Inr (MultiEpoch base m))))"

definition deserialize_single_epoch_owned :: "bytes \<Rightarrow> error + storage_flags" where
  "deserialize_single_epoch_owned data =
     (if length data \<noteq> 35 then Inl (wrong_size ''single epoch owned must be 35 bytes total'')
      else rbind (ok_or (wrong_size ''single epoch owned must be 35 bytes total for epoch'')
                    (u16_from_be (slice data 33 35)))
             (\<lambda>epoch. Inr (SingleEpochOwned epoch (slice data 1 33))))"

definition deserialize_multi_epoch_owned :: "varint_ops \<Rightarrow> bytes \<Rightarrow> error + storage_flags" where
  "deserialize_multi_epoch_owned V data =
     (if length data < 38 then Inl (wrong_size ''multi epoch owned must be at least 38 bytes total'')
      else rbind (ok_or (wrong_size ''multi epoch must have enough bytes for the base epoch'')
                    (u16_from_be (slice data 33 35))) (\<lambda>base.
           rbind (deserialize_epoch_map V data 3 []) (\<lambda>m. Inr (MultiEpochOwned base m (slice data 1 33)))))"

definition deserialize :: "varint_ops \<Rightarrow> bytes \<Rightarrow> error + storage_flags option" where
  "deserialize V data =
     (case data of
        [] \<Rightarrow> Inr None
      | first_byte # _ \<Rightarrow>
          if first_byte = 0 then rmap Some (deserialize_single_epoch data)
          else if first_byte = 1 then rmap Some (deserialize_multi_epoch V data)
          else if first_byte = 2 then rmap Some (deserialize_single_epoch_owned data)
          else if first_byte = 3 then rmap Some (deserialize_multi_epoch_owned V data)
          else Inl (StorageFlagsErr (DeserializeUnknownStorageFlagsType ''unknown storage flags serialization'')))"

definition from_slice :: "varint_ops \<Rightarrow> bytes \<Rightarrow> error + storage_flags option" where
  "from_slice V data = deserialize V data"

definition from_element_flags_ref :: "varint_ops \<Rightarrow> element_flags \<Rightarrow> error + storage_flags option" where
  "from_element_flags_ref V data = from_slice V data"

definition from_some_element_flags_ref ::
    "varint_ops \<Rightarrow> element_flags option \<Rightarrow> error + storage_flags option" where
  "from_some_element_flags_ref V data =
     (case data of None \<Rightarrow> Inr None | Some data \<Rightarrow> from_slice V data)"

definition map_owned_to_element_flags :: "varint_ops \<Rightarrow> storage_flags option \<Rightarrow> element_flags" where
  "map_owned_to_element_flags V maybe_storage_flags =
     (case maybe_storage_flags of None \<Rightarrow> [] | Some f \<Rightarrow> serialize V f)"

definition map_to_some_element_flags :: "varint_ops \<Rightarrow> storage_flags option \<Rightarrow> element_flags option" where
  "map_to_some_element_flags V maybe_storage_flags = map_option (serialize V) maybe_storage_flags"

definition to_some_element_flags :: "varint_ops \<Rightarrow> storage_flags \<Rightarrow> element_flags option" where
  "to_some_element_flags V self = Some (serialize V self)"

definition to_element_flags :: "varint_ops \<Rightarrow> storage_flags \<Rightarrow> element_flags" where
  "to_element_flags V self = serialize V self"

section \<open>Splitting removed bytes\<close>

definition removal_of :: "id32 option \<Rightarrow> int_map \<Rightarrow> storage_removed_bytes" where
  "removal_of owner sections =
     SectionedStorageRemoval
       (bt_insert (case owner of Some oid \<Rightarrow> oid | None \<Rightarrow> replicate 32 0) sections [])"

definition single_storage_removal ::
    "int_map_insert \<Rightarrow> u32 \<Rightarrow> u16 \<Rightarrow> id32 option \<Rightarrow> storage_removed_bytes" where
  "single_storage_removal ins removed base owner =
     removal_of owner (if removed > 0 then ins (ucast base) removed [] else [])"

text \<open>
  \<open>rev_iter.next_back()\<close> takes from the end of the reversed iterator, so the epochs come in
  ascending order.
\<close>

fun take_from_epochs ::
    "int_map_insert \<Rightarrow> u32 \<Rightarrow> epoch_map \<Rightarrow> int_map \<Rightarrow> u32 \<times> int_map" where
  "take_from_epochs ins bytes_left [] sections = (bytes_left, sections)"
| "take_from_epochs ins bytes_left ((epoch_index, bytes_in_epoch) # es) sections =
     (if bytes_left > 0
      then if bytes_in_epoch < bytes_left
           then take_from_epochs ins (bytes_left - bytes_in_epoch) es
                  (ins (ucast epoch_index) bytes_in_epoch sections)
           else take_from_epochs ins 0 es (ins (ucast epoch_index) 0 sections)
      else (bytes_left, sections))"

definition sectioned_storage_removal ::
    "int_map_insert \<Rightarrow> u32 \<Rightarrow> u16 \<Rightarrow> epoch_map \<Rightarrow> id32 option \<Rightarrow> storage_removed_bytes" where
  "sectioned_storage_removal ins removed base other_epoch_bytes owner =
     (case take_from_epochs ins removed other_epoch_bytes [] of
        (bytes_left, sections) \<Rightarrow>
          removal_of owner (if bytes_left > 0 then ins (ucast base) bytes_left sections else sections))"

fun split_storage_removed_bytes :: "int_map_insert \<Rightarrow> storage_flags \<Rightarrow> u32 \<Rightarrow> u32 \<Rightarrow>
    grove_error + (storage_removed_bytes \<times> storage_removed_bytes)" where
  "split_storage_removed_bytes ins (SingleEpoch b) k v =
     Inr (single_storage_removal ins k b None, single_storage_removal ins v b None)"
| "split_storage_removed_bytes ins (SingleEpochOwned b oid) k v =
     Inr (single_storage_removal ins k b (Some oid), single_storage_removal ins v b (Some oid))"
| "split_storage_removed_bytes ins (MultiEpoch b m) k v =
     Inr (sectioned_storage_removal ins k b m None, sectioned_storage_removal ins v b m None)"
| "split_storage_removed_bytes ins (MultiEpochOwned b m oid) k v =
     Inr (sectioned_storage_removal ins k b m (Some oid), sectioned_storage_removal ins v b m (Some oid))"

section \<open>Round trips\<close>

text \<open>Flags the code builds: identifiers of 32 bytes, ordered maps.\<close>

definition flags_wf :: "storage_flags \<Rightarrow> bool" where
  "flags_wf f \<longleftrightarrow>
     (case owner_id f of None \<Rightarrow> True | Some oid \<Rightarrow> length oid = 32) \<and>
     (case epoch_index_map f of None \<Rightarrow> True | Some m \<Rightarrow> bt_wf m)"

context varint_contract
begin

lemma deserialize_entries:
  "deserialize_epoch_map V (pre @ concat (map (epoch_entry V) es)) (length pre) acc =
     Inr (foldl (\<lambda>m e. bt_insert (fst e) (snd e) m) acc es)"
proof (induction es arbitrary: pre acc)
  case Nil
  then show ?case by (simp add: deserialize_epoch_map.simps)
next
  case (Cons e es)
  let ?rest = "concat (map (epoch_entry V) es)" and ?v = "vi_encode V (snd e)"
  let ?data = "pre @ u16_to_be (fst e) @ ?v @ ?rest"
  have v: "0 < length ?v" using encode_nonempty by simp
  have "slice ?data (length pre) (length pre + 2) = u16_to_be (fst e)"
    by (simp add: slice_def)
  moreover have "vi_decode V (drop (length pre + 2) ?data) = Some (snd e, length ?v)"
    by (simp add: decode_encode)
  ultimately have "deserialize_epoch_map V ?data (length pre) acc =
      deserialize_epoch_map V ?data (length pre + 2 + length ?v) (bt_insert (fst e) (snd e) acc)"
    using v by (subst deserialize_epoch_map.simps) simp
  also have "\<dots> = deserialize_epoch_map V ((pre @ u16_to_be (fst e) @ ?v) @ ?rest)
      (length (pre @ u16_to_be (fst e) @ ?v)) (bt_insert (fst e) (snd e) acc)"
    by (simp add: add.assoc)
  also have "\<dots> = Inr (foldl (\<lambda>m e. bt_insert (fst e) (snd e) m) acc (e # es))"
    unfolding Cons.IH by simp
  finally show ?case by (simp add: epoch_entry_def[of V e])
qed

lemma deserialize_serialize:
  assumes wf: "flags_wf f" and ne: "epoch_index_map f \<noteq> Some []" and "type_byte f \<noteq> 3"
  shows "deserialize V (serialize V f) = Inr (Some f)"
proof (cases f)
  case (SingleEpoch b)
  then show ?thesis
    by (simp add: serialize_def append_to_vec_base_epoch_def deserialize_def deserialize_single_epoch_def slice_def)
next
  case (SingleEpochOwned b oid)
  with wf have "length oid = 32" by (simp add: flags_wf_def)
  with SingleEpochOwned show ?thesis
    by (simp add: serialize_def append_to_vec_base_epoch_def deserialize_def deserialize_single_epoch_owned_def slice_def)
next
  case (MultiEpoch b m)
  then obtain e es where m: "m = e # es" using ne by (cases m) auto
  have wfm: "bt_wf m" using wf MultiEpoch by (simp add: flags_wf_def)
  have "vi_encode V (snd e) \<noteq> []" by (rule encode_nonempty)
  then have "length (epoch_entry V e) \<ge> 3" by (cases "vi_encode V (snd e)") (auto simp: epoch_entry_def)
  then have len: "length (1 # u16_to_be b @ concat (map (epoch_entry V) m)) \<ge> 6" by (simp add: m)
  have "deserialize_epoch_map V ((1 # u16_to_be b) @ concat (map (epoch_entry V) m)) (length (1 # u16_to_be b)) []
      = Inr m"
    using deserialize_entries[of "1 # u16_to_be b" m "[]"] foldl_bt_insert_append[of "[]" m] wfm by simp
  then show ?thesis using MultiEpoch len
    by (simp add: serialize_def append_to_vec_base_epoch_def deserialize_def deserialize_multi_epoch_def slice_def)
qed (use assms in simp)

end



text \<open>
  The reader of owned flags over several epochs starts its loop at offset 3, inside the owner
  identifier, and not behind the base epoch at 35: the first entry it inserts is made of owner bytes.
\<close>

lemma deserialize_epoch_map_keys:
  "deserialize_epoch_map V data offset acc = Inr m \<Longrightarrow>
     fst ` set acc \<subseteq> fst ` set m \<and>
     (offset + 2 < length data \<longrightarrow> (\<forall>w. u16_from_be (slice data offset (offset + 2)) = Some w \<longrightarrow> w \<in> fst ` set m))"
proof (induction V data offset acc rule: deserialize_epoch_map.induct)
  case (1 V data offset acc)
  show ?case
  proof (cases "offset + 2 < length data")
    case False
    with 1(2) show ?thesis by (simp add: deserialize_epoch_map.simps)
  next
    case True
    from 1(2) True obtain w n used where w: "u16_from_be (slice data offset (offset + 2)) = Some w"
      and n: "vi_decode V (drop (offset + 2) data) = Some (n, used)"
      and m: "deserialize_epoch_map V data (offset + 2 + used) (bt_insert w n acc) = Inr m"
      by (subst (asm) deserialize_epoch_map.simps) (auto simp: rbind_eq_Inr ok_or_eq_Inr)
    have "fst ` set (bt_insert w n acc) \<subseteq> fst ` set m"
      using 1(1)[OF True _ _ refl m] w n by simp
    then show ?thesis using w by (simp add: rs_btree)
  qed
qed

lemma bt_get_keys: "bt_get k m = None \<longleftrightarrow> k \<notin> fst ` set m"
  by (simp add: bt_get_def map_of_eq_None_iff)

text \<open>Owned storage flags over several epochs are never read back from their serialization
  unless the third and fourth byte of the owner identifier happen to spell one of their epochs: the
  reader takes owner bytes for an entry of the map.\<close>

theorem multi_epoch_owned_not_read_back:
  assumes "length oid = 32" and "u16_from_be (slice oid 2 4) = Some w" and "bt_get w m = None"
  shows "deserialize V (serialize V (MultiEpochOwned b m oid)) \<noteq> Inr (Some (MultiEpochOwned b m oid))"
proof
  let ?data = "serialize V (MultiEpochOwned b m oid)"
  assume "deserialize V ?data = Inr (Some (MultiEpochOwned b m oid))"
  moreover have data: "?data = 3 # oid @ u16_to_be b @ concat (map (epoch_entry V) m)"
    by (simp add: serialize_def append_to_vec_base_epoch_def)
  ultimately have "deserialize_multi_epoch_owned V ?data = Inr (MultiEpochOwned b m oid)"
    by (simp add: deserialize_def rs_result)
  then have read: "deserialize_epoch_map V ?data 3 [] = Inr m"
    by (auto simp: deserialize_multi_epoch_owned_def rs_result split: if_splits)
  have "slice ?data 3 (3 + 2) = slice oid 2 4"
    using assms(1) by (simp add: data slice_def drop_Cons')
  moreover have "3 + 2 < length ?data" using assms(1) by (simp add: data)
  ultimately have "w \<in> fst ` set m"
    using deserialize_epoch_map_keys[OF read] assms(2) by metis
  with assms(3) show False by (simp add: bt_get_keys)
qed

theorem multi_epoch_owned_not_read_back_witness:
  "deserialize reference_varint (serialize reference_varint (MultiEpochOwned 2 [(3, 300)] (replicate 32 1))) \<noteq>
     Inr (Some (MultiEpochOwned 2 [(3, 300)] (replicate 32 1)))"
proof (rule multi_epoch_owned_not_read_back)
  show "u16_from_be (slice (replicate 32 1) 2 4) = Some 257" by code_simp
qed (simp_all add: bt_get_def)

section \<open>Accounting of combined flags\<close>

definition bytes_at :: "epoch_map \<Rightarrow> u16 \<Rightarrow> u32" where
  "bytes_at m e = (case bt_get e m of None \<Rightarrow> 0 | Some n \<Rightarrow> n)"

definition flags_bytes :: "storage_flags \<Rightarrow> u16 \<Rightarrow> u32" where
  "flags_bytes f e = (case epoch_index_map f of None \<Rightarrow> 0 | Some m \<Rightarrow> bytes_at m e)"

lemma bytes_at_add_bytes [rs_btree]:
  "bytes_at (add_bytes e n m) k = bytes_at m k + (if k = e then n else 0)"
  by (auto simp: bytes_at_def add_bytes_def rs_btree split: option.splits)

lemma bt_wf_add_bytes [rs_btree]: "bt_wf m \<Longrightarrow> bt_wf (add_bytes e n m)"
  by (auto simp: add_bytes_def rs_btree split: option.splits)

lemma bytes_at_Nil [simp]: "bytes_at [] e = 0"
  by (simp add: bytes_at_def)

lemma foldl_add_bytes:
  "bt_wf es \<Longrightarrow> bytes_at (foldl (\<lambda>m e. add_bytes (fst e) (snd e) m) m es) k = bytes_at m k + bytes_at es k"
proof (induction es arbitrary: m)
  case Nil
  then show ?case by simp
next
  case (Cons e es)
  have "bt_get (fst e) es = None" using Cons.prems by (auto simp: bt_get_keys)
  then have "bytes_at (e # es) k = (if k = fst e then snd e else 0) + bytes_at es k"
    by (cases e) (auto simp: bytes_at_def bt_get_def)
  with Cons show ?case by (simp add: rs_btree)
qed

lemma bt_wf_foldl_add_bytes: "bt_wf m \<Longrightarrow> bt_wf (foldl (\<lambda>m e. add_bytes (fst e) (snd e) m) m es)"
  by (induction es arbitrary: m) (simp_all add: rs_btree)

lemma combined_bytes:
  assumes "flags_wf a" "flags_wf b"
  shows "bytes_at (unwrap_or_default (combine_non_base_epoch_bytes a b)) e = flags_bytes a e + flags_bytes b e"
    and "bt_wf (unwrap_or_default (combine_non_base_epoch_bytes a b))"
  using assms
  by (auto simp: combine_non_base_epoch_bytes_def unwrap_or_default_def flags_bytes_def flags_wf_def
      foldl_add_bytes bt_wf_foldl_add_bytes split: option.splits)

definition owners_agree :: "storage_flags \<Rightarrow> storage_flags \<Rightarrow> bool" where
  "owners_agree a b \<longleftrightarrow> owner_id a = None \<or> owner_id b = None \<or> owner_id a = owner_id b"

definition merged_owner :: "storage_flags \<Rightarrow> storage_flags \<Rightarrow> id32 option" where
  "merged_owner a b = (if owner_id a = None then owner_id b else owner_id a)"

lemma combine_owner_id_eq:
  "combine_owner_id a b =
     (if owners_agree a b then Inr (merged_owner a b)
      else Inl (different_owners ''can not merge from different owners''))"
  by (auto simp: combine_owner_id_def owners_agree_def merged_owner_def split: option.splits)

lemma owner_wf: "flags_wf a \<Longrightarrow> flags_wf b \<Longrightarrow> merged_owner a b = Some oid \<Longrightarrow> length oid = 32"
  by (auto simp: merged_owner_def flags_wf_def split: if_splits option.splits)

lemma multi_epoch_facts [simp]:
  "base_epoch (multi_epoch b m w) = b" "owner_id (multi_epoch b m w) = w"
  "epoch_index_map (multi_epoch b m w) = Some m"
  by (simp_all add: multi_epoch_def split: option.splits)

lemma multi_epoch_wf:
  "bt_wf m \<Longrightarrow> flags_wf a \<Longrightarrow> flags_wf b \<Longrightarrow> flags_wf (multi_epoch base m (merged_owner a b))"
  by (auto simp: flags_wf_def[of "multi_epoch base m (merged_owner a b)"] owner_wf split: option.splits)

lemma combine_same_base_epoch_spec:
  assumes wf: "flags_wf a" "flags_wf b" and agree: "owners_agree a b"
  shows "\<exists>c. combine_same_base_epoch a b = Inr c \<and> flags_wf c \<and> base_epoch c = base_epoch a \<and>
    owner_id c = merged_owner a b \<and> (\<forall>e. flags_bytes c e = flags_bytes a e + flags_bytes b e)"
proof -
  note comb = combined_bytes[OF wf] and own = owner_wf[OF wf]
  show ?thesis
  proof (cases "combine_non_base_epoch_bytes a b")
    case None
    with comb(1) have "\<And>e. flags_bytes a e + flags_bytes b e = 0" by (simp add: unwrap_or_default_def)
    with None agree own show ?thesis
      by (cases "merged_owner a b")
        (auto simp: combine_same_base_epoch_def combine_owner_id_eq flags_wf_def flags_bytes_def)
  next
    case (Some m)
    with comb have "\<And>e. bytes_at m e = flags_bytes a e + flags_bytes b e" "bt_wf m"
      by (simp_all add: unwrap_or_default_def)
    with Some agree own show ?thesis
      by (cases "merged_owner a b")
        (auto simp: combine_same_base_epoch_def combine_owner_id_eq flags_wf_def flags_bytes_def)
  qed
qed

lemma combine_with_higher_base_epoch_spec:
  assumes wf: "flags_wf a" "flags_wf b" and agree: "owners_agree a b"
  shows "\<exists>c. combine_with_higher_base_epoch a b n = Inr c \<and> flags_wf c \<and> base_epoch c = base_epoch a \<and>
    owner_id c = merged_owner a b \<and>
    (\<forall>e. flags_bytes c e = flags_bytes a e + flags_bytes b e + (if e = base_epoch b then n else 0))"
  using agree multi_epoch_wf[OF _ wf] combined_bytes[OF wf]
  by (simp add: combine_with_higher_base_epoch_def combine_owner_id_eq Let_def flags_bytes_def[of "multi_epoch _ _ _"] rs_btree)

text \<open>C25: combining flags of an updated element with newly added bytes succeeds exactly when the new
  flags are not of an older epoch and the owners agree; the result is well formed, keeps the base
  epoch and the known owner, and adds up the bytes of every epoch, the added bytes being charged to
  the new base epoch (in 32-bit arithmetic).\<close>

theorem combine_added_bytes_accounts:
  assumes "flags_wf a" "flags_wf b"
  shows "if base_epoch a \<le> base_epoch b \<and> owners_agree a b
    then \<exists>c. combine_added_bytes a b n = Inr c \<and> flags_wf c \<and> base_epoch c = base_epoch a \<and>
           owner_id c = merged_owner a b \<and>
           (\<forall>e. flags_bytes c e = flags_bytes a e + flags_bytes b e +
              (if base_epoch a < base_epoch b \<and> e = base_epoch b then n else 0))
    else \<exists>err. combine_added_bytes a b n = Inl err"
proof (cases "base_epoch a" "base_epoch b" rule: linorder_cases)
  case less
  then show ?thesis using combine_with_higher_base_epoch_spec[OF assms]
    by (auto simp: combine_added_bytes_def combine_with_higher_base_epoch_def combine_owner_id_eq)
next
  case equal
  then show ?thesis using combine_same_base_epoch_spec[OF assms]
    by (auto simp: combine_added_bytes_def combine_same_base_epoch_def combine_owner_id_eq)
next
  case greater
  then show ?thesis by (auto simp: combine_added_bytes_def)
qed

theorem combine_added_bytes_accounts_witness:
  "combine_added_bytes (MultiEpoch 1 [(4, 10)]) (SingleEpochOwned 4 (replicate 32 7)) 5 =
     Inr (MultiEpochOwned 1 [(4, 15)] (replicate 32 7)) \<and>
   (\<exists>c. combine_added_bytes (MultiEpoch 1 [(4, 10)]) (SingleEpochOwned 4 (replicate 32 7)) 5 = Inr c \<and>
      flags_bytes c 4 = 15)"
  using combine_added_bytes_accounts[of "MultiEpoch 1 [(4, 10)]" "SingleEpochOwned 4 (replicate 32 7)" 5]
  by (simp add: flags_wf_def owners_agree_def combine_added_bytes_def combine_with_higher_base_epoch_def
      combine_owner_id_def combine_non_base_epoch_bytes_def unwrap_or_default_def multi_epoch_def
      add_bytes_def bt_get_def bt_remove_def flags_bytes_def bytes_at_def merged_owner_def Let_def)

text \<open>Removed bytes come out of the epochs they are recorded for.\<close>

definition removed_in :: "int_map \<Rightarrow> u16 \<Rightarrow> nat" where
  "removed_in sections e = (\<Sum>(k, n) \<leftarrow> sections. if ucast k = e then unat n else 0)"

lemma foldM_remove_epoch_bytes:
  "foldM remove_epoch_bytes m sections = Inr m' \<Longrightarrow> bt_wf m \<Longrightarrow>
   bt_wf m' \<and> (\<forall>e. unat (bytes_at m' e) + removed_in sections e = unat (bytes_at m e))"
proof (induction sections arbitrary: m)
  case Nil
  then show ?case by (simp add: removed_in_def)
next
  case (Cons s sections)
  obtain k n where s: "s = (k, n)" by (cases s)
  from Cons.prems(1) obtain v left where v: "bt_get (ucast k) m = Some v" "checked_sub v n = Some left"
    and rest: "foldM remove_epoch_bytes (bt_insert (ucast k) left m) sections = Inr m'"
    by (auto simp: s remove_epoch_bytes_def[of m] rbind_eq_Inr ok_or_eq_Inr)
  have step: "unat (bytes_at (bt_insert (ucast k) left m) e) + (if ucast k = e then unat n else 0) =
      unat (bytes_at m e)" for e
    using v by (auto simp: bytes_at_def bt_get_insert rs_checked)
  from Cons.IH[OF rest] Cons.prems(2) have m': "bt_wf m'"
    "\<And>e. unat (bytes_at m' e) + removed_in sections e = unat (bytes_at (bt_insert (ucast k) left m) e)"
    by (simp_all add: rs_btree)
  have "removed_in (s # sections) e = (if ucast k = e then unat n else 0) + removed_in sections e" for e
    by (simp add: removed_in_def s)
  then have "unat (bytes_at m' e) + removed_in (s # sections) e = unat (bytes_at m e)" for e
    using step[of e] m'(2)[of e] by simp
  with m'(1) show ?case by blast
qed



section \<open>Accounting of split removals\<close>

definition removed_total :: "storage_removed_bytes \<Rightarrow> nat" where
  "removed_total r =
     (case r of
        NoStorageRemoval \<Rightarrow> 0
      | BasicStorageRemoval n \<Rightarrow> unat n
      | SectionedStorageRemoval m \<Rightarrow> (\<Sum>(oid, sections) \<leftarrow> m. \<Sum>(k, n) \<leftarrow> sections. unat n))"

definition sections_total :: "int_map \<Rightarrow> nat" where
  "sections_total sections = (\<Sum>(k, n) \<leftarrow> sections. unat n)"

definition map_total :: "epoch_map \<Rightarrow> nat" where
  "map_total m = (\<Sum>(e, n) \<leftarrow> m. unat n)"

lemma removed_total_removal_of [simp]: "removed_total (removal_of w sections) = sections_total sections"
  by (simp add: removal_of_def removed_total_def sections_total_def)

lemma sections_total_set:
  "distinct (map fst m) \<Longrightarrow> sections_total m = (\<Sum>(k, n) \<in> set m. unat n)"
  by (simp add: sections_total_def sum_list_distinct_conv_sum_set distinct_map)

text \<open>What the loop over the epochs accounts for: it stops counting at the epoch that covers the rest.\<close>

fun accounted :: "nat \<Rightarrow> epoch_map \<Rightarrow> nat" where
  "accounted r [] = r"
| "accounted r ((e, n) # es) = (if unat n < r then unat n + accounted (r - unat n) es else 0)"

lemma ucast_u16_u64: "(ucast (y :: u16) :: u64) = ucast z \<longleftrightarrow> y = (z :: u16)"
proof -
  have "unat (ucast w :: u64) = unat w" for w :: u16
    using unat_width(2)[of w] by (simp add: unsigned_ucast_eq take_bit_nat_eq_self)
  then show ?thesis by (metis word_unat_eq_iff)
qed

context int_map_contract
begin

lemma total_insert:
  assumes "k \<notin> fst ` set m" "distinct (map fst m)"
  shows "sections_total (ins k v m) = unat v + sections_total m"
proof -
  have "(k, v) \<notin> set m" using assms(1) by force
  with insert_fresh[OF assms] assms(2) show ?thesis by (simp add: sections_total_set)
qed

lemma take_from_epochs_total:
  assumes "distinct (map fst es)" "distinct (map fst acc)"
    and "(\<lambda>e. ucast (fst e)) ` set es \<inter> fst ` set acc = {}"
    and "base \<notin> fst ` set es" "ucast base \<notin> fst ` set acc"
    and "0 < left" and "take_from_epochs ins left es acc = (left', acc')"
  shows "sections_total (if left' > 0 then ins (ucast base) left' acc' else acc') =
    accounted (unat left) es + sections_total acc"
  using assms
proof (induction es arbitrary: left acc)
  case Nil
  then show ?case using total_insert[of "ucast base" acc left] by auto
next
  case (Cons x es)
  obtain e n where x: "x = (e, n)" by (cases x)
  have fresh: "ucast e \<notin> fst ` set acc" using Cons.prems(3) by (force simp: x)
  note ins' = insert_fresh[OF fresh Cons.prems(2)]
  show ?case
  proof (cases "n < left")
    case True
    have "0 < left - n" using True by (simp add: word_less_nat_alt unat_sub word_le_nat_alt)
    moreover have "distinct (map fst es)" "base \<notin> fst ` set es" using Cons.prems by (simp_all add: x)
    moreover have "distinct (map fst (ins (ucast e) n acc))" using ins' by simp
    moreover have "(\<lambda>e. ucast (fst e)) ` set es \<inter> fst ` set (ins (ucast e) n acc) = {}"
    proof -
      have "(ucast e :: u64) \<notin> (\<lambda>e. ucast (fst e)) ` set es"
        using Cons.prems(1) by (force simp: x ucast_u16_u64)
      moreover have "(\<lambda>e. ucast (fst e)) ` set es \<inter> fst ` set acc = {}" using Cons.prems(3) by auto
      ultimately show ?thesis using ins'[of n] by auto
    qed
    moreover have "ucast base \<notin> fst ` set (ins (ucast e) n acc)"
      using Cons.prems(4,5) ins'[of n] by (simp add: x ucast_u16_u64)
    moreover have "take_from_epochs ins (left - n) es (ins (ucast e) n acc) = (left', acc')"
      using Cons.prems(6,7) True by (simp add: x)
    ultimately have "sections_total (if left' > 0 then ins (ucast base) left' acc' else acc') =
        accounted (unat (left - n)) es + sections_total (ins (ucast e) n acc)"
      by (intro Cons.IH)
    then show ?thesis using True total_insert[OF fresh Cons.prems(2)]
      by (simp add: x word_less_nat_alt unat_sub word_le_nat_alt)
  next
    case False
    then have "left' = 0 \<and> acc' = ins (ucast e) 0 acc"
      using Cons.prems(6,7) by (cases es) (auto simp: x)
    then show ?thesis using False total_insert[OF fresh Cons.prems(2)]
      by (simp add: x word_less_nat_alt)
  qed
qed

lemma single_storage_removal_total: "removed_total (single_storage_removal ins n b w) = unat n"
  using total_insert[of "ucast b" "[]" n]
  by (auto simp: single_storage_removal_def sections_total_def word_gt_0)

lemma sectioned_storage_removal_total:
  assumes "bt_wf m" "b \<notin> fst ` set m"
  shows "removed_total (sectioned_storage_removal ins n b m w) = (if n = 0 then 0 else accounted (unat n) m)"
proof (cases "n = 0")
  case True
  then show ?thesis by (cases m) (auto simp: sectioned_storage_removal_def sections_total_def)
next
  case False
  obtain left' acc' where t: "take_from_epochs ins n m [] = (left', acc')" by (cases "take_from_epochs ins n m []")
  from take_from_epochs_total[OF bt_wf_distinct[OF assms(1)] _ _ assms(2) _ _ t] False show ?thesis
    by (simp add: sectioned_storage_removal_def t sections_total_def word_gt_0)
qed

end

lemma accounted_covered: "map_total m < r \<Longrightarrow> accounted r m = r"
  by (induction r m rule: accounted.induct) (auto simp: map_total_def)

lemma accounted_short: "0 < r \<Longrightarrow> r \<le> map_total m \<Longrightarrow> accounted r m < r"
proof (induction r m rule: accounted.induct)
  case (2 r e n es)
  show ?case
  proof (cases "unat n < r")
    case True
    have "accounted (r - unat n) es < r - unat n"
      using 2 True by (simp add: map_total_def)
    with True show ?thesis by simp
  qed (use 2 in simp)
qed (simp add: map_total_def)

text \<open>Bytes removed from an element of a single epoch are accounted for exactly, the key's and the
  value's separately.\<close>

theorem split_single_epoch_exact:
  assumes "int_map_contract ins" and "epoch_index_map f = None"
  shows "\<exists>k v. split_storage_removed_bytes ins f removed_key removed_value = Inr (k, v) \<and>
    removed_total k = unat removed_key \<and> removed_total v = unat removed_value"
  using assms(2) int_map_contract.single_storage_removal_total[OF assms(1)] by (cases f) simp_all

theorem split_single_epoch_exact_witness:
  "\<exists>k v. split_storage_removed_bytes reference_int_map_insert (SingleEpoch 3) 40 60 = Inr (k, v) \<and>
    removed_total k = unat (40 :: u32) \<and> removed_total v = unat (60 :: u32)"
  by (rule split_single_epoch_exact[OF ref_int_map.int_map_contract_axioms]) simp

text \<open>Of the bytes removed from an element of several epochs, all are accounted for when they reach
  into the base epoch, that is when they exceed what the later epochs hold; otherwise fewer are
  recorded than were removed, since the epoch that covers the rest is recorded with 0 bytes.\<close>

theorem split_multi_epoch_accounted:
  assumes "int_map_contract ins" and "bt_wf m" and "b \<notin> fst ` set m"
  shows "\<exists>k v. split_storage_removed_bytes ins (MultiEpoch b m) removed_key removed_value = Inr (k, v) \<and>
    (map_total m < unat removed_value \<longrightarrow> removed_total v = unat removed_value) \<and>
    (0 < removed_value \<and> unat removed_value \<le> map_total m \<longrightarrow> removed_total v < unat removed_value)"
  using int_map_contract.sectioned_storage_removal_total[OF assms, of removed_value None]
    accounted_covered[of m "unat removed_value"] accounted_short[of "unat removed_value" m]
  by (auto simp: word_gt_0 unat_gt_0)

theorem split_multi_epoch_accounted_witness:
  "\<exists>k v. split_storage_removed_bytes reference_int_map_insert (MultiEpoch 2 [(3, 100), (5, 7)]) 0 30 = Inr (k, v) \<and>
    removed_total v < 30"
  using split_multi_epoch_accounted[OF ref_int_map.int_map_contract_axioms, of "[(3, 100), (5, 7)]" 2 0 30]
  by (simp add: map_total_def)

end
