(* ===== verification/Fees.thy ===== *)
theory Fees
  imports Epochs Flags
begin

text \<open>
  Fees: \<open>drive/src/fee\<close>. Base and Drive operations, their conversion to fees and the checked sums
  that make a fee result. The total of a removal, the addition of operation costs and the integer
  map belong to dependencies and are arguments.
\<close>

section \<open>Operations and their sizes\<close>

datatype base_op =
    OpStop | OpAdd | OpMul | OpSub | OpDiv | OpSdiv | OpMod | OpSmod | OpAddmod | OpMulmod | OpSignextend
  | OpLt | OpGt | OpSlt | OpSgt | OpEq | OpIszero | OpAnd | OpOr | OpXor | OpNot | OpByte

fun base_op_cost :: "base_op \<Rightarrow> u64" where
  "base_op_cost OpStop = 0"
| "base_op_cost OpAdd = 12"
| "base_op_cost OpMul = 20"
| "base_op_cost OpSub = 12"
| "base_op_cost OpDiv = 20"
| "base_op_cost OpSdiv = 20"
| "base_op_cost OpMod = 20"
| "base_op_cost OpSmod = 20"
| "base_op_cost OpAddmod = 32"
| "base_op_cost OpMulmod = 32"
| "base_op_cost OpSignextend = 20"
| "base_op_cost OpLt = 12"
| "base_op_cost OpGt = 12"
| "base_op_cost OpSlt = 12"
| "base_op_cost OpSgt = 12"
| "base_op_cost OpEq = 12"
| "base_op_cost OpIszero = 12"
| "base_op_cost OpAnd = 12"
| "base_op_cost OpOr = 12"
| "base_op_cost OpXor = 12"
| "base_op_cost OpNot = 12"
| "base_op_cost OpByte = 12"

text \<open>An \<open>EnumMap\<close> iterates in the order of the declaration.\<close>

definition base_ops :: "base_op list" where
  "base_ops =
    [OpStop, OpAdd, OpMul, OpSub, OpDiv, OpSdiv, OpMod, OpSmod, OpAddmod, OpMulmod, OpSignextend,
     OpLt, OpGt, OpSlt, OpSgt, OpEq, OpIszero, OpAnd, OpOr, OpXor, OpNot, OpByte]"

datatype function_op = Sha256 | Sha256_2 | Blake3

fun function_op_cost :: "function_op \<Rightarrow> epoch \<Rightarrow> u64" where
  "function_op_cost Sha256 _ = 4000"
| "function_op_cost Sha256_2 _ = 8000"
| "function_op_cost Blake3 _ = 1000"

record sizes_of_query_operation =
  query_key_size :: u32
  query_path_size :: u32
  query_value_size :: u32

record sizes_of_insert_operation =
  insert_path_size :: u32
  insert_key_size :: u16
  insert_value_size :: u32

record sizes_of_delete_operation =
  delete_path_size :: u32
  delete_key_size :: u16
  delete_value_size :: u32
  delete_multiplier :: u8

definition len_u32 :: "'a list \<Rightarrow> u32" where
  "len_u32 xs = word_of_nat (length xs)"

definition for_key_check_in_path :: "u32 \<Rightarrow> path \<Rightarrow> sizes_of_query_operation" where
  "for_key_check_in_path key_len p =
     \<lparr>query_key_size = key_len, query_path_size = sum_list (map len_u32 p), query_value_size = 0\<rparr>"

definition for_key_check_with_path_length :: "u32 \<Rightarrow> u32 \<Rightarrow> sizes_of_query_operation" where
  "for_key_check_with_path_length key_len path_len =
     \<lparr>query_key_size = key_len, query_path_size = path_len, query_value_size = 0\<rparr>"

definition for_value_retrieval_in_path :: "u16 \<Rightarrow> path \<Rightarrow> u32 \<Rightarrow> sizes_of_query_operation" where
  "for_value_retrieval_in_path key_len p value_len =
     \<lparr>query_key_size = ucast key_len, query_path_size = sum_list (map len_u32 p), query_value_size = value_len\<rparr>"

definition for_value_retrieval_with_path_length :: "u64 \<Rightarrow> u64 \<Rightarrow> u64 \<Rightarrow> sizes_of_query_operation" where
  "for_value_retrieval_with_path_length key_len path_len value_len =
     \<lparr>query_key_size = ucast key_len, query_path_size = ucast path_len, query_value_size = ucast value_len\<rparr>"

text \<open>\<open>processing_footprint\<close> of a query item is GroveDB's.\<close>

definition for_path_query :: "(query_item \<Rightarrow> u32) \<Rightarrow> path_query \<Rightarrow> bytes list \<Rightarrow> sizes_of_query_operation" where
  "for_path_query processing_footprint q returned_values =
     \<lparr>query_key_size = sum_list (map processing_footprint (items (pq_query q))),
      query_path_size = len_u32 (pq_path q),
      query_value_size = sum_list (map len_u32 returned_values)\<rparr>"

definition for_empty_path_query :: "(query_item \<Rightarrow> u32) \<Rightarrow> path_query \<Rightarrow> sizes_of_query_operation" where
  "for_empty_path_query processing_footprint q =
     \<lparr>query_key_size = sum_list (map processing_footprint (items (pq_query q))),
      query_path_size = len_u32 (pq_path q), query_value_size = 0\<rparr>"

definition delete_for_empty_tree :: "u32 \<Rightarrow> u16 \<Rightarrow> u8 \<Rightarrow> sizes_of_delete_operation" where
  "delete_for_empty_tree path_size key_size multiplier =
     \<lparr>delete_path_size = path_size, delete_key_size = key_size, delete_value_size = 0,
      delete_multiplier = multiplier\<rparr>"

definition for_key_value_size :: "u32 \<Rightarrow> u16 \<Rightarrow> u32 \<Rightarrow> u8 \<Rightarrow> sizes_of_delete_operation" where
  "for_key_value_size path_size key_size value_size multiplier =
     \<lparr>delete_path_size = path_size, delete_key_size = key_size, delete_value_size = value_size,
      delete_multiplier = multiplier\<rparr>"

text \<open>\<open>encoding_length\<close> of a reference path is GroveDB's.\<close>

definition for_key_value ::
    "(reference_path_type \<Rightarrow> u64) \<Rightarrow> u32 \<Rightarrow> u16 \<Rightarrow> element \<Rightarrow> u8 \<Rightarrow> sizes_of_delete_operation" where
  "for_key_value encoding_length path_size key_size element multiplier =
     for_key_value_size path_size key_size
       (case element of
          Item item _ \<Rightarrow> len_u32 item
        | Reference p _ _ \<Rightarrow> ucast (encoding_length p - 1)
        | Tree _ _ \<Rightarrow> 32) multiplier"

section \<open>Drive operations\<close>

record fee_result =
  storage_fee :: u64
  processing_fee :: u64
  removed_bytes_from_identities :: removal_per_epoch_by_identifier
  removed_bytes_from_system :: u32

definition fee_result_default :: fee_result where
  "fee_result_default = \<lparr>storage_fee = 0, processing_fee = 0, removed_bytes_from_identities = [],
     removed_bytes_from_system = 0\<rparr>"

datatype drive_operation =
    GroveOperation grove_op
  | CalculatedCostOperation operation_cost
  | PreCalculatedFeeResult fee_result
  | CostCalculationInsertOperation sizes_of_insert_operation
  | CostCalculationDeleteOperation sizes_of_delete_operation
  | CostCalculationQueryOperation sizes_of_query_operation

definition sizes_of_insert_cost :: "sizes_of_insert_operation \<Rightarrow> operation_cost" where
  "sizes_of_insert_cost s = no_cost"

definition sizes_of_query_cost :: "sizes_of_query_operation \<Rightarrow> operation_cost" where
  "sizes_of_query_cost s = no_cost"

definition sizes_of_delete_cost :: "sizes_of_delete_operation \<Rightarrow> operation_cost" where
  "sizes_of_delete_cost s = no_cost"

fun operation_cost :: "drive_operation \<Rightarrow> error + operation_cost" where
  "operation_cost (GroveOperation _) = Inl (DriveErr (CorruptedCodeExecution
     ''grove operations must be executed, not directly transformed to costs''))"
| "operation_cost (CostCalculationInsertOperation s) = Inr (sizes_of_insert_cost s)"
| "operation_cost (CostCalculationQueryOperation s) = Inr (sizes_of_query_cost s)"
| "operation_cost (CostCalculationDeleteOperation s) = Inr (sizes_of_delete_cost s)"
| "operation_cost (CalculatedCostOperation c) = Inr c"
| "operation_cost (PreCalculatedFeeResult _) = Inl (DriveErr (CorruptedCodeExecution
     ''pre calculated fees should be requested by operation costs''))"

definition combine_cost_operations ::
    "(operation_cost \<Rightarrow> operation_cost \<Rightarrow> operation_cost) \<Rightarrow> drive_operation list \<Rightarrow> operation_cost" where
  "combine_cost_operations cost_add operations =
     foldl (\<lambda>cost op. case op of CalculatedCostOperation c \<Rightarrow> cost_add cost c | _ \<Rightarrow> cost) no_cost operations"

definition grovedb_operations_batch :: "drive_operation list \<Rightarrow> batch" where
  "grovedb_operations_batch insert_operations =
     List.map_filter (\<lambda>op. case op of GroveOperation o' \<Rightarrow> Some o' | _ \<Rightarrow> None) insert_operations"

definition for_path_key_element :: "path \<Rightarrow> bytes \<Rightarrow> element \<Rightarrow> drive_operation" where
  "for_path_key_element p k e = GroveOperation (insert_run_op p k e)"

definition for_empty_tree :: "varint_ops \<Rightarrow> path \<Rightarrow> bytes \<Rightarrow> storage_flags option \<Rightarrow> drive_operation" where
  "for_empty_tree V p k storage_flags =
     for_path_key_element p k
       (case storage_flags of
          Some f \<Rightarrow> Tree None (to_some_element_flags V f)
        | None \<Rightarrow> empty_tree)"

definition for_insert_path_key_value_size :: "u32 \<Rightarrow> u16 \<Rightarrow> u32 \<Rightarrow> drive_operation" where
  "for_insert_path_key_value_size path_size key_size value_size =
     CostCalculationInsertOperation \<lparr>insert_path_size = path_size, insert_key_size = key_size,
       insert_value_size = value_size\<rparr>"

definition for_delete_path_key_value_max_sizes :: "u16 list \<Rightarrow> u16 \<Rightarrow> u32 \<Rightarrow> u8 \<Rightarrow> drive_operation" where
  "for_delete_path_key_value_max_sizes p key_size value_size multiplier =
     CostCalculationDeleteOperation
       (for_key_value_size (sum_list (map ucast p)) key_size value_size multiplier)"

definition for_delete_path_key_value_size :: "path \<Rightarrow> u16 \<Rightarrow> u32 \<Rightarrow> u8 \<Rightarrow> drive_operation" where
  "for_delete_path_key_value_size p key_size value_size multiplier =
     for_delete_path_key_value_max_sizes (map (\<lambda>x. word_of_nat (length x)) p) key_size value_size multiplier"

definition for_query_path_key_value_size :: "u32 \<Rightarrow> u32 \<Rightarrow> u32 \<Rightarrow> drive_operation" where
  "for_query_path_key_value_size path_size key_size value_size =
     CostCalculationQueryOperation \<lparr>query_key_size = key_size, query_path_size = path_size,
       query_value_size = value_size\<rparr>"

section \<open>Costs to credits\<close>

definition STORAGE_DISK_USAGE_CREDIT_PER_BYTE :: u64 where "STORAGE_DISK_USAGE_CREDIT_PER_BYTE = 27000"
definition STORAGE_PROCESSING_CREDIT_PER_BYTE :: u64 where "STORAGE_PROCESSING_CREDIT_PER_BYTE = 400"
definition STORAGE_LOAD_CREDIT_PER_BYTE :: u64 where "STORAGE_LOAD_CREDIT_PER_BYTE = 400"
definition STORAGE_SEEK_COST :: u64 where "STORAGE_SEEK_COST = 4000"

definition get_overflow_error :: "string \<Rightarrow> error" where
  "get_overflow_error s = Fee (Overflow s)"

definition byte_cost :: "u32 \<Rightarrow> u64 \<Rightarrow> string \<Rightarrow> error + u64" where
  "byte_cost amount price s = ok_or (get_overflow_error s) (checked_mul (ucast amount) price)"

definition and_then :: "'a option \<Rightarrow> ('a \<Rightarrow> 'b option) \<Rightarrow> 'b option" where
  "and_then x f = (case x of None \<Rightarrow> None | Some v \<Rightarrow> f v)"

definition ephemeral_cost ::
    "(storage_removed_bytes \<Rightarrow> u32) \<Rightarrow> operation_cost \<Rightarrow> epoch \<Rightarrow> error + u64" where
  "ephemeral_cost total_removed_bytes self epoch =
     rbind (byte_cost (seek_count self) STORAGE_SEEK_COST ''seek cost overflow'') (\<lambda>seek_cost.
     rbind (byte_cost (added_bytes (storage_cost self)) STORAGE_PROCESSING_CREDIT_PER_BYTE
              ''storage written bytes cost overflow'') (\<lambda>added_cost.
     rbind (byte_cost (replaced_bytes (storage_cost self)) STORAGE_PROCESSING_CREDIT_PER_BYTE
              ''storage written bytes cost overflow'') (\<lambda>replaced_cost.
     rbind (byte_cost (total_removed_bytes (removed_bytes (storage_cost self))) STORAGE_PROCESSING_CREDIT_PER_BYTE
              ''storage written bytes cost overflow'') (\<lambda>removed_cost.
     rbind (byte_cost (storage_loaded_bytes self) STORAGE_LOAD_CREDIT_PER_BYTE
              ''storage loaded cost overflow'') (\<lambda>loaded_cost.
     rbind (byte_cost (hash_node_calls self) (function_op_cost Blake3 epoch) ''hash node cost overflow'') (\<lambda>hash_cost.
       ok_or (get_overflow_error ''ephemeral cost addition overflow'')
         (and_then (and_then (and_then (and_then (checked_add seek_cost added_cost)
           (\<lambda>c. checked_add c replaced_cost)) (\<lambda>c. checked_add c loaded_cost))
           (\<lambda>c. checked_add c removed_cost)) (\<lambda>c. checked_add c hash_cost))))))))"

definition storage_fee_of_cost :: "operation_cost \<Rightarrow> epoch \<Rightarrow> error + u64" where
  "storage_fee_of_cost self epoch =
     byte_cost (added_bytes (storage_cost self)) STORAGE_DISK_USAGE_CREDIT_PER_BYTE
       ''storage written bytes cost overflow''"

text \<open>Removed bytes of the system, under the zero identifier, are not refunded to an identity.\<close>

definition split_removed :: "storage_removed_bytes \<Rightarrow> removal_per_epoch_by_identifier \<times> u32" where
  "split_removed r =
     (case r of
        NoStorageRemoval \<Rightarrow> ([], 0)
      | BasicStorageRemoval amount \<Rightarrow> ([], amount)
      | SectionedStorageRemoval s \<Rightarrow>
          (bt_remove (replicate 32 0) s,
           case bt_get (replicate 32 0) s of None \<Rightarrow> 0 | Some a \<Rightarrow> sum_list (map snd a)))"

definition operation_fee ::
    "(storage_removed_bytes \<Rightarrow> u32) \<Rightarrow> epoch \<Rightarrow> drive_operation \<Rightarrow> error + fee_result" where
  "operation_fee total_removed_bytes epoch operation =
     (case operation of
        PreCalculatedFeeResult f \<Rightarrow> Inr f
      | _ \<Rightarrow>
          rbind (operation_cost operation) (\<lambda>cost.
          rbind (storage_fee_of_cost cost epoch) (\<lambda>s.
          rbind (ephemeral_cost total_removed_bytes cost epoch) (\<lambda>p.
            case split_removed (removed_bytes (storage_cost cost)) of
              (from_identities, from_system) \<Rightarrow>
                Inr \<lparr>storage_fee = s, processing_fee = p,
                     removed_bytes_from_identities = from_identities,
                     removed_bytes_from_system = from_system\<rparr>))))"

definition consume_to_fees ::
    "(storage_removed_bytes \<Rightarrow> u32) \<Rightarrow> drive_operation list \<Rightarrow> epoch \<Rightarrow> error + fee_result list" where
  "consume_to_fees total_removed_bytes operations epoch = mapM (operation_fee total_removed_bytes epoch) operations"

section \<open>Adding fee results\<close>

type_synonym int_map_remove = "u64 \<Rightarrow> int_map \<Rightarrow> u32 option \<times> int_map"

definition combine_entry ::
    "int_map_insert \<Rightarrow> int_map_remove \<Rightarrow> int_map \<times> int_map \<Rightarrow> u64 \<times> u32 \<Rightarrow> error + (int_map \<times> int_map)" where
  "combine_entry ins rem st e =
     (case (st, e) of ((int_map_b, acc), (k, v)) \<Rightarrow>
        (case rem k int_map_b of
           (Some value_b, int_map_b') \<Rightarrow>
             rbind (ok_or (Fee (Overflow ''storage fee overflow error'')) (checked_add v value_b))
               (\<lambda>c. Inr (int_map_b', ins k c acc))
         | (None, int_map_b') \<Rightarrow> Inr (int_map_b', ins k v acc)))"

definition combine_int_maps ::
    "int_map_insert \<Rightarrow> int_map_remove \<Rightarrow> int_map \<Rightarrow> int_map \<Rightarrow> error + int_map" where
  "combine_int_maps ins rem sint_map_a int_map_b =
     rbind (foldM (combine_entry ins rem) (int_map_b, []) sint_map_a) (\<lambda>(int_map_b', intersection).
       Inr (foldl (\<lambda>m e. ins (fst e) (snd e) m) [] (intersection @ int_map_b')))"

definition removed_bytes_add_entry ::
    "int_map_insert \<Rightarrow> int_map_remove \<Rightarrow> removal_per_epoch_by_identifier \<Rightarrow> id32 \<times> int_map \<Rightarrow>
     error + removal_per_epoch_by_identifier" where
  "removed_bytes_add_entry ins rem self e =
     (case e of (ident, int_map_b) \<Rightarrow>
        rbind (case bt_get ident self of
                 Some sint_map_a \<Rightarrow> combine_int_maps ins rem sint_map_a int_map_b
               | None \<Rightarrow> Inr int_map_b)
          (\<lambda>to_insert. Inr (bt_insert ident to_insert (bt_remove ident self))))"

definition removed_bytes_checked_add_assign ::
    "int_map_insert \<Rightarrow> int_map_remove \<Rightarrow> removal_per_epoch_by_identifier \<Rightarrow> removal_per_epoch_by_identifier \<Rightarrow>
     error + removal_per_epoch_by_identifier" where
  "removed_bytes_checked_add_assign ins rem self rhs = foldM (removed_bytes_add_entry ins rem) self rhs"

definition checked_add_assign ::
    "int_map_insert \<Rightarrow> int_map_remove \<Rightarrow> fee_result \<Rightarrow> fee_result \<Rightarrow> error + fee_result" where
  "checked_add_assign ins rem self rhs =
     rbind (ok_or (Fee (Overflow ''storage fee overflow error''))
              (checked_add (storage_fee self) (storage_fee rhs))) (\<lambda>s.
     rbind (ok_or (Fee (Overflow ''processing fee overflow error''))
              (checked_add (processing_fee self) (processing_fee rhs))) (\<lambda>p.
     rbind (removed_bytes_checked_add_assign ins rem (removed_bytes_from_identities self)
              (removed_bytes_from_identities rhs)) (\<lambda>r.
     rbind (ok_or (Fee (Overflow ''removed_bytes_from_system overflow error''))
              (checked_add (removed_bytes_from_system self) (removed_bytes_from_system rhs))) (\<lambda>y.
       Inr \<lparr>storage_fee = s, processing_fee = p, removed_bytes_from_identities = r,
            removed_bytes_from_system = y\<rparr>))))"

definition add_base_op :: "fee_result \<Rightarrow> base_op \<times> u64 \<Rightarrow> error + fee_result" where
  "add_base_op r e =
     (case checked_mul (base_op_cost (fst e)) (snd e) of
        None \<Rightarrow> Inl (Fee (Overflow ''overflow error''))
      | Some cost \<Rightarrow>
          (case checked_add (processing_fee r) cost of
             None \<Rightarrow> Inl (Fee (Overflow ''overflow error''))
           | Some v \<Rightarrow> Inr (r\<lparr>processing_fee := v\<rparr>)))"

definition calculate_fee ::
    "int_map_insert \<Rightarrow> int_map_remove \<Rightarrow> (storage_removed_bytes \<Rightarrow> u32) \<Rightarrow>
     (base_op \<Rightarrow> u64) option \<Rightarrow> drive_operation list option \<Rightarrow> epoch \<Rightarrow> error + fee_result" where
  "calculate_fee ins rem total_removed_bytes base_operations drive_operations epoch =
     rbind (case base_operations of
              None \<Rightarrow> Inr fee_result_default
            | Some counts \<Rightarrow> foldM add_base_op fee_result_default (map (\<lambda>op. (op, counts op)) base_ops))
       (\<lambda>aggregate.
          case drive_operations of
            None \<Rightarrow> Inr aggregate
          | Some ops \<Rightarrow>
              rbind (consume_to_fees total_removed_bytes ops epoch)
                (\<lambda>fees. foldM (checked_add_assign ins rem) aggregate fees))"

section \<open>Costs never overflow\<close>

lemma unat_ucast_u64 [simp]: "unat (ucast (w :: u32) :: u64) = unat w"
  using unat_width(3)[of w] by (simp add: unsigned_ucast_eq take_bit_nat_eq_self)

lemma byte_cost_ok:
  assumes "unat price \<le> 27000"
  shows "byte_cost a price s = Inr (ucast a * price)" and "unat (ucast a * price) = unat price * unat a"
proof -
  have "unat a * unat price \<le> 4294967296 * 27000"
    using assms unat_width(3)[of a] by (intro mult_mono) simp_all
  then have lt: "unat (ucast a :: u64) * unat price < 2 ^ LENGTH(64)" by simp
  then show "byte_cost a price s = Inr (ucast a * price)"
    by (simp add: byte_cost_def checked_mul_def)
  from lt have "unat (ucast a * price) = unat (ucast a :: u64) * unat price"
    unfolding unat_word_ariths by (rule mod_less)
  then show "unat (ucast a * price) = unat price * unat a" by simp
qed

text \<open>A chain of checked additions that stays below the width is the sum.\<close>

definition sums_to :: "u64 option \<Rightarrow> nat \<Rightarrow> bool" where
  "sums_to x n \<longleftrightarrow> (\<exists>c. x = Some c \<and> unat c = n)"

lemma sums_to_checked_add: "unat a + unat b < 2 ^ 64 \<Longrightarrow> sums_to (checked_add a b) (unat a + unat b)"
  using checked_add_Some[of a b "a + b"] unat_plus_no_wrap[of a b] by (auto simp: sums_to_def)

lemma sums_to_and_then:
  "sums_to x n \<Longrightarrow> n + unat b < 2 ^ 64 \<Longrightarrow> sums_to (and_then x (\<lambda>c. checked_add c b)) (n + unat b)"
  using sums_to_checked_add[of _ b] by (auto simp: sums_to_def and_then_def)

lemma checked_sum6:
  assumes "unat c1 + unat c2 + unat c3 + unat c4 + unat c5 + unat c6 < 2 ^ 64"
  shows "sums_to (and_then (and_then (and_then (and_then (checked_add c1 c2)
      (\<lambda>c. checked_add c c3)) (\<lambda>c. checked_add c c4)) (\<lambda>c. checked_add c c5)) (\<lambda>c. checked_add c c6))
    (unat c1 + unat c2 + unat c3 + unat c4 + unat c5 + unat c6)"
  using assms by (intro sums_to_and_then sums_to_checked_add) linarith+

text \<open>C30: the cost of a GroveDB operation converts to credits exactly: the ephemeral and the storage
  cost of any operation cost are the sums of its 32-bit counters at their prices, and the overflow
  errors of the conversion cannot occur.\<close>

theorem operation_cost_exact:
  "(\<exists>c. ephemeral_cost total_removed_bytes cost e = Inr c \<and>
      unat c = 4000 * unat (seek_count cost) + 400 * unat (added_bytes (storage_cost cost)) +
        400 * unat (replaced_bytes (storage_cost cost)) +
        400 * unat (total_removed_bytes (removed_bytes (storage_cost cost))) +
        400 * unat (storage_loaded_bytes cost) + 1000 * unat (hash_node_calls cost)) \<and>
   (\<exists>s. storage_fee_of_cost cost e = Inr s \<and> unat s = 27000 * unat (added_bytes (storage_cost cost)))"
proof
  let ?sc = "storage_cost cost"
  let ?removed = "total_removed_bytes (removed_bytes ?sc)"
  note price = STORAGE_SEEK_COST_def STORAGE_PROCESSING_CREDIT_PER_BYTE_def STORAGE_LOAD_CREDIT_PER_BYTE_def
  have seek: "unat STORAGE_SEEK_COST \<le> 27000" and proc: "unat STORAGE_PROCESSING_CREDIT_PER_BYTE \<le> 27000"
    and load: "unat STORAGE_LOAD_CREDIT_PER_BYTE \<le> 27000" and hash: "unat (function_op_cost Blake3 e) \<le> 27000"
    by (simp_all add: price)
  note cost_eq = byte_cost_ok(1)[OF seek] byte_cost_ok(1)[OF proc] byte_cost_ok(1)[OF load] byte_cost_ok(1)[OF hash]
  note cost_val = byte_cost_ok(2)[OF seek] byte_cost_ok(2)[OF proc] byte_cost_ok(2)[OF load] byte_cost_ok(2)[OF hash]
  have val: "unat STORAGE_SEEK_COST = 4000" "unat STORAGE_PROCESSING_CREDIT_PER_BYTE = 400"
    "unat STORAGE_LOAD_CREDIT_PER_BYTE = 400" "unat (function_op_cost Blake3 e) = 1000"
    by (simp_all add: price)
  have "4000 * unat (seek_count cost) + 400 * unat (added_bytes ?sc) + 400 * unat (replaced_bytes ?sc) +
      400 * unat (storage_loaded_bytes cost) + 400 * unat ?removed + 1000 * unat (hash_node_calls cost) < 2 ^ 64"
    using unat_width(3)[of "seek_count cost"] unat_width(3)[of "added_bytes ?sc"]
      unat_width(3)[of "replaced_bytes ?sc"] unat_width(3)[of ?removed] unat_width(3)[of "storage_loaded_bytes cost"]
      unat_width(3)[of "hash_node_calls cost"] by simp
  note sum = checked_sum6[of "ucast (seek_count cost) * STORAGE_SEEK_COST"
      "ucast (added_bytes ?sc) * STORAGE_PROCESSING_CREDIT_PER_BYTE"
      "ucast (replaced_bytes ?sc) * STORAGE_PROCESSING_CREDIT_PER_BYTE"
      "ucast (storage_loaded_bytes cost) * STORAGE_LOAD_CREDIT_PER_BYTE"
      "ucast ?removed * STORAGE_PROCESSING_CREDIT_PER_BYTE"
      "ucast (hash_node_calls cost) * function_op_cost Blake3 e", unfolded cost_val val, OF this]
  then show "\<exists>c. ephemeral_cost total_removed_bytes cost e = Inr c \<and>
      unat c = 4000 * unat (seek_count cost) + 400 * unat (added_bytes ?sc) + 400 * unat (replaced_bytes ?sc) +
        400 * unat ?removed + 400 * unat (storage_loaded_bytes cost) + 1000 * unat (hash_node_calls cost)"
    unfolding ephemeral_cost_def cost_eq rbind_Inr by (auto simp: sums_to_def)
  have "unat STORAGE_DISK_USAGE_CREDIT_PER_BYTE = 27000" by (simp add: STORAGE_DISK_USAGE_CREDIT_PER_BYTE_def)
  then show "\<exists>s. storage_fee_of_cost cost e = Inr s \<and> unat s = 27000 * unat (added_bytes ?sc)"
    using byte_cost_ok[of STORAGE_DISK_USAGE_CREDIT_PER_BYTE] by (simp add: storage_fee_of_cost_def)
qed

section \<open>Removed bytes add up\<close>

text \<open>The integer map with removal: the second interface of the dependency, extending the first.\<close>

locale int_map_removal = int_map_contract +
  fixes rem :: int_map_remove
  assumes remove: "distinct (map fst m) \<Longrightarrow>
    fst (rem k m) = map_of m k \<and> set (snd (rem k m)) = {e \<in> set m. fst e \<noteq> k} \<and>
    distinct (map fst (snd (rem k m)))"

definition reference_int_map_remove :: int_map_remove where
  "reference_int_map_remove k m = (map_of m k, filter (\<lambda>e. fst e \<noteq> k) m)"

interpretation ref_int_map_removal: int_map_removal reference_int_map_insert reference_int_map_remove
  by unfold_locales (auto simp: reference_int_map_remove_def distinct_map_filter)

definition im_get :: "int_map \<Rightarrow> u64 \<Rightarrow> u32" where
  "im_get m k = (case map_of m k of None \<Rightarrow> 0 | Some v \<Rightarrow> v)"

definition im_wf :: "int_map \<Rightarrow> bool" where
  "im_wf m \<longleftrightarrow> distinct (map fst m)"

lemma im_get_absent: "k \<notin> fst ` set m \<Longrightarrow> im_get m k = 0"
  by (simp add: im_get_def map_of_eq_None_iff [symmetric])

lemma im_get_cong: "im_wf m \<Longrightarrow> im_wf m' \<Longrightarrow> set m = set m' \<Longrightarrow> im_get m k = im_get m' k"
  unfolding im_wf_def im_get_def by (metis map_of_inject_set)

lemma im_get_Cons: "im_get (e # m) k = (if k = fst e then snd e else im_get m k)"
  by (cases e) (simp add: im_get_def)

lemma im_get_filter: "im_get (filter (\<lambda>e. fst e \<noteq> k) m) k' = (if k' = k then 0 else im_get m k')"
  using bt_get_remove[of k' k m] by (simp add: im_get_def bt_get_def bt_remove_def)

context int_map_removal
begin

lemma insert_facts:
  assumes "im_wf m" "k \<notin> fst ` set m"
  shows "im_wf (ins k v m)" "fst ` set (ins k v m) = insert k (fst ` set m)"
    "im_get (ins k v m) k' = (if k' = k then v else im_get m k')"
proof -
  have i: "set (ins k v m) = insert (k, v) (set m)" "distinct (map fst (ins k v m))"
    using insert_fresh assms by (auto simp: im_wf_def)
  then show "im_wf (ins k v m)" "fst ` set (ins k v m) = insert k (fst ` set m)" by (auto simp: im_wf_def)
  have "im_get (ins k v m) k' = im_get ((k, v) # m) k'"
    using i assms by (intro im_get_cong) (simp_all add: im_wf_def)
  then show "im_get (ins k v m) k' = (if k' = k then v else im_get m k')" by (simp add: im_get_Cons)
qed

lemma remove_facts:
  assumes "im_wf m"
  shows "im_wf (snd (rem k m))" "fst ` set (snd (rem k m)) = fst ` set m - {k}"
    "im_get (snd (rem k m)) k' = (if k' = k then 0 else im_get m k')"
    "(case fst (rem k m) of None \<Rightarrow> 0 | Some v \<Rightarrow> v) = im_get m k"
proof -
  have r: "fst (rem k m) = map_of m k" "set (snd (rem k m)) = {e \<in> set m. fst e \<noteq> k}"
    "distinct (map fst (snd (rem k m)))"
    using remove[of m k] assms by (auto simp: im_wf_def)
  show "im_wf (snd (rem k m))" "fst ` set (snd (rem k m)) = fst ` set m - {k}"
    using r by (auto simp: im_wf_def)
  have "im_get (snd (rem k m)) k' = im_get (filter (\<lambda>e. fst e \<noteq> k) m) k'"
    using r assms by (intro im_get_cong) (auto simp: im_wf_def distinct_map_filter)
  then show "im_get (snd (rem k m)) k' = (if k' = k then 0 else im_get m k')"
    by (simp add: im_get_filter)
  show "(case fst (rem k m) of None \<Rightarrow> 0 | Some v \<Rightarrow> v) = im_get m k" by (simp add: r(1) im_get_def)
qed

text \<open>One pass over the entries of the first map, taking matching entries out of the second.\<close>

lemma combine_entry_adds:
  assumes "combine_entry ins rem (b, acc) (k, v) = Inr st" "im_wf b"
  shows "\<exists>c. st = (snd (rem k b), ins k c acc) \<and> unat c = unat v + unat (im_get b k)"
  using assms remove_facts(4)[OF assms(2), of k]
  by (cases "rem k b"; cases "fst (rem k b)") (auto simp: combine_entry_def rbind_eq_Inr ok_or_eq_Inr rs_checked)

lemma foldM_combine_entry:
  assumes "foldM (combine_entry ins rem) (b, acc) as = Inr (b', acc')"
    and "im_wf as" "im_wf b" "im_wf acc" "fst ` set as \<inter> fst ` set acc = {}"
  shows "im_wf b' \<and> im_wf acc' \<and> fst ` set acc' = fst ` set acc \<union> fst ` set as \<and>
    fst ` set b' = fst ` set b - fst ` set as \<and>
    (\<forall>k. unat (im_get acc' k) + unat (im_get b' k) =
         unat (im_get acc k) + unat (im_get as k) + unat (im_get b k))"
  using assms
proof (induction as arbitrary: b acc)
  case Nil
  then show ?case by (simp add: im_get_absent)
next
  case (Cons e as)
  obtain k v where e: "e = (k, v)" by (cases e)
  have fresh: "k \<notin> fst ` set acc" and rest_fresh: "k \<notin> fst ` set as"
    using Cons.prems by (auto simp: e im_wf_def)
  from Cons.prems(1) obtain st where st: "combine_entry ins rem (b, acc) (k, v) = Inr st"
    "foldM (combine_entry ins rem) st as = Inr (b', acc')" by (auto simp: e rbind_eq_Inr)
  from combine_entry_adds[OF st(1) Cons.prems(3)] st(2)
  obtain c where c: "unat c = unat v + unat (im_get b k)"
    and fold: "foldM (combine_entry ins rem) (snd (rem k b), ins k c acc) as = Inr (b', acc')" by blast
  note r = remove_facts[OF Cons.prems(3), of k] and i = insert_facts[OF Cons.prems(4) fresh, of c]
  have "im_wf as" using Cons.prems(2) by (simp add: im_wf_def)
  moreover have "fst ` set as \<inter> fst ` set (ins k c acc) = {}"
    using Cons.prems(5) rest_fresh i(2) by auto
  ultimately have IH: "im_wf b'" "im_wf acc'"
      "fst ` set acc' = fst ` set (ins k c acc) \<union> fst ` set as"
      "fst ` set b' = fst ` set (snd (rem k b)) - fst ` set as"
      "\<And>k'. unat (im_get acc' k') + unat (im_get b' k') =
         unat (im_get (ins k c acc) k') + unat (im_get as k') + unat (im_get (snd (rem k b)) k')"
    by (simp_all add: Cons.IH[OF fold _ r(1) i(1)])
  have "unat (im_get acc' k') + unat (im_get b' k') =
      unat (im_get acc k') + unat (im_get (e # as) k') + unat (im_get b k')" for k'
    using IH(5)[of k'] c im_get_absent[OF fresh] im_get_absent[OF rest_fresh]
    by (simp add: i(3) r(3) im_get_Cons e)
  moreover have "fst ` set acc' = fst ` set acc \<union> fst ` set (e # as)"
    unfolding IH(3) i(2) by (simp add: e)
  moreover have "fst ` set b' = fst ` set b - fst ` set (e # as)"
    unfolding IH(4) r(2) by (simp add: e Diff_insert2 [symmetric])
  ultimately show ?case using IH(1,2) by blast
qed

lemma foldl_insert:
  assumes "im_wf es" "im_wf m" "fst ` set es \<inter> fst ` set m = {}"
  shows "im_wf (foldl (\<lambda>m e. ins (fst e) (snd e) m) m es) \<and>
    (\<forall>k. im_get (foldl (\<lambda>m e. ins (fst e) (snd e) m) m es) k = (if k \<in> fst ` set es then im_get es k else im_get m k))"
  using assms
proof (induction es arbitrary: m)
  case Nil
  then show ?case by simp
next
  case (Cons e es)
  have fresh: "fst e \<notin> fst ` set m" and rest: "fst e \<notin> fst ` set es" "im_wf es"
    using Cons.prems by (auto simp: im_wf_def)
  note i = insert_facts[OF Cons.prems(2) fresh, of "snd e"]
  have "fst ` set es \<inter> fst ` set (ins (fst e) (snd e) m) = {}"
    using Cons.prems(3) rest(1) i(2) by auto
  from Cons.IH[OF rest(2) i(1) this] rest(1) show ?case
    by (auto simp: i(3) im_get_Cons im_get_absent)
qed

lemma combine_int_maps_adds:
  assumes "combine_int_maps ins rem a b = Inr c" "im_wf a" "im_wf b"
  shows "im_wf c \<and> (\<forall>k. unat (im_get c k) = unat (im_get a k) + unat (im_get b k))"
proof -
  from assms(1) obtain b' acc' where f: "foldM (combine_entry ins rem) (b, []) a = Inr (b', acc')"
    and c: "c = foldl (\<lambda>m e. ins (fst e) (snd e) m) [] (acc' @ b')"
    by (auto simp: combine_int_maps_def rbind_eq_Inr)
  have nil: "im_wf []" "im_get [] k = 0" for k by (simp_all add: im_wf_def im_get_def)
  have w: "im_wf b'" "im_wf acc'" "fst ` set acc' = fst ` set a" "fst ` set b' = fst ` set b - fst ` set a"
    "\<And>k. unat (im_get acc' k) + unat (im_get b' k) = unat (im_get a k) + unat (im_get b k)"
    using foldM_combine_entry[OF f assms(2,3) nil(1)] by (auto simp: nil(2))
  then have wf: "im_wf (acc' @ b')" by (auto simp: im_wf_def)
  have "unat (im_get (acc' @ b') k) = unat (im_get acc' k) + unat (im_get b' k)" for k
  proof (cases "k \<in> fst ` set acc'")
    case True
    then show ?thesis using w(3,4) by (simp add: im_get_absent) (auto simp: im_get_def map_add_dom_app_simps dom_map_of_conv_image_fst)
  next
    case False
    then show ?thesis by (simp add: im_get_absent) (auto simp: im_get_def map_add_dom_app_simps dom_map_of_conv_image_fst)
  qed
  moreover have "im_wf c \<and> (\<forall>k. im_get c k = im_get (acc' @ b') k)"
    using foldl_insert[OF wf nil(1)] im_get_absent[of _ "acc' @ b'"] unfolding c by (auto simp: nil(2))
  ultimately show ?thesis using w(5) by simp
qed

end

definition rb_get :: "removal_per_epoch_by_identifier \<Rightarrow> id32 \<Rightarrow> u64 \<Rightarrow> u32" where
  "rb_get m i k = (case bt_get i m of None \<Rightarrow> 0 | Some im \<Rightarrow> im_get im k)"

definition rb_wf :: "removal_per_epoch_by_identifier \<Rightarrow> bool" where
  "rb_wf m \<longleftrightarrow> bt_wf m \<and> (\<forall>e \<in> set m. im_wf (snd e))"

lemma bt_get_member: "bt_get k m = Some v \<Longrightarrow> (k, v) \<in> set m"
  by (simp add: bt_get_def map_of_SomeD)

lemma bt_insert_member: "e \<in> set (bt_insert k v m) \<Longrightarrow> e = (k, v) \<or> e \<in> set m"
  by (induction m) (auto split: if_splits)

context int_map_removal
begin

lemma removed_bytes_add_entry_adds:
  assumes "removed_bytes_add_entry ins rem a (i, m) = Inr c" "rb_wf a" "im_wf m"
  shows "rb_wf c \<and> (\<forall>j k. unat (rb_get c j k) = unat (rb_get a j k) + (if j = i then unat (im_get m k) else 0))"
proof -
  from assms(1) obtain m' where
      m': "(case bt_get i a of Some s \<Rightarrow> combine_int_maps ins rem s m | None \<Rightarrow> Inr m) = Inr m'"
    and c: "c = bt_insert i m' (bt_remove i a)"
    by (auto simp: removed_bytes_add_entry_def rbind_eq_Inr)
  have "im_wf m' \<and> (\<forall>k. unat (im_get m' k) = unat (rb_get a i k) + unat (im_get m k))"
  proof (cases "bt_get i a")
    case None
    then show ?thesis using m' assms(3) by (simp add: rb_get_def)
  next
    case (Some s)
    then have "im_wf s" using assms(2) bt_get_member[OF Some] by (force simp: rb_wf_def)
    then show ?thesis using m' Some combine_int_maps_adds[of s m m'] assms(3) by (simp add: rb_get_def)
  qed
  moreover have "rb_get c j k = (if j = i then im_get m' k else rb_get a j k)" for j k
    by (simp add: c rb_get_def rs_btree)
  moreover have "\<forall>e \<in> set c. e = (i, m') \<or> e \<in> set a"
    unfolding c by (auto dest!: bt_insert_member simp: bt_remove_def)
  moreover have "bt_wf c" using assms(2) by (simp add: c rb_wf_def rs_btree)
  ultimately show ?thesis using assms(2) by (auto simp: rb_wf_def)
qed

lemma removed_bytes_add:
  assumes "removed_bytes_checked_add_assign ins rem a b = Inr c" "rb_wf a" "rb_wf b"
  shows "rb_wf c \<and> (\<forall>i k. unat (rb_get c i k) = unat (rb_get a i k) + unat (rb_get b i k))"
  using assms unfolding removed_bytes_checked_add_assign_def
proof (induction b arbitrary: a)
  case Nil
  then show ?case by (simp add: rb_get_def)
next
  case (Cons e b)
  obtain i m where e: "e = (i, m)" by (cases e)
  from Cons.prems(1) obtain a' where a': "removed_bytes_add_entry ins rem a (i, m) = Inr a'"
    "foldM (removed_bytes_add_entry ins rem) a' b = Inr c" by (auto simp: e rbind_eq_Inr)
  have wf: "im_wf m" "rb_wf b" "bt_get i b = None"
    using Cons.prems(3) by (auto simp: e rb_wf_def bt_get_keys)
  note s = removed_bytes_add_entry_adds[OF a'(1) Cons.prems(2) wf(1)]
  have "rb_get (e # b) j k = (if j = i then im_get m k else rb_get b j k)" for j k
    by (simp add: e rb_get_def bt_get_def)
  moreover have "rb_get b i k = 0" for k using wf(3) by (simp add: rb_get_def)
  ultimately show ?case using Cons.IH[OF a'(2) _ wf(2)] s by simp
qed

end

section \<open>The fee of a list of operations\<close>

definition fee_wf :: "fee_result \<Rightarrow> bool" where
  "fee_wf r \<longleftrightarrow> rb_wf (removed_bytes_from_identities r)"

text \<open>\<open>fee_sum a fs c\<close>: \<open>c\<close> is the exact sum of \<open>a\<close> and the fees \<open>fs\<close>, component by component.\<close>

definition fee_sum :: "fee_result \<Rightarrow> fee_result list \<Rightarrow> fee_result \<Rightarrow> bool" where
  "fee_sum a fs c \<longleftrightarrow>
     unat (storage_fee c) = unat (storage_fee a) + (\<Sum>f \<leftarrow> fs. unat (storage_fee f)) \<and>
     unat (processing_fee c) = unat (processing_fee a) + (\<Sum>f \<leftarrow> fs. unat (processing_fee f)) \<and>
     unat (removed_bytes_from_system c) =
       unat (removed_bytes_from_system a) + (\<Sum>f \<leftarrow> fs. unat (removed_bytes_from_system f)) \<and>
     (\<forall>i k. unat (rb_get (removed_bytes_from_identities c) i k) =
       unat (rb_get (removed_bytes_from_identities a) i k) +
       (\<Sum>f \<leftarrow> fs. unat (rb_get (removed_bytes_from_identities f) i k)))"

context int_map_removal
begin

lemma checked_add_assign_sum:
  assumes "checked_add_assign ins rem a b = Inr c" "fee_wf a" "fee_wf b"
  shows "fee_wf c \<and> fee_sum a [b] c"
proof -
  from assms(1) obtain s p r y where "checked_add (storage_fee a) (storage_fee b) = Some s"
      "checked_add (processing_fee a) (processing_fee b) = Some p"
      "checked_add (removed_bytes_from_system a) (removed_bytes_from_system b) = Some y"
    and r: "removed_bytes_checked_add_assign ins rem (removed_bytes_from_identities a)
      (removed_bytes_from_identities b) = Inr r"
    and "c = \<lparr>storage_fee = s, processing_fee = p, removed_bytes_from_identities = r, removed_bytes_from_system = y\<rparr>"
    by (auto simp: checked_add_assign_def rbind_eq_Inr ok_or_eq_Inr)
  with removed_bytes_add[OF r] assms(2,3) show ?thesis
    by (simp add: fee_wf_def fee_sum_def rs_checked)
qed

lemma foldM_checked_add_assign_sum:
  "foldM (checked_add_assign ins rem) a fs = Inr c \<Longrightarrow> fee_wf a \<Longrightarrow> \<forall>f \<in> set fs. fee_wf f \<Longrightarrow>
   fee_wf c \<and> fee_sum a fs c"
proof (induction fs arbitrary: a)
  case Nil
  then show ?case by (simp add: fee_sum_def)
next
  case (Cons f fs)
  then obtain a' where a': "checked_add_assign ins rem a f = Inr a'" "foldM (checked_add_assign ins rem) a' fs = Inr c"
    by (auto simp: rbind_eq_Inr)
  have "fee_wf a' \<and> fee_sum a [f] a'" using checked_add_assign_sum[OF a'(1)] Cons.prems by simp
  with Cons.IH[OF a'(2)] Cons.prems(3) show ?case by (simp add: fee_sum_def)
qed

end

text \<open>The processing fee of the base operations.\<close>

definition base_fee :: "(base_op \<Rightarrow> u64) option \<Rightarrow> nat" where
  "base_fee counts =
     (case counts of None \<Rightarrow> 0 | Some c \<Rightarrow> (\<Sum>op \<leftarrow> base_ops. unat (base_op_cost op) * unat (c op)))"

lemma foldM_add_base_op:
  "foldM add_base_op r es = Inr r' \<Longrightarrow>
   unat (processing_fee r') = unat (processing_fee r) + (\<Sum>(op, n) \<leftarrow> es. unat (base_op_cost op) * unat n) \<and>
   r' = r\<lparr>processing_fee := processing_fee r'\<rparr>"
proof (induction es arbitrary: r)
  case Nil
  then show ?case by simp
next
  case (Cons e es)
  then obtain s where s: "add_base_op r e = Inr s" "foldM add_base_op s es = Inr r'" by (auto simp: rbind_eq_Inr)
  then have "unat (processing_fee s) = unat (processing_fee r) + unat (base_op_cost (fst e)) * unat (snd e)"
    "s = r\<lparr>processing_fee := processing_fee s\<rparr>"
    by (auto simp: add_base_op_def rs_checked split: option.splits)
  with Cons.IH[OF s(2)] show ?case by (cases e) (simp, metis fee_result.update_convs(2) fee_result.surjective)
qed

text \<open>C24: a calculated fee is the exact sum, without wrap-around, of the fees of the base operations
  and of all Drive operations: storage fees, processing fees, the bytes removed from the system, and
  the bytes to refund to every identity for every epoch. Overflow anywhere is an error instead.\<close>

theorem calculate_fee_sums:
  assumes "int_map_removal ins rem"
    and "calculate_fee ins rem total_removed_bytes base_operations (Some ops) e = Inr r"
    and "consume_to_fees total_removed_bytes ops e = Inr fees" and "\<forall>f \<in> set fees. fee_wf f"
  shows "fee_wf r \<and> (\<exists>base. unat (processing_fee base) = base_fee base_operations \<and>
    base = fee_result_default\<lparr>processing_fee := processing_fee base\<rparr> \<and> fee_sum base fees r)"
proof -
  from assms(2,3) obtain base where
      base: "(case base_operations of None \<Rightarrow> Inr fee_result_default
        | Some counts \<Rightarrow> foldM add_base_op fee_result_default (map (\<lambda>op. (op, counts op)) base_ops)) = Inr base"
    and r: "foldM (checked_add_assign ins rem) base fees = Inr r"
    by (auto simp: calculate_fee_def rbind_eq_Inr)
  have b: "unat (processing_fee base) = base_fee base_operations \<and>
      base = fee_result_default\<lparr>processing_fee := processing_fee base\<rparr>"
    using base foldM_add_base_op[of fee_result_default _ base]
    by (cases base_operations) (auto simp: base_fee_def fee_result_default_def o_def case_prod_beta)
  then have "fee_wf base" by (metis fee_wf_def rb_wf_def fee_result_default_def fee_result.simps(3,7)
      bt_wf_Nil empty_iff list.set(1))
  with int_map_removal.foldM_checked_add_assign_sum[OF assms(1) r _ assms(4)] b show ?thesis by blast
qed

definition sample_fee :: fee_result where
  "sample_fee = \<lparr>storage_fee = 5, processing_fee = 7, removed_bytes_from_identities = [([1], [(3, 10)])],
     removed_bytes_from_system = 2\<rparr>"

theorem calculate_fee_sums_witness:
  "\<exists>r. calculate_fee reference_int_map_insert reference_int_map_remove (\<lambda>_. 0) None
        (Some [PreCalculatedFeeResult sample_fee, PreCalculatedFeeResult sample_fee]) (epoch_at 0) = Inr r \<and>
      unat (storage_fee r) = 10 \<and> unat (rb_get (removed_bytes_from_identities r) [1] 3) = 20"
proof -
  let ?ops = "[PreCalculatedFeeResult sample_fee, PreCalculatedFeeResult sample_fee]"
  have fees: "consume_to_fees (\<lambda>_. 0) ?ops (epoch_at 0) = Inr [sample_fee, sample_fee]"
    by (simp add: consume_to_fees_def operation_fee_def)
  obtain r where r: "calculate_fee reference_int_map_insert reference_int_map_remove (\<lambda>_. 0) None
      (Some ?ops) (epoch_at 0) = Inr r"
    unfolding calculate_fee_def option.case fees rbind_Inr
    by (simp add: fee_result_default_def checked_add_assign_def sample_fee_def checked_add_def
        removed_bytes_checked_add_assign_def removed_bytes_add_entry_def bt_get_def bt_remove_def combine_int_maps_def
        combine_entry_def reference_int_map_remove_def reference_int_map_insert_def)
  have "\<forall>f \<in> set [sample_fee, sample_fee]. fee_wf f"
    by (simp add: fee_wf_def sample_fee_def rb_wf_def im_wf_def)
  from calculate_fee_sums[OF ref_int_map_removal.int_map_removal_axioms r fees this]
  obtain base where "unat (storage_fee r) = unat (storage_fee base) + 10"
    "unat (rb_get (removed_bytes_from_identities r) [1] 3) = unat (rb_get (removed_bytes_from_identities base) [1] 3) + 20"
    "base = fee_result_default\<lparr>processing_fee := processing_fee base\<rparr>"
    by (auto simp: fee_sum_def sample_fee_def rb_get_def bt_get_def im_get_def)
  moreover from this(3) have "storage_fee base = 0" "removed_bytes_from_identities base = []"
    by (metis fee_result_default_def fee_result.simps(1,3,7) fee_result.select_convs)+
  ultimately show ?thesis using r by (simp add: rb_get_def)
qed

end
