(* ===== verification/GroveOps.thy ===== *)
theory GroveOps
  imports Fees
begin

text \<open>
  Drive's access to GroveDB: \<open>drive/src/drive/grove_operations.rs\<close> with the descriptions of paths, keys
  and elements of \<open>object_size_info.rs\<close>, the batch application of \<open>drive/mod.rs\<close> and the
  configuration. An operation either touches the database and records its cost, or, when it is only
  estimated, records sizes. Every function returns the database and the list of Drive operations.
\<close>

section \<open>Configuration and the Drive value\<close>

record drive_config =
  batching_enabled :: bool
  batching_consistency_verification :: bool
  has_raw_enabled :: bool
  default_genesis_time :: "u64 option"
  data_contracts_global_cache_size :: u64
  data_contracts_transactional_cache_size :: u64

definition drive_config_default :: drive_config where
  "drive_config_default =
     \<lparr>batching_enabled = True, batching_consistency_verification = False, has_raw_enabled = True,
      default_genesis_time = None, data_contracts_global_cache_size = 500,
      data_contracts_transactional_cache_size = 500\<rparr>"

text \<open>Drive's handles: the database's entry points, its configuration and the dependencies it calls.\<close>

record 'db drive =
  grove :: "'db grovedb"
  config :: drive_config
  varint :: varint_ops
  im_insert :: int_map_insert
  im_remove :: int_map_remove
  total_removed_bytes :: "storage_removed_bytes \<Rightarrow> u32"

type_synonym drive_ops = "drive_operation list"

section \<open>Paths, keys and elements, known or estimated\<close>

datatype path_info = PathFixedSizeIterator path | PathIterator path | PathSize u32

datatype drive_key_info = KeyOwned bytes | KeyRef bytes | KeySize u32

datatype path_key_info =
    PathFixedSizeKey path bytes
  | PathFixedSizeKeyRef path bytes
  | PathKey path bytes
  | PathKeyRef path bytes
  | PathKeySize u32 u32

datatype key_element_info = KeyElement bytes element | KeyElementSize u32 u32

datatype path_key_element_info =
    PathFixedSizeKeyElement path bytes element
  | PathKeyElement path bytes element
  | PathKeyElementSize u32 u32 u32

datatype key_value_info = KeyRefRequest bytes | KeyValueMaxSize u16 u32

definition path_len :: "path \<Rightarrow> u32" where
  "path_len p = sum_list (map len_u32 p)"

fun path_info_len :: "path_info \<Rightarrow> u32" where
  "path_info_len (PathFixedSizeIterator p) = path_len p"
| "path_info_len (PathIterator p) = path_len p"
| "path_info_len (PathSize n) = n"

fun path_info_is_empty :: "path_info \<Rightarrow> bool" where
  "path_info_is_empty (PathFixedSizeIterator p) \<longleftrightarrow> (\<forall>a \<in> set p. a = [])"
| "path_info_is_empty (PathIterator p) \<longleftrightarrow> (\<forall>a \<in> set p. a = [])"
| "path_info_is_empty (PathSize n) \<longleftrightarrow> n = 0"

definition corrupted :: "string \<Rightarrow> error" where
  "corrupted s = DriveErr (CorruptedCodeExecution s)"

text \<open>
  The pattern \<open>PathSize(mut path_size)\<close> binds a copy of the size: the addition is lost and the path
  info is left as it was.
\<close>

fun path_info_push :: "path_info \<Rightarrow> drive_key_info \<Rightarrow> error + path_info" where
  "path_info_push (PathFixedSizeIterator p) k =
     Inl (corrupted ''can not add a key to a fixed size path iterator'')"
| "path_info_push (PathIterator p) (KeyOwned k) = Inr (PathIterator (p @ [k]))"
| "path_info_push (PathIterator p) (KeyRef k) = Inr (PathIterator (p @ [k]))"
| "path_info_push (PathIterator p) (KeySize n) = Inl (corrupted ''can not add a key size to path iterator'')"
| "path_info_push (PathSize n) k = Inr (PathSize n)"

fun drive_key_info_len :: "drive_key_info \<Rightarrow> u64" where
  "drive_key_info_len (KeyOwned k) = word_of_nat (length k)"
| "drive_key_info_len (KeyRef k) = word_of_nat (length k)"
| "drive_key_info_len (KeySize n) = ucast n"

fun drive_key_info_is_empty :: "drive_key_info \<Rightarrow> bool" where
  "drive_key_info_is_empty (KeyOwned k) \<longleftrightarrow> k = []"
| "drive_key_info_is_empty (KeyRef k) \<longleftrightarrow> k = []"
| "drive_key_info_is_empty (KeySize n) \<longleftrightarrow> n = 0"

fun add_path_info :: "drive_key_info \<Rightarrow> path_info \<Rightarrow> path_key_info" where
  "add_path_info (KeyOwned k) (PathFixedSizeIterator p) = PathFixedSizeKey p k"
| "add_path_info (KeyOwned k) (PathIterator p) = PathKey p k"
| "add_path_info (KeyOwned k) (PathSize n) = PathKeySize n (len_u32 k)"
| "add_path_info (KeyRef k) (PathFixedSizeIterator p) = PathFixedSizeKeyRef p k"
| "add_path_info (KeyRef k) (PathIterator p) = PathKeyRef p k"
| "add_path_info (KeyRef k) (PathSize n) = PathKeySize n (len_u32 k)"
| "add_path_info (KeySize n) info = PathKeySize (path_info_len info) n"

fun add_fixed_size_path :: "drive_key_info \<Rightarrow> path \<Rightarrow> path_key_info" where
  "add_fixed_size_path (KeyOwned k) p = PathFixedSizeKey p k"
| "add_fixed_size_path (KeyRef k) p = PathFixedSizeKeyRef p k"
| "add_fixed_size_path (KeySize n) p = PathKeySize (len_u32 p) n"

fun add_path :: "drive_key_info \<Rightarrow> path \<Rightarrow> path_key_info" where
  "add_path (KeyOwned k) p = PathKey p k"
| "add_path (KeyRef k) p = PathKeyRef p k"
| "add_path (KeySize n) p = PathKeySize (len_u32 p) n"

definition usize_len :: "path \<Rightarrow> bytes \<Rightarrow> u64" where
  "usize_len p k = sum_list (map (\<lambda>a. word_of_nat (length a)) p) + word_of_nat (length k)"

fun path_key_info_len :: "path_key_info \<Rightarrow> u64" where
  "path_key_info_len (PathKey p k) = usize_len p k"
| "path_key_info_len (PathKeyRef p k) = usize_len p k"
| "path_key_info_len (PathFixedSizeKey p k) = usize_len p k"
| "path_key_info_len (PathFixedSizeKeyRef p k) = usize_len p k"
| "path_key_info_len (PathKeySize n m) = ucast n + ucast m"

fun path_key_info_is_empty :: "path_key_info \<Rightarrow> bool" where
  "path_key_info_is_empty (PathKey p k) \<longleftrightarrow> k = [] \<and> (\<forall>a \<in> set p. a = [])"
| "path_key_info_is_empty (PathKeyRef p k) \<longleftrightarrow> k = [] \<and> (\<forall>a \<in> set p. a = [])"
| "path_key_info_is_empty (PathFixedSizeKey p k) \<longleftrightarrow> k = [] \<and> (\<forall>a \<in> set p. a = [])"
| "path_key_info_is_empty (PathFixedSizeKeyRef p k) \<longleftrightarrow> k = [] \<and> (\<forall>a \<in> set p. a = [])"
| "path_key_info_is_empty (PathKeySize n m) \<longleftrightarrow> n + m = 0"

fun is_contained_in_cache :: "path_key_info \<Rightarrow> path set \<Rightarrow> bool" where
  "is_contained_in_cache (PathKey p k) qualified_paths \<longleftrightarrow> p @ [k] \<in> qualified_paths"
| "is_contained_in_cache (PathKeyRef p k) qualified_paths \<longleftrightarrow> p @ [k] \<in> qualified_paths"
| "is_contained_in_cache (PathFixedSizeKey p k) qualified_paths \<longleftrightarrow> p @ [k] \<in> qualified_paths"
| "is_contained_in_cache (PathFixedSizeKeyRef p k) qualified_paths \<longleftrightarrow> p @ [k] \<in> qualified_paths"
| "is_contained_in_cache (PathKeySize _ _) qualified_paths \<longleftrightarrow> False"

text \<open>\<open>HashSet::insert\<close> returns whether the path was new.\<close>

fun add_to_cache :: "path_key_info \<Rightarrow> path set \<Rightarrow> bool \<times> path set" where
  "add_to_cache (PathKey p k) qs = (p @ [k] \<notin> qs, insert (p @ [k]) qs)"
| "add_to_cache (PathKeyRef p k) qs = (p @ [k] \<notin> qs, insert (p @ [k]) qs)"
| "add_to_cache (PathFixedSizeKey p k) qs = (p @ [k] \<notin> qs, insert (p @ [k]) qs)"
| "add_to_cache (PathFixedSizeKeyRef p k) qs = (p @ [k] \<notin> qs, insert (p @ [k]) qs)"
| "add_to_cache (PathKeySize _ _) qs = (True, qs)"

fun from_path_info_and_key_element ::
    "'db drive \<Rightarrow> path_info \<Rightarrow> key_element_info \<Rightarrow> error + path_key_element_info" where
  "from_path_info_and_key_element d (PathIterator p) (KeyElement k e) = Inr (PathKeyElement p k e)"
| "from_path_info_and_key_element d (PathIterator p) (KeyElementSize _ _) =
     Inl (corrupted ''path matched with key element size'')"
| "from_path_info_and_key_element d (PathSize n) (KeyElement k e) =
     Inr (PathKeyElementSize n (len_u32 k) (gdb_node_byte_size (grove d) e (len_u32 k)))"
| "from_path_info_and_key_element d (PathSize n) (KeyElementSize kl es) = Inr (PathKeyElementSize n kl es)"
| "from_path_info_and_key_element d (PathFixedSizeIterator p) (KeyElement k e) = Inr (PathFixedSizeKeyElement p k e)"
| "from_path_info_and_key_element d (PathFixedSizeIterator p) (KeyElementSize _ _) =
     Inl (corrupted ''path matched with key element size'')"

fun from_fixed_size_path_and_key_element :: "path \<Rightarrow> key_element_info \<Rightarrow> error + path_key_element_info" where
  "from_fixed_size_path_and_key_element p (KeyElement k e) = Inr (PathFixedSizeKeyElement p k e)"
| "from_fixed_size_path_and_key_element p (KeyElementSize _ _) =
     Inl (corrupted ''path matched with key element size'')"

fun from_path_and_key_element :: "path \<Rightarrow> key_element_info \<Rightarrow> error + path_key_element_info" where
  "from_path_and_key_element p (KeyElement k e) = Inr (PathKeyElement p k e)"
| "from_path_and_key_element p (KeyElementSize _ _) = Inl (corrupted ''path matched with key element size'')"

fun insert_len :: "'db drive \<Rightarrow> path_key_element_info \<Rightarrow> u32" where
  "insert_len d (PathKeyElement _ k e) = gdb_node_byte_size (grove d) e (len_u32 k)"
| "insert_len d (PathKeyElementSize _ n m) = n + m"
| "insert_len d (PathFixedSizeKeyElement _ k e) = gdb_node_byte_size (grove d) e (len_u32 k)"

fun as_key_ref_request :: "key_value_info \<Rightarrow> error + bytes" where
  "as_key_ref_request (KeyRefRequest k) = Inr k"
| "as_key_ref_request (KeyValueMaxSize _ _) =
     Inl (corrupted ''requesting KeyValueInfo as key ref request however it is a key value max size'')"

fun key_len :: "key_value_info \<Rightarrow> u16" where
  "key_len (KeyRefRequest k) = word_of_nat (length k)"
| "key_len (KeyValueMaxSize n _) = n"

section \<open>Costs\<close>

definition push_drive_operation_result ::
    "(grove_error + 'a) \<times> operation_cost \<Rightarrow> drive_ops \<Rightarrow> error + ('a \<times> drive_ops)" where
  "push_drive_operation_result cost_context ops =
     (case cost_context of (value, cost) \<Rightarrow>
        rbind (map_err GroveDB value) (\<lambda>v. Inr (v, ops @ [CalculatedCostOperation cost])))"

definition push_drive_operation_result_optional ::
    "(grove_error + 'a) \<times> operation_cost \<Rightarrow> drive_ops option \<Rightarrow> error + ('a \<times> drive_ops option)" where
  "push_drive_operation_result_optional cost_context ops =
     (case cost_context of (value, cost) \<Rightarrow>
        rbind (map_err GroveDB value)
          (\<lambda>v. Inr (v, map_option (\<lambda>o'. o' @ [CalculatedCostOperation cost]) ops)))"

definition key_len_u16 :: "bytes \<Rightarrow> u16" where
  "key_len_u16 k = word_of_nat (length k)"

definition insertion_error :: error where
  "insertion_error = DriveErr (GroveDBInsertion ''only a key ref can be inserted into groveDB'')"

section \<open>Insertion into the database\<close>

fun grove_insert_empty_tree :: "'db drive \<Rightarrow> 'db \<Rightarrow> path \<Rightarrow> drive_key_info \<Rightarrow> storage_flags \<Rightarrow> bool \<Rightarrow>
    drive_ops option \<Rightarrow> error + ('db \<times> drive_ops option)" where
  "grove_insert_empty_tree d db p (KeyRef k) flags apply ops =
     (if apply
      then push_drive_operation_result_optional
             (gdb_insert (grove d) db p k (Tree None (to_some_element_flags (varint d) flags)) False) ops
      else Inr (db, map_option (\<lambda>o'. o' @ [for_empty_tree (varint d) p k (Some flags)]) ops))"
| "grove_insert_empty_tree d db p (KeySize n) flags apply ops =
     Inr (db, map_option (\<lambda>o'. o' @ [for_insert_path_key_value_size (path_len p) (ucast n) 0]) ops)"
| "grove_insert_empty_tree d db p (KeyOwned k) flags apply ops = Inl insertion_error"

definition insert_empty_tree_known :: "'db drive \<Rightarrow> 'db \<Rightarrow> path \<Rightarrow> bytes \<Rightarrow> storage_flags \<Rightarrow> bool \<Rightarrow>
    drive_ops option \<Rightarrow> error + ((bool \<times> 'db) \<times> drive_ops option)" where
  "insert_empty_tree_known d db p k flags apply ops =
     (if apply
      then push_drive_operation_result_optional
             (gdb_insert_if_not_exists (grove d) db p k (Tree None (to_some_element_flags (varint d) flags))) ops
      else Inr ((True, db), map_option (\<lambda>o'. o' @
             [for_empty_tree (varint d) p k (Some flags),
              CostCalculationQueryOperation (for_key_check_in_path (len_u32 k) p)]) ops))"

fun grove_insert_empty_tree_if_not_exists :: "'db drive \<Rightarrow> 'db \<Rightarrow> path_key_info \<Rightarrow> storage_flags \<Rightarrow> bool \<Rightarrow>
    drive_ops option \<Rightarrow> error + ((bool \<times> 'db) \<times> drive_ops option)" where
  "grove_insert_empty_tree_if_not_exists d db (PathKeyRef p k) flags apply ops =
     insert_empty_tree_known d db p k flags apply ops"
| "grove_insert_empty_tree_if_not_exists d db (PathKeySize pl kl) flags apply ops =
     Inr ((True, db), map_option (\<lambda>o'. o' @
       [for_insert_path_key_value_size pl (ucast kl) 0,
        CostCalculationQueryOperation (for_key_check_with_path_length kl pl)]) ops)"
| "grove_insert_empty_tree_if_not_exists d db (PathKey p k) flags apply ops =
     insert_empty_tree_known d db p k flags apply ops"
| "grove_insert_empty_tree_if_not_exists d db (PathFixedSizeKey p k) flags apply ops =
     insert_empty_tree_known d db p k flags apply ops"
| "grove_insert_empty_tree_if_not_exists d db (PathFixedSizeKeyRef p k) flags apply ops =
     insert_empty_tree_known d db p k flags apply ops"

definition grove_insert_known :: "'db drive \<Rightarrow> 'db \<Rightarrow> path \<Rightarrow> bytes \<Rightarrow> element \<Rightarrow> bool \<Rightarrow> bool \<Rightarrow> drive_ops \<Rightarrow>
    error + ('db \<times> drive_ops)" where
  "grove_insert_known d db p k e apply validate_tree ops =
     (if apply then push_drive_operation_result (gdb_insert (grove d) db p k e validate_tree) ops
      else Inr (db, ops @ [for_insert_path_key_value_size (path_len p) (key_len_u16 k)
             (gdb_node_byte_size (grove d) e (len_u32 k))]))"

fun grove_insert :: "'db drive \<Rightarrow> 'db \<Rightarrow> path_key_element_info \<Rightarrow> bool \<Rightarrow> bool \<Rightarrow> drive_ops \<Rightarrow>
    error + ('db \<times> drive_ops)" where
  "grove_insert d db (PathKeyElement p k e) apply validate_tree ops =
     grove_insert_known d db p k e apply validate_tree ops"
| "grove_insert d db (PathKeyElementSize pl kl es) apply validate_tree ops =
     Inr (db, ops @ [for_insert_path_key_value_size pl (ucast kl) es])"
| "grove_insert d db (PathFixedSizeKeyElement p k e) apply validate_tree ops =
     grove_insert_known d db p k e apply validate_tree ops"

definition insert_if_not_exists_known :: "'db drive \<Rightarrow> 'db \<Rightarrow> path \<Rightarrow> bytes \<Rightarrow> element \<Rightarrow> bool \<Rightarrow>
    drive_ops option \<Rightarrow> error + ((bool \<times> 'db) \<times> drive_ops option)" where
  "insert_if_not_exists_known d db p k e apply ops =
     (if apply then push_drive_operation_result_optional (gdb_insert_if_not_exists (grove d) db p k e) ops
      else Inr ((True, db), map_option (\<lambda>o'. o' @
             [CostCalculationQueryOperation (for_key_check_in_path (len_u32 k) p),
              for_insert_path_key_value_size (path_len p) (key_len_u16 k)
                (gdb_node_byte_size (grove d) e (len_u32 k))]) ops))"

fun grove_insert_if_not_exists :: "'db drive \<Rightarrow> 'db \<Rightarrow> path_key_element_info \<Rightarrow> bool \<Rightarrow>
    drive_ops option \<Rightarrow> error + ((bool \<times> 'db) \<times> drive_ops option)" where
  "grove_insert_if_not_exists d db (PathKeyElement p k e) apply ops = insert_if_not_exists_known d db p k e apply ops"
| "grove_insert_if_not_exists d db (PathKeyElementSize pl kl es) apply ops =
     Inr ((True, db), map_option (\<lambda>o'. o' @
       [CostCalculationQueryOperation (for_key_check_with_path_length kl pl),
        for_insert_path_key_value_size pl (ucast kl) es]) ops)"
| "grove_insert_if_not_exists d db (PathFixedSizeKeyElement p k e) apply ops =
     insert_if_not_exists_known d db p k e apply ops"

definition grove_delete :: "'db drive \<Rightarrow> 'db \<Rightarrow> path \<Rightarrow> bytes \<Rightarrow> bool \<Rightarrow> drive_ops \<Rightarrow> error + ('db \<times> drive_ops)" where
  "grove_delete d db p k apply ops =
     (if apply then push_drive_operation_result (gdb_delete (grove d) db p k) ops
      else Inr (db, ops @ [for_delete_path_key_value_size p (key_len_u16 k) 0 1]))"

section \<open>Reading\<close>

fun grove_get :: "'db drive \<Rightarrow> 'db \<Rightarrow> path \<Rightarrow> key_value_info \<Rightarrow> (u16 \<times> u32 list) option \<Rightarrow> drive_ops \<Rightarrow>
    error + (element option \<times> drive_ops)" where
  "grove_get d db p (KeyRefRequest k) stateless ops =
     (case stateless of
        Some (max_value_size, max_reference_sizes) \<Rightarrow>
          Inr (None, ops @ [CalculatedCostOperation
            (gdb_worst_case_get (grove d) p k (ucast max_value_size) max_reference_sizes)])
      | None \<Rightarrow>
          rbind (map_err GroveDB (gdb_get (grove d) db p k))
            (\<lambda>e. Inr (Some e, ops @ [CalculatedCostOperation (gdb_cost_get (grove d) db p k)])))"
| "grove_get d db p (KeyValueMaxSize key_size value_size) stateless ops =
     Inr (None, ops @ [CostCalculationQueryOperation (for_value_retrieval_in_path key_size p value_size)])"

definition grove_get_direct :: "'db drive \<Rightarrow> 'db \<Rightarrow> path \<Rightarrow> key_value_info \<Rightarrow> u16 option \<Rightarrow> drive_ops \<Rightarrow>
    error + (element option \<times> drive_ops)" where
  "grove_get_direct d db p kv stateless ops = grove_get d db p kv (map_option (\<lambda>vs. (vs, [])) stateless) ops"

definition grove_get_path_query :: "'db drive \<Rightarrow> 'db \<Rightarrow> path_query \<Rightarrow> drive_ops \<Rightarrow>
    error + ((bytes list \<times> u16) \<times> drive_ops)" where
  "grove_get_path_query d db q ops =
     push_drive_operation_result (gdb_query (grove d) db q, gdb_cost_query (grove d) db q) ops"

definition grove_get_raw_path_query :: "'db drive \<Rightarrow> 'db \<Rightarrow> path_query \<Rightarrow> drive_ops \<Rightarrow>
    error + ((path \<times> bytes \<times> element) list \<times> drive_ops)" where
  "grove_get_raw_path_query d db q ops =
     push_drive_operation_result (gdb_query_raw (grove d) db q, gdb_cost_query (grove d) db q) ops"

definition grove_get_proved_path_query :: "'db drive \<Rightarrow> 'db \<Rightarrow> path_query \<Rightarrow> drive_ops \<Rightarrow>
    error + (bytes \<times> drive_ops)" where
  "grove_get_proved_path_query d db q ops =
     push_drive_operation_result (gdb_proved_query (grove d) db q, gdb_cost_query (grove d) db q) ops"

definition has_raw_by_get :: "grove_error + element \<Rightarrow> grove_error + bool" where
  "has_raw_by_get r =
     (case r of
        Inl (PathKeyNotFound _) \<Rightarrow> Inr False
      | Inl (PathNotFound _) \<Rightarrow> Inr False
      | Inl (PathParentLayerNotFound _) \<Rightarrow> Inr False
      | Inl e \<Rightarrow> Inl e
      | Inr _ \<Rightarrow> Inr True)"

definition grove_has_raw :: "'db drive \<Rightarrow> 'db \<Rightarrow> path \<Rightarrow> bytes \<Rightarrow> u16 option \<Rightarrow> drive_ops \<Rightarrow>
    error + (bool \<times> drive_ops)" where
  "grove_has_raw d db p k stateless ops =
     push_drive_operation_result
       (case stateless of
          Some max_value_size \<Rightarrow> (Inr False, gdb_worst_case_has_raw (grove d) p k (ucast max_value_size))
        | None \<Rightarrow>
            if has_raw_enabled (config d)
            then (gdb_has_raw (grove d) db p k, gdb_cost_has_raw (grove d) db p k)
            else (has_raw_by_get (gdb_get_raw (grove d) db p k), gdb_cost_get_raw (grove d) db p k)) ops"

section \<open>Collecting a batch\<close>

definition SOME_TREE_SIZE :: "u16 option" where "SOME_TREE_SIZE = Some 32"
definition MAX_ELEMENT_SIZE :: u32 where "MAX_ELEMENT_SIZE = 5000"

fun batch_insert_empty_tree :: "'db drive \<Rightarrow> path \<Rightarrow> drive_key_info \<Rightarrow> storage_flags option \<Rightarrow> drive_ops \<Rightarrow>
    error + drive_ops" where
  "batch_insert_empty_tree d p (KeyRef k) flags ops = Inr (ops @ [for_empty_tree (varint d) p k flags])"
| "batch_insert_empty_tree d p (KeySize n) flags ops =
     Inr (ops @ [for_insert_path_key_value_size (path_len p) (ucast n) 0])"
| "batch_insert_empty_tree d p (KeyOwned _) flags ops = Inl insertion_error"

definition batch_empty_tree_known :: "'db drive \<Rightarrow> 'db \<Rightarrow> path \<Rightarrow> bytes \<Rightarrow> storage_flags option \<Rightarrow> bool \<Rightarrow>
    drive_ops \<Rightarrow> error + (bool \<times> drive_ops)" where
  "batch_empty_tree_known d db p k flags apply ops =
     rbind (grove_has_raw d db p k (if apply then None else SOME_TREE_SIZE) ops) (\<lambda>(has_raw, ops).
       Inr (\<not> has_raw, if has_raw then ops else ops @ [for_empty_tree (varint d) p k flags]))"

fun batch_insert_empty_tree_if_not_exists :: "'db drive \<Rightarrow> 'db \<Rightarrow> path_key_info \<Rightarrow> storage_flags option \<Rightarrow> bool \<Rightarrow>
    drive_ops \<Rightarrow> error + (bool \<times> drive_ops)" where
  "batch_insert_empty_tree_if_not_exists d db (PathKeyRef p k) flags apply ops =
     batch_empty_tree_known d db p k flags apply ops"
| "batch_insert_empty_tree_if_not_exists d db (PathKeySize pl kl) flags apply ops =
     Inr (True, ops @ [for_insert_path_key_value_size pl (ucast kl) 0,
                       CostCalculationQueryOperation (for_key_check_with_path_length kl pl)])"
| "batch_insert_empty_tree_if_not_exists d db (PathKey p k) flags apply ops =
     batch_empty_tree_known d db p k flags apply ops"
| "batch_insert_empty_tree_if_not_exists d db (PathFixedSizeKey p k) flags apply ops =
     batch_empty_tree_known d db p k flags apply ops"
| "batch_insert_empty_tree_if_not_exists d db (PathFixedSizeKeyRef p k) flags apply ops =
     batch_empty_tree_known d db p k flags apply ops"

fun batch_insert :: "path_key_element_info \<Rightarrow> drive_ops \<Rightarrow> error + drive_ops" where
  "batch_insert (PathKeyElement p k e) ops = Inr (ops @ [for_path_key_element p k e])"
| "batch_insert (PathKeyElementSize pl kl es) ops = Inr (ops @ [for_insert_path_key_value_size pl (ucast kl) es])"
| "batch_insert (PathFixedSizeKeyElement p k e) ops = Inr (ops @ [for_path_key_element p k e])"

definition batch_insert_known :: "'db drive \<Rightarrow> 'db \<Rightarrow> path \<Rightarrow> bytes \<Rightarrow> element \<Rightarrow> u16 option \<Rightarrow> drive_ops \<Rightarrow>
    error + (bool \<times> drive_ops)" where
  "batch_insert_known d db p k e stateless ops =
     rbind (grove_has_raw d db p k stateless ops) (\<lambda>(has_raw, ops).
       Inr (\<not> has_raw, if has_raw then ops else ops @ [for_path_key_element p k e]))"

fun batch_insert_if_not_exists :: "'db drive \<Rightarrow> 'db \<Rightarrow> path_key_element_info \<Rightarrow> u16 option \<Rightarrow> drive_ops \<Rightarrow>
    error + (bool \<times> drive_ops)" where
  "batch_insert_if_not_exists d db (PathKeyElement p k e) stateless ops = batch_insert_known d db p k e stateless ops"
| "batch_insert_if_not_exists d db (PathFixedSizeKeyElement p k e) stateless ops =
     batch_insert_known d db p k e stateless ops"
| "batch_insert_if_not_exists d db (PathKeyElementSize pl kl es) stateless ops =
     Inr (True, ops @ [for_insert_path_key_value_size pl (ucast kl) es,
                       CostCalculationQueryOperation (for_key_check_with_path_length kl pl)])"

definition batch_delete :: "'db drive \<Rightarrow> 'db \<Rightarrow> path \<Rightarrow> bytes \<Rightarrow> bool \<Rightarrow> bool \<Rightarrow> drive_ops \<Rightarrow> error + drive_ops" where
  "batch_delete d db p k only_delete_tree_if_empty apply ops =
     (if apply
      then rbind (push_drive_operation_result
                    (gdb_delete_operation (grove d) db p k (grovedb_operations_batch ops)) ops)
             (\<lambda>(deletion, ops).
                Inr (case deletion of Some o' \<Rightarrow> ops @ [GroveOperation o'] | None \<Rightarrow> ops))
      else Inr (ops @ [CalculatedCostOperation no_cost,
                       CalculatedCostOperation (gdb_worst_case_deletion (grove d) p k MAX_ELEMENT_SIZE)]))"

fun known_key :: "drive_key_info \<Rightarrow> error + bytes" where
  "known_key (KeyOwned k) = Inr k"
| "known_key (KeyRef k) = Inr k"
| "known_key (KeySize _) = Inl (corrupted ''key size used with apply'')"

definition batch_delete_up_tree_while_empty ::
    "'db drive \<Rightarrow> 'db \<Rightarrow> drive_key_info list \<Rightarrow> bytes \<Rightarrow> u16 option \<Rightarrow> bool \<Rightarrow> drive_ops \<Rightarrow> error + drive_ops" where
  "batch_delete_up_tree_while_empty d db p k stop_path_height apply ops =
     (if apply
      then rbind (mapM known_key p) (\<lambda>p.
           rbind (push_drive_operation_result
                    (gdb_delete_up_tree (grove d) db p k stop_path_height (grovedb_operations_batch ops)) ops)
             (\<lambda>(deletions, ops).
                Inr (case deletions of Some os \<Rightarrow> ops @ map GroveOperation os | None \<Rightarrow> ops)))
      else Inr ops)"

section \<open>Applying a batch\<close>

definition add_insert_empty_tree_with_flags ::
    "varint_ops \<Rightarrow> path \<Rightarrow> bytes \<Rightarrow> storage_flags option \<Rightarrow> batch \<Rightarrow> batch" where
  "add_insert_empty_tree_with_flags V p k storage_flags batch =
     push (insert_run_op p k (Tree None (map_to_some_element_flags V storage_flags))) batch"

definition jit_error :: "string \<Rightarrow> grove_error" where
  "jit_error s = JustInTimeElementFlagsClientError s"

text \<open>The flags of an updated element, given what the update cost.\<close>

definition replace_flags :: "element_flags \<Rightarrow> element_flags \<Rightarrow> grove_error + (bool \<times> element_flags)" where
  "replace_flags new_flags combined_flags =
     (if combined_flags = new_flags then Inr (False, new_flags) else Inr (True, combined_flags))"

definition element_flags_update :: "'db drive \<Rightarrow> flags_update" where
  "element_flags_update d cost old_flags new_flags =
     (if old_flags = None then Inr (False, new_flags)
      else
        rbind (map_err (\<lambda>_. jit_error ''drive did not understand flags of old item being updated'')
                 (from_some_element_flags_ref (varint d) old_flags)) (\<lambda>maybe_old.
        rbind (map_err (\<lambda>_. jit_error ''drive did not understand updated item flag information'')
                 (from_element_flags_ref (varint d) new_flags)) (\<lambda>maybe_new.
        rbind (ok_or (jit_error ''removing flags from an item with flags is not allowed'') maybe_new) (\<lambda>new.
          case snd cost of
            OperationUpdateBiggerSize \<Rightarrow>
              rbind (map_err (\<lambda>_. jit_error ''drive could not combine storage flags (new flags were bigger)'')
                       (optional_combine_added_bytes maybe_old new (added_bytes (fst cost))))
                (\<lambda>combined. replace_flags new_flags (to_element_flags (varint d) combined))
          | OperationUpdateSmallerSize \<Rightarrow>
              rbind (map_err (\<lambda>_. jit_error ''drive could not combine storage flags (new flags were smaller)'')
                       (optional_combine_removed_bytes maybe_old new (removed_bytes (fst cost))))
                (\<lambda>combined. replace_flags new_flags (to_element_flags (varint d) combined))
          | OtherTransition \<Rightarrow> Inr (False, new_flags)))))"

definition split_removal_bytes :: "'db drive \<Rightarrow> split_removal" where
  "split_removal_bytes d flags removed_key_bytes removed_value_bytes =
     rbind (map_err (\<lambda>_. SplitRemovalBytesClientError ''drive did not understand flags of item being updated'')
              (from_element_flags_ref (varint d) flags)) (\<lambda>maybe_flags.
       case maybe_flags of
         None \<Rightarrow> Inr (BasicStorageRemoval removed_key_bytes, BasicStorageRemoval removed_value_bytes)
       | Some f \<Rightarrow> split_storage_removed_bytes (im_insert d) f removed_key_bytes removed_value_bytes)"

definition unsupported_op :: error where
  "unsupported_op = DriveErr (UnsupportedPrivate ''Only Insert and Deletion operations are allowed'')"

text \<open>One operation when batching is disabled; a worst-case operation is only estimated.\<close>

definition apply_single_op :: "'db drive \<Rightarrow> bool \<Rightarrow> 'db \<times> drive_ops \<Rightarrow> grove_op \<Rightarrow> error + ('db \<times> drive_ops)" where
  "apply_single_op d validate st operation =
     (case st of (db, ops) \<Rightarrow>
        (let apply = (op_mode operation = RunOp)
         in case op_op operation of
              Insert e \<Rightarrow> grove_insert d db (PathKeyElement (op_path operation) (op_key operation) e) apply validate ops
            | Delete \<Rightarrow> grove_delete d db (op_path operation) (op_key operation) apply ops
            | DeleteTree \<Rightarrow> grove_delete d db (op_path operation) (op_key operation) apply ops
            | OtherOp \<Rightarrow> Inl unsupported_op))"

definition grove_apply_batch_with_add_costs ::
    "'db drive \<Rightarrow> 'db \<Rightarrow> batch \<Rightarrow> bool \<Rightarrow> drive_ops \<Rightarrow> error + ('db \<times> drive_ops)" where
  "grove_apply_batch_with_add_costs d db batch validate ops =
     (if batch = [] then Inl (DriveErr BatchIsEmpty)
      else if batching_enabled (config d)
      then if batching_consistency_verification (config d) \<and> \<not> gdb_consistent (grove d) batch
           then Inl (DriveErr (GroveDBInsertion ''insertion order error''))
           else push_drive_operation_result
                  (gdb_apply_batch (grove d) db batch validate (element_flags_update d) (split_removal_bytes d)) ops
      else foldM (apply_single_op d validate) (db, ops) batch)"

definition grove_apply_operation :: "'db drive \<Rightarrow> 'db \<Rightarrow> grove_op \<Rightarrow> bool \<Rightarrow> error + 'db" where
  "grove_apply_operation d db operation validate =
     rmap fst (grove_apply_batch_with_add_costs d db [operation] validate [])"

definition grove_apply_batch :: "'db drive \<Rightarrow> 'db \<Rightarrow> batch \<Rightarrow> bool \<Rightarrow> error + 'db" where
  "grove_apply_batch d db batch validate = rmap fst (grove_apply_batch_with_add_costs d db batch validate [])"

definition grove_batch_operations_costs :: "'db drive \<Rightarrow> batch \<Rightarrow> bool \<Rightarrow> drive_ops \<Rightarrow> error + drive_ops" where
  "grove_batch_operations_costs d batch validate ops =
     rmap snd (push_drive_operation_result
       (gdb_worst_case_batch (grove d) batch validate (\<lambda>_ _ new. Inr (False, new))
          (\<lambda>_ _ _. Inl (InternalError ''not implemented''))) ops)"

definition apply_batch_grovedb_operations ::
    "'db drive \<Rightarrow> 'db \<Rightarrow> bool \<Rightarrow> batch \<Rightarrow> drive_ops \<Rightarrow> error + ('db \<times> drive_ops)" where
  "apply_batch_grovedb_operations d db apply batch ops =
     (if apply then grove_apply_batch_with_add_costs d db batch False ops
      else rbind (grove_batch_operations_costs d batch False ops) (\<lambda>ops. Inr (db, ops)))"

fun is_grove_operation :: "drive_operation \<Rightarrow> bool" where
  "is_grove_operation (GroveOperation _) = True"
| "is_grove_operation _ = False"

definition apply_batch_drive_operations ::
    "'db drive \<Rightarrow> 'db \<Rightarrow> bool \<Rightarrow> drive_ops \<Rightarrow> drive_ops \<Rightarrow> error + ('db \<times> drive_ops)" where
  "apply_batch_drive_operations d db apply batch_operations ops =
     rbind (apply_batch_grovedb_operations d db apply (grovedb_operations_batch batch_operations) ops)
       (\<lambda>(db, ops). Inr (db, ops @ filter (\<lambda>o'. \<not> is_grove_operation o') batch_operations))"

definition check_protocol_version :: "u32 \<Rightarrow> bool" where
  "check_protocol_version version = True"

definition check_protocol_version_bytes :: "bytes \<Rightarrow> bool" where
  "check_protocol_version_bytes version_bytes =
     (case u32_from_be version_bytes of None \<Rightarrow> False | Some version \<Rightarrow> check_protocol_version version)"

section \<open>Existence checks\<close>

lemma push_result_eq_Inr [rs_result]:
  "push_drive_operation_result cc ops = Inr (v, ops') \<longleftrightarrow>
     fst cc = Inr v \<and> ops' = ops @ [CalculatedCostOperation (snd cc)]"
  by (cases cc) (auto simp: push_drive_operation_result_def rbind_eq_Inr map_err_eq_Inr)

lemma rmap_fst_push_result [simp]:
  "rmap fst (push_drive_operation_result cc ops) = map_err GroveDB (fst cc)"
  by (cases cc; cases "fst cc") (simp_all add: push_drive_operation_result_def)

lemma has_raw_by_get_spec:
  assumes "grove_contract G"
  shows "has_raw_by_get (gdb_get_raw G db p k) = gdb_has_raw G db p k"
proof (cases "gdb_get_raw G db p k")
  case (Inl err)
  then show ?thesis
    using grove_contract.has_raw_absent[OF assms Inl] grove_contract.has_raw_error[OF assms Inl]
    by (cases err) (simp_all add: has_raw_by_get_def)
next
  case (Inr e)
  then show ?thesis using grove_contract.has_raw_present[OF assms Inr] by (simp add: has_raw_by_get_def)
qed

lemma grove_has_raw_result:
  assumes "grove_contract (grove d)"
  shows "rmap fst (grove_has_raw d db p k None ops) = map_err GroveDB (gdb_has_raw (grove d) db p k)"
  by (simp add: grove_has_raw_def has_raw_by_get_spec[OF assms])

lemma grove_has_raw_ops:
  assumes "grove_contract (grove d)" "grove_has_raw d db p k None ops = Inr (b, ops')"
  shows "gdb_has_raw (grove d) db p k = Inr b \<and> (\<exists>c. ops' = ops @ [CalculatedCostOperation c])"
  using assms(2) grove_has_raw_result[OF assms(1), of db p k ops]
  by (auto simp: map_err_eq_Inr grove_has_raw_def push_result_eq_Inr dest: sym)

text \<open>C28: whether an element exists is answered the same with GroveDB's existence check and with the
  fallback that reads the raw element, and either way a batched conditional insertion adds the insert
  operation to the batch exactly when the element is absent, reports that, and records one cost.\<close>

theorem batch_insert_if_not_exists_correct:
  assumes "grove_contract (grove d)"
    and "batch_insert_if_not_exists d db (PathKeyElement p k e) None ops = Inr (inserted, ops')"
  shows "(inserted \<longleftrightarrow> gdb_has_raw (grove d) db p k = Inr False) \<and>
    grovedb_operations_batch ops' =
      grovedb_operations_batch ops @ (if inserted then [insert_run_op p k e] else []) \<and>
    has_raw_by_get (gdb_get_raw (grove d) db p k) = gdb_has_raw (grove d) db p k"
proof -
  from assms(2) obtain b ops1 where h: "grove_has_raw d db p k None ops = Inr (b, ops1)"
    and res: "inserted = (\<not> b)" "ops' = (if b then ops1 else ops1 @ [for_path_key_element p k e])"
    by (auto simp: batch_insert_known_def rbind_eq_Inr)
  from grove_has_raw_ops[OF assms(1) h] obtain c where "gdb_has_raw (grove d) db p k = Inr b"
    "ops1 = ops @ [CalculatedCostOperation c]" by blast
  then show ?thesis using res has_raw_by_get_spec[OF assms(1), of db p k]
    by (auto simp: grovedb_operations_batch_def List.map_filter_def for_path_key_element_def)
qed

definition reference_drive :: "store drive" where
  "reference_drive = \<lparr>grove = reference_grove, config = drive_config_default, varint = reference_varint,
     im_insert = reference_int_map_insert, im_remove = reference_int_map_remove, total_removed_bytes = (\<lambda>_. 0)\<rparr>"

lemma reference_drive_contract: "grove_contract (grove reference_drive)"
  using ref_grove.grove_contract_axioms by (simp add: reference_drive_def)

theorem batch_insert_if_not_exists_correct_witness:
  "\<exists>ops'. batch_insert_if_not_exists reference_drive [] (PathKeyElement [[1]] [2] (Item [3] None)) None [] =
     Inr (True, ops') \<and> grovedb_operations_batch ops' = [insert_run_op [[1]] [2] (Item [3] None)]"
proof -
  obtain ops' where ops': "batch_insert_if_not_exists reference_drive [] (PathKeyElement [[1]] [2] (Item [3] None)) None [] =
      Inr (True, ops')"
    by (simp add: batch_insert_known_def grove_has_raw_def reference_drive_def drive_config_default_def
        push_drive_operation_result_def reference_grove_def)
  from batch_insert_if_not_exists_correct[OF reference_drive_contract ops'] ops' show ?thesis
    by (simp add: grovedb_operations_batch_def List.map_filter_def)
qed

section \<open>Applied batches leave no unexecuted operation\<close>

definition executed :: "drive_ops \<Rightarrow> bool" where
  "executed ops \<longleftrightarrow> (\<forall>o' \<in> set ops. \<not> is_grove_operation o')"

lemma executed_append [simp]: "executed (xs @ ys) \<longleftrightarrow> executed xs \<and> executed ys"
  by (auto simp: executed_def)

lemma executed_push [rs_result]:
  "push_drive_operation_result cc ops = Inr (v, ops') \<Longrightarrow> executed ops \<Longrightarrow> executed ops'"
  by (simp add: push_result_eq_Inr) (simp add: executed_def)

lemma executed_apply_single_op:
  assumes "apply_single_op d v (db, ops) operation = Inr (db', ops')" "executed ops"
  shows "executed ops'"
  using assms
  by (auto simp: apply_single_op_def Let_def grove_insert_known_def grove_delete_def executed_push
      for_insert_path_key_value_size_def for_delete_path_key_value_size_def for_delete_path_key_value_max_sizes_def
      executed_def[of "[_]"] split: op_kind.splits if_splits)

lemma executed_apply_batch:
  assumes "grove_apply_batch_with_add_costs d db batch v ops = Inr (db', ops')" "executed ops"
  shows "executed ops'"
proof (cases "batching_enabled (config d)")
  case True
  then show ?thesis using assms
    by (auto simp: grove_apply_batch_with_add_costs_def executed_push split: if_splits)
next
  case False
  then have "foldM (apply_single_op d v) (db, ops) batch = Inr (db', ops')"
    using assms(1) by (simp add: grove_apply_batch_with_add_costs_def split: if_splits)
  then have "executed (snd (db', ops'))"
    by (rule foldM_invariant) (use assms(2) in \<open>auto dest: executed_apply_single_op\<close>)
  then show ?thesis by simp
qed

text \<open>C29: applying or estimating a batch of Drive operations never leaves a GroveDB operation among
  the operations whose fees are computed, with batching enabled or not, so the error of converting an
  unexecuted operation to a cost cannot be raised; and an estimation leaves the database as it was.\<close>

theorem applied_operations_executed:
  assumes "apply_batch_drive_operations d db apply batch_operations ops = Inr (db', ops')" "executed ops"
  shows "(\<forall>o' \<in> set ops'. operation_cost o' \<noteq> Inl (corrupted ''grove operations must be executed, not directly transformed to costs'')) \<and>
    (\<not> apply \<longrightarrow> db' = db)"
proof -
  from assms(1) obtain db1 ops1 where
      r: "apply_batch_grovedb_operations d db apply (grovedb_operations_batch batch_operations) ops = Inr (db1, ops1)"
    and ops': "db' = db1" "ops' = ops1 @ filter (\<lambda>o'. \<not> is_grove_operation o') batch_operations"
    by (auto simp: apply_batch_drive_operations_def rbind_eq_Inr)
  have "executed ops1"
  proof (cases "apply")
    case True
    with r assms(2) show ?thesis by (auto simp: apply_batch_grovedb_operations_def dest: executed_apply_batch)
  next
    case False
    with r assms(2) show ?thesis
      by (auto simp: apply_batch_grovedb_operations_def grove_batch_operations_costs_def rbind_eq_Inr rmap_eq_Inr
          dest: executed_push)
  qed
  then have "executed ops'" by (auto simp: ops' executed_def)
  moreover have "operation_cost o' \<noteq> Inl (corrupted ''grove operations must be executed, not directly transformed to costs'')"
    if "\<not> is_grove_operation o'" for o'
    using that by (cases o') (simp_all add: corrupted_def)
  moreover have "\<not> apply \<longrightarrow> db' = db"
    using r ops' by (auto simp: apply_batch_grovedb_operations_def rbind_eq_Inr)
  ultimately show ?thesis by (auto simp: executed_def)
qed

theorem applied_operations_executed_witness:
  "\<exists>db' ops'. apply_batch_drive_operations reference_drive [] False [GroveOperation (insert_run_op [[1]] [2] (Item [3] None))] [] =
     Inr (db', ops') \<and> db' = []"
proof -
  obtain db' ops' where r: "apply_batch_drive_operations reference_drive [] False
      [GroveOperation (insert_run_op [[1]] [2] (Item [3] None))] [] = Inr (db', ops')"
    by (simp add: apply_batch_drive_operations_def apply_batch_grovedb_operations_def grove_batch_operations_costs_def
        push_drive_operation_result_def reference_drive_def reference_grove_def)
  from applied_operations_executed[OF r] r show ?thesis by (simp add: executed_def)
qed

section \<open>Flags of updated elements\<close>

definition flags_readable :: "storage_flags \<Rightarrow> bool" where
  "flags_readable f \<longleftrightarrow> flags_wf f \<and> epoch_index_map f \<noteq> Some [] \<and> type_byte f \<noteq> 3"

lemma flags_read_back:
  "varint_contract V \<Longrightarrow> flags_readable f \<Longrightarrow> deserialize V (serialize V f) = Inr (Some f)"
  by (simp add: flags_readable_def varint_contract.deserialize_serialize)

text \<open>When an element with flags grows, the flags written are those of the old element combined
  with the new ones and the added bytes; the update is reported exactly when they differ from the new
  flags, and it is refused exactly when the flags cannot be combined.\<close>

theorem element_flags_update_bigger:
  assumes "varint_contract (varint d)" "flags_readable a" "flags_readable b"
  shows "element_flags_update d (cost, OperationUpdateBiggerSize) (Some (serialize (varint d) a)) (serialize (varint d) b) =
    (case combine_added_bytes a b (added_bytes cost) of
       Inl _ \<Rightarrow> Inl (jit_error ''drive could not combine storage flags (new flags were bigger)'')
     | Inr c \<Rightarrow> Inr (serialize (varint d) c \<noteq> serialize (varint d) b, serialize (varint d) c))"
  using flags_read_back[OF assms(1,2)] flags_read_back[OF assms(1,3)]
  by (simp add: element_flags_update_def from_some_element_flags_ref_def from_element_flags_ref_def from_slice_def
      optional_combine_added_bytes_def to_element_flags_def replace_flags_def split: sum.splits)

theorem element_flags_update_bigger_witness:
  "\<exists>c. element_flags_update reference_drive (\<lparr>added_bytes = 9, replaced_bytes = 0, removed_bytes = NoStorageRemoval\<rparr>,
       OperationUpdateBiggerSize) (Some (serialize reference_varint (SingleEpoch 1)))
       (serialize reference_varint (SingleEpoch 4)) = Inr (c, serialize reference_varint (MultiEpoch 1 [(4, 9)]))"
proof -
  have v: "varint reference_drive = reference_varint" by (simp add: reference_drive_def)
  have "combine_added_bytes (SingleEpoch 1) (SingleEpoch 4) 9 = Inr (MultiEpoch 1 [(4, 9)])"
    by (simp add: combine_added_bytes_def combine_with_higher_base_epoch_def combine_owner_id_def
        combine_non_base_epoch_bytes_def unwrap_or_default_def multi_epoch_def add_bytes_def bt_get_def bt_remove_def Let_def)
  then show ?thesis
    using element_flags_update_bigger[of reference_drive "SingleEpoch 1" "SingleEpoch 4"
      "\<lparr>added_bytes = 9, replaced_bytes = 0, removed_bytes = NoStorageRemoval\<rparr>", unfolded v]
      ref_varint.varint_contract_axioms
    by (simp add: flags_readable_def flags_wf_def)
qed

section \<open>What an applied batch leaves to read\<close>

lemma grove_apply_batch_batched:
  assumes "grove_apply_batch d db batch v = Inr db'" "batching_enabled (config d)"
  shows "batch \<noteq> [] \<and> (\<exists>c. gdb_apply_batch (grove d) db batch v (element_flags_update d) (split_removal_bytes d) = (Inr db', c))"
proof -
  obtain ops where "grove_apply_batch_with_add_costs d db batch v [] = Inr (db', ops)"
    using assms(1) by (auto simp: grove_apply_batch_def rmap_eq_Inr)
  then have "batch \<noteq> []" "push_drive_operation_result
      (gdb_apply_batch (grove d) db batch v (element_flags_update d) (split_removal_bytes d)) [] = Inr (db', ops)"
    using assms(2) by (simp_all add: grove_apply_batch_with_add_costs_def split: if_splits)
  then show ?thesis by (auto simp: push_result_eq_Inr prod_eq_iff)
qed

lemma applied_batch_read:
  assumes "grove_contract (grove d)" "batching_enabled (config d)" "grove_apply_batch d db batch v = Inr db'"
    and "last_write batch p k = Some (Insert (Item b None))"
    and "\<And>o'. o' \<in> set batch \<Longrightarrow> deletes o' \<Longrightarrow> \<not> disturbs p o'"
  shows "gdb_get (grove d) db' p k = Inr (Item b None)"
  using grove_apply_batch_batched[OF assms(3,2)] grove_contract.apply_read[OF assms(1) _ assms(4,5)] by blast

lemma applied_batch_frame:
  assumes "grove_contract (grove d)" "batching_enabled (config d)" "grove_apply_batch d db batch v = Inr db'"
    and "outside_documents p" "\<And>o'. o' \<in> set batch \<Longrightarrow> \<not> writes p k o' \<and> \<not> disturbs p o'"
  shows "gdb_get (grove d) db' p k = gdb_get (grove d) db p k"
  using grove_apply_batch_batched[OF assms(3,2)] grove_contract.apply_frame[OF assms(1) _ assms(5,4)] by blast

lemma applied_batch_raw:
  assumes "grove_contract (grove d)" "batching_enabled (config d)" "grove_apply_batch d db batch v = Inr db'"
    and "last_write batch p k = Some (Insert e)"
    and "\<And>o'. o' \<in> set batch \<Longrightarrow> deletes o' \<Longrightarrow> \<not> disturbs p o'"
  shows "\<exists>e'. gdb_get_raw (grove d) db' p k = Inr e' \<and> stored_as e e'"
  using grove_apply_batch_batched[OF assms(3,2)] grove_contract.apply_raw[OF assms(1) _ assms(4,5)] by blast

section \<open>Growing batches\<close>

text \<open>\<open>appends Q b b'\<close>: \<open>b'\<close> is \<open>b\<close> followed by operations that satisfy \<open>Q\<close>.\<close>

definition appends :: "(grove_op \<Rightarrow> bool) \<Rightarrow> batch \<Rightarrow> batch \<Rightarrow> bool" where
  "appends Q b b' \<longleftrightarrow> (\<exists>ops. b' = b @ ops \<and> list_all Q ops)"

lemma appends_refl [simp, intro]: "appends Q b b"
  by (simp add: appends_def)

lemma appends_push [intro]: "appends Q b b' \<Longrightarrow> Q o' \<Longrightarrow> appends Q b (push o' b')"
  by (auto simp: appends_def push_def)

lemma appends_push_same [simp]: "appends Q b (push o' b) \<longleftrightarrow> Q o'"
  by (auto simp: appends_def push_def)

lemma appends_trans [trans]: "appends Q a b \<Longrightarrow> appends Q b c \<Longrightarrow> appends Q a c"
  by (auto simp: appends_def)

lemma appends_mono: "appends Q a b \<Longrightarrow> (\<And>o'. Q o' \<Longrightarrow> R o') \<Longrightarrow> appends R a b"
  by (auto simp: appends_def list_all_iff)

lemma foldM_appends:
  assumes "foldM f s xs = Inr s'" "\<And>s x s'. x \<in> set xs \<Longrightarrow> f s x = Inr s' \<Longrightarrow> appends Q (g s) (g s')"
  shows "appends Q (g s) (g s')"
  using assms
proof (induction xs arbitrary: s)
  case Nil
  then show ?case by simp
next
  case (Cons x xs)
  from Cons.prems(1) obtain t where t: "f s x = Inr t" "foldM f t xs = Inr s'" by (auto simp: rbind_eq_Inr)
  have "appends Q (g s) (g t)" using Cons.prems(2)[of x] t(1) by simp
  also have "appends Q (g t) (g s')" by (rule Cons.IH[OF t(2)]) (rule Cons.prems(2), simp_all)
  finally show ?case .
qed

end
