(* ===== verification/Withdrawals.thy ===== *)
theory Withdrawals
  imports GroveOps
begin

text \<open>
  The queue of withdrawal transactions: \<open>drive/src/drive/identity/withdrawal_queue.rs\<close>. Transactions
  are stored under their identifiers; dequeuing takes the first ones in identifier order and deletes
  them in the same step.
\<close>

definition WITHDRAWAL_TRANSACTIONS_COUNTER_ID :: bytes where "WITHDRAWAL_TRANSACTIONS_COUNTER_ID = [0]"
definition WITHDRAWAL_TRANSACTIONS_QUEUE_ID :: bytes where "WITHDRAWAL_TRANSACTIONS_QUEUE_ID = [1]"

definition withdrawals_root :: path where "withdrawals_root = [root_key WithdrawalTransactions]"

definition withdrawals_path :: path where
  "withdrawals_path = [root_key WithdrawalTransactions, WITHDRAWAL_TRANSACTIONS_QUEUE_ID]"

definition add_initial_withdrawal_state_structure_operations :: "batch \<Rightarrow> batch" where
  "add_initial_withdrawal_state_structure_operations batch =
     add_insert_empty_tree withdrawals_root WITHDRAWAL_TRANSACTIONS_QUEUE_ID
      (add_insert withdrawals_root WITHDRAWAL_TRANSACTIONS_COUNTER_ID (Item (u64_to_be 0) None)
       (add_insert_empty_tree [] (root_key WithdrawalTransactions) batch))"

definition fetch_latest_withdrawal_transaction_index :: "'db drive \<Rightarrow> 'db \<Rightarrow> error + u64" where
  "fetch_latest_withdrawal_transaction_index d db =
     (case gdb_get (grove d) db withdrawals_root WITHDRAWAL_TRANSACTIONS_COUNTER_ID of
        Inl (PathKeyNotFound _) \<Rightarrow> Inr 0
      | Inl e \<Rightarrow> Inl (GroveDB e)
      | Inr (Item counter_bytes _) \<Rightarrow>
          ok_or (DriveErr (CorruptedWithdrawalTransactionsCounterInvalidLength
                  ''withdrawal transactions counter must be an u64'')) (u64_from_be counter_bytes)
      | Inr _ \<Rightarrow> Inl (DriveErr (CorruptedWithdrawalTransactionsCounterNotItem
                  ''withdrawal transactions counter must be an item'')))"

definition add_update_withdrawal_index_counter_operation :: "batch \<Rightarrow> bytes \<Rightarrow> batch" where
  "add_update_withdrawal_index_counter_operation batch v =
     add_insert withdrawals_root WITHDRAWAL_TRANSACTIONS_COUNTER_ID (Item v None) batch"

definition add_enqueue_withdrawal_transaction_operations :: "batch \<Rightarrow> (bytes \<times> bytes) list \<Rightarrow> batch" where
  "add_enqueue_withdrawal_transaction_operations batch withdrawals =
     foldl (\<lambda>batch (i, bs). add_insert withdrawals_path i (Item bs None) batch) batch withdrawals"

definition withdrawal_row :: "path \<times> bytes \<times> element \<Rightarrow> error + (bytes \<times> bytes)" where
  "withdrawal_row r =
     (case r of (_, i, e) \<Rightarrow>
        (case e of
           Item bs _ \<Rightarrow> Inr (i, bs)
         | _ \<Rightarrow> Inl (DriveErr (CorruptedWithdrawalNotItem ''withdrawal is not an item''))))"

definition withdrawals_query :: "u16 \<Rightarrow> path_query" where
  "withdrawals_query num_of_transactions =
     \<lparr>pq_path = withdrawals_path, pq_query = insert_item RangeFull query_new,
      pq_limit = Some num_of_transactions, pq_offset = None\<rparr>"

definition delete_withdrawals :: "'db drive \<Rightarrow> 'db \<Rightarrow> (bytes \<times> bytes) list \<Rightarrow> error + drive_ops" where
  "delete_withdrawals d db withdrawals =
     foldM (\<lambda>ops w. batch_delete d db withdrawals_path (fst w) True True ops) [] withdrawals"

definition dequeue_withdrawal_transactions ::
    "'db drive \<Rightarrow> 'db \<Rightarrow> u16 \<Rightarrow> error + ('db \<times> (bytes \<times> bytes) list)" where
  "dequeue_withdrawal_transactions d db num_of_transactions =
     rbind (map_err GroveDB (gdb_query_raw (grove d) db (withdrawals_query num_of_transactions))) (\<lambda>rows.
     rbind (mapM withdrawal_row rows) (\<lambda>withdrawals.
       if withdrawals = [] then Inr (db, withdrawals)
       else
         rbind (delete_withdrawals d db withdrawals) (\<lambda>batch_operations.
         rbind (apply_batch_drive_operations d db True batch_operations []) (\<lambda>(db', _).
           Inr (db', withdrawals)))))"

section \<open>The queue as a map\<close>

text \<open>\<open>queued d db i = Some bs\<close>: the transaction \<open>bs\<close> waits under the identifier \<open>i\<close>.\<close>

definition queued :: "'db drive \<Rightarrow> 'db \<Rightarrow> bytes \<Rightarrow> bytes option" where
  "queued d db i = (case gdb_get (grove d) db withdrawals_path i of Inr (Item bs _) \<Rightarrow> Some bs | _ \<Rightarrow> None)"

lemma queued_Some: "queued d db i = Some bs \<longleftrightarrow> (\<exists>f. gdb_get (grove d) db withdrawals_path i = Inr (Item bs f))"
  by (auto simp: queued_def split: sum.splits element.splits)

lemma outside_withdrawals [simp]: "outside_documents withdrawals_path"
  by (simp add: withdrawals_path_def)

lemma plain_withdrawals_query [simp]: "plain_query (withdrawals_query n)"
  "query_covers (pq_query (withdrawals_query n)) k" "pq_path (withdrawals_query n) = withdrawals_path"
  "pq_limit (withdrawals_query n) = Some n"
  by (simp_all add: withdrawals_query_def plain_query_def insert_item_def query_new_def
      query_new_with_direction_def query_covers_def)

lemma withdrawal_row_eq_Inr:
  "withdrawal_row (p, k, e) = Inr w \<longleftrightarrow> (\<exists>b f. e = Item b f \<and> w = (k, b))"
  by (auto simp: withdrawal_row_def split: element.splits)

lemma withdrawal_rows:
  assumes "mapM withdrawal_row rows = Inr ws"
  shows "map fst ws = map (\<lambda>(p, k, e). k) rows \<and>
    (\<forall>i bs. (i, bs) \<in> set ws \<longleftrightarrow> (\<exists>p f. (p, i, Item bs f) \<in> set rows))"
  using assms
proof (induction rows arbitrary: ws)
  case Nil
  then show ?case by simp
next
  case (Cons r rows)
  obtain p k e where r: "r = (p, k, e)" by (cases r)
  from Cons.prems obtain w ws' where w: "withdrawal_row r = Inr w" "mapM withdrawal_row rows = Inr ws'" "ws = w # ws'"
    by (auto simp: rbind_eq_Inr)
  then obtain b f where "e = Item b f" "w = (k, b)" by (auto simp: r withdrawal_row_eq_Inr)
  with Cons.IH[OF w(2)] show ?case by (auto simp: r w(3))
qed

lemma delete_withdrawals_ops:
  assumes "grove_contract (grove d)" and "\<forall>w \<in> set ws. queued d db (fst w) \<noteq> None"
    and "foldM (\<lambda>ops w. batch_delete d db withdrawals_path (fst w) True True ops) ops ws = Inr ops'"
  shows "grovedb_operations_batch ops' =
    grovedb_operations_batch ops @ map (\<lambda>w. delete_run_op withdrawals_path (fst w)) ws"
  using assms(2,3)
proof (induction ws arbitrary: ops)
  case Nil
  then show ?case by simp
next
  case (Cons w ws)
  then obtain ops1 where ops1: "batch_delete d db withdrawals_path (fst w) True True ops = Inr ops1"
    "foldM (\<lambda>ops w. batch_delete d db withdrawals_path (fst w) True True ops) ops1 ws = Inr ops'"
    by (auto simp: rbind_eq_Inr)
  obtain bs f where get: "gdb_get (grove d) db withdrawals_path (fst w) = Inr (Item bs f)"
    using Cons.prems(1) queued_Some by fastforce
  from ops1(1) obtain r c where r: "gdb_delete_operation (grove d) db withdrawals_path (fst w)
      (grovedb_operations_batch ops) = (Inr r, c)"
    and o: "ops1 = (case r of Some o' \<Rightarrow> ops @ [CalculatedCostOperation c, GroveOperation o']
                    | None \<Rightarrow> ops @ [CalculatedCostOperation c])"
    by (cases "gdb_delete_operation (grove d) db withdrawals_path (fst w) (grovedb_operations_batch ops)")
      (auto simp: batch_delete_def rbind_eq_Inr push_result_eq_Inr split: option.splits)
  have "r = Some (delete_run_op withdrawals_path (fst w))"
    using grove_contract.delete_operation[OF assms(1) r get] by (simp add: delete_run_op_def)
  then have "grovedb_operations_batch ops1 = grovedb_operations_batch ops @ [delete_run_op withdrawals_path (fst w)]"
    by (simp add: o grovedb_operations_batch_def List.map_filter_def)
  with Cons.IH[OF _ ops1(2)] Cons.prems(1) show ?case by simp
qed

lemma apply_batch_drive_operations_batched:
  assumes "apply_batch_drive_operations d db True bops [] = Inr (db', ops')" "batching_enabled (config d)"
  shows "\<exists>c. gdb_apply_batch (grove d) db (grovedb_operations_batch bops) False
      (element_flags_update d) (split_removal_bytes d) = (Inr db', c)"
  using assms
  by (auto simp: apply_batch_drive_operations_def apply_batch_grovedb_operations_def rbind_eq_Inr
      grove_apply_batch_with_add_costs_def push_result_eq_Inr prod_eq_iff split: if_splits)

lemma last_write_deletes:
  "last_write (map (\<lambda>w. delete_run_op p (fst w)) ws) p k = (if k \<in> fst ` set ws then Some Delete else None)"
  by (induction ws rule: rev_induct) (auto simp: last_write_append writes_def delete_run_op_def)

lemma deleted_only:
  assumes G: "grove_contract (grove d)"
    and "\<exists>c. gdb_apply_batch (grove d) db (map (\<lambda>w. delete_run_op withdrawals_path (fst w)) ws) v u sp = (Inr db', c)"
  shows "(\<forall>i bs. (i, bs) \<in> set ws \<longrightarrow> queued d db' i = None) \<and>
    (\<forall>i. i \<notin> fst ` set ws \<longrightarrow> queued d db' i = queued d db i)"
proof -
  let ?ops = "map (\<lambda>w. delete_run_op withdrawals_path (fst w)) ws"
  from assms(2) obtain c where c: "gdb_apply_batch (grove d) db ?ops v u sp = (Inr db', c)" by blast
  have "queued d db' i = None" if "(i, bs) \<in> set ws" for i bs
  proof -
    have "i \<in> fst ` set ws" using that by force
    then have "last_write ?ops withdrawals_path i = Some Delete" by (simp add: last_write_deletes)
    from grove_contract.apply_delete[OF G c this] show ?thesis by (auto simp: queued_def)
  qed
  moreover have "queued d db' i = queued d db i" if "i \<notin> fst ` set ws" for i
  proof -
    have "gdb_get (grove d) db' withdrawals_path i = gdb_get (grove d) db withdrawals_path i"
      by (rule grove_contract.apply_frame[OF G c])
        (use that in \<open>force simp: writes_def disturbs_def delete_run_op_def\<close>)+
    then show ?thesis by (simp add: queued_def)
  qed
  ultimately show ?thesis by blast
qed

text \<open>Dequeuing applies the deletion of the returned transactions, which were waiting.\<close>

lemma dequeue_batch:
  assumes G: "grove_contract (grove d)" and batching: "batching_enabled (config d)"
    and r: "dequeue_withdrawal_transactions d db n = Inr (db', ws)"
  shows "(\<forall>w \<in> set ws. queued d db (fst w) = Some (snd w)) \<and>
    (ws = [] \<and> db' = db \<or>
     (\<exists>c. gdb_apply_batch (grove d) db (map (\<lambda>w. delete_run_op withdrawals_path (fst w)) ws) False
        (element_flags_update d) (split_removal_bytes d) = (Inr db', c)))"
proof -
  from r obtain rows where rows: "gdb_query_raw (grove d) db (withdrawals_query n) = Inr rows"
    and ws: "mapM withdrawal_row rows = Inr ws"
    and rest: "(if ws = [] then Inr (db, ws) else rbind (delete_withdrawals d db ws) (\<lambda>bops.
      rbind (apply_batch_drive_operations d db True bops []) (\<lambda>(db', _). Inr (db', ws)))) = Inr (db', ws)"
    by (auto simp: dequeue_withdrawal_transactions_def rbind_eq_Inr map_err_eq_Inr split: if_splits)
  have "p = withdrawals_path" if "(p, k, e) \<in> set rows" for p k e
    using grove_contract.query_plain[OF G rows plain_withdrawals_query(1) that] by simp
  then have stored: "queued d db i = Some bs" if "(i, bs) \<in> set ws" for i bs
    using that withdrawal_rows[OF ws] grove_contract.query_stored[OF G rows plain_withdrawals_query(1)] by (metis queued_Some)
  show ?thesis
  proof (cases "ws = []")
    case True
    with rest show ?thesis by simp
  next
    case False
    with rest obtain bops ops' where bops: "delete_withdrawals d db ws = Inr bops"
      "apply_batch_drive_operations d db True bops [] = Inr (db', ops')"
      by (auto simp: rbind_eq_Inr)
    have "grovedb_operations_batch bops = map (\<lambda>w. delete_run_op withdrawals_path (fst w)) ws"
      using delete_withdrawals_ops[OF G _ bops(1)[unfolded delete_withdrawals_def]] stored
      by (force simp: grovedb_operations_batch_def List.map_filter_def)
    with apply_batch_drive_operations_batched[OF bops(2) batching] stored show ?thesis by auto
  qed
qed

text \<open>Nothing outside the queue changes.\<close>

lemma dequeue_frame:
  assumes "grove_contract (grove d)" "batching_enabled (config d)" "dequeue_withdrawal_transactions d db n = Inr (db', ws)"
    and "\<not> prefix withdrawals_path p" "outside_documents p"
  shows "gdb_get (grove d) db' p k = gdb_get (grove d) db p k"
  using dequeue_batch[OF assms(1-3)]
proof (elim conjE disjE exE)
  fix c assume c: "gdb_apply_batch (grove d) db (map (\<lambda>w. delete_run_op withdrawals_path (fst w)) ws) False
        (element_flags_update d) (split_removal_bytes d) = (Inr db', c)"
  show ?thesis
    by (rule grove_contract.apply_frame[OF assms(1) c])
      (use assms(4,5) in \<open>auto simp: writes_def disturbs_def delete_run_op_def dest: append_prefixD\<close>)
qed simp

text \<open>C23: dequeuing returns the waiting transactions in the order of their identifiers, at most as many
  as asked for and never skipping one, and takes exactly those out of the queue: each is delivered
  once, and the others wait unchanged.\<close>

theorem dequeue_withdrawals_in_order:
  assumes G: "grove_contract (grove d)" and batching: "batching_enabled (config d)"
    and r: "dequeue_withdrawal_transactions d db n = Inr (db', ws)"
  shows "sorted_wrt (<) (map fst ws) \<and> length ws \<le> unat n \<and>
    (\<forall>i bs. (i, bs) \<in> set ws \<longrightarrow> queued d db i = Some bs \<and> queued d db' i = None) \<and>
    (\<forall>i. i \<notin> fst ` set ws \<longrightarrow> queued d db' i = queued d db i) \<and>
    (\<forall>i j. queued d db i \<noteq> None \<and> j \<in> fst ` set ws \<and> i < j \<longrightarrow> i \<in> fst ` set ws) \<and>
    (\<forall>i. queued d db i \<noteq> None \<and> length ws < unat n \<longrightarrow> i \<in> fst ` set ws)"
proof -
  from r obtain rows where rows: "gdb_query_raw (grove d) db (withdrawals_query n) = Inr rows"
    and ws: "mapM withdrawal_row rows = Inr ws"
    by (auto simp: dequeue_withdrawal_transactions_def rbind_eq_Inr map_err_eq_Inr split: if_splits)
  note wr = withdrawal_rows[OF ws]
  note Q = plain_withdrawals_query
  have path: "p = withdrawals_path" if "(p, k, e) \<in> set rows" for p k e
    using grove_contract.query_plain[OF G rows Q(1) that] by simp
  have stored: "queued d db i = Some bs" if "(i, bs) \<in> set ws" for i bs
    using that wr grove_contract.query_stored[OF G rows Q(1)] path by (metis queued_Some)
  have member: "i \<in> fst ` set ws" if "(withdrawals_path, i, Item bs f) \<in> set rows" for i bs f
    using that wr by (force simp: image_iff)
  have row: "\<exists>p e. (p, j, e) \<in> set rows" if "j \<in> fst ` set ws" for j
    using that wr by force
  have below: "i \<in> fst ` set ws" if "queued d db i \<noteq> None" "j \<in> fst ` set ws" "i < j" for i j
  proof -
    note t = that
    obtain p e where j: "(p, j, e) \<in> set rows" using row[OF t(2)] by blast
    obtain bs f where "gdb_get (grove d) db withdrawals_path i = Inr (Item bs f)"
      using t(1) queued_Some by fastforce
    then show ?thesis using grove_contract.query_prefix[OF G rows Q(1) j t(3) Q(2)] member
      by simp
  qed
  have all: "i \<in> fst ` set ws" if "queued d db i \<noteq> None" "length ws < unat n" for i
  proof -
    note t = that
    obtain bs f where "gdb_get (grove d) db withdrawals_path i = Inr (Item bs f)"
      using t(1) queued_Some by fastforce
    moreover have "length rows < unat n" using t(2) mapM_length[OF ws] by simp
    ultimately have "(withdrawals_path, i, Item bs f) \<in> set rows"
      using grove_contract.query_complete[OF G rows Q(1) Q(4) _ Q(2)] by simp
    then show ?thesis by (rule member)
  qed
  have "(\<forall>i bs. (i, bs) \<in> set ws \<longrightarrow> queued d db' i = None) \<and>
      (\<forall>i. i \<notin> fst ` set ws \<longrightarrow> queued d db' i = queued d db i)"
    using dequeue_batch[OF assms] deleted_only[OF G, of db ws False "element_flags_update d" "split_removal_bytes d" db'] by auto
  then show ?thesis
    using wr grove_contract.query_sorted[OF G rows Q(1)] grove_contract.query_limit[OF G rows Q(4)]
      mapM_length[OF ws] stored below all by metis
qed

definition withdrawal_store :: store where
  "withdrawal_store = [((withdrawals_path, [2]), Item [22] None), ((withdrawals_path, [1]), Item [11] None)]"

theorem dequeue_withdrawals_in_order_witness:
  "\<exists>db' ws. dequeue_withdrawal_transactions reference_drive withdrawal_store 5 = Inr (db', ws) \<and>
     sorted_wrt (<) (map fst ws) \<and> queued reference_drive db' [2] = None"
proof -
  have q: "store_query withdrawal_store (withdrawals_query 5) =
      [(withdrawals_path, [1], Item [11] None), (withdrawals_path, [2], Item [22] None)]"
    by (simp add: store_query_plain store_rows_def List.map_filter_def store_select_def store_keys_def
        withdrawal_store_def withdrawals_query_def query_setters
        query_covers_def plain_query_def)
  obtain db' ws where r: "dequeue_withdrawal_transactions reference_drive withdrawal_store 5 = Inr (db', ws)"
    and ws: "ws = [([1], [11]), ([2], [22])]"
    by (simp add: dequeue_withdrawal_transactions_def q reference_drive_def reference_grove_def withdrawal_row_def
        delete_withdrawals_def batch_delete_def push_drive_operation_result_def apply_batch_drive_operations_def
        apply_batch_grovedb_operations_def grove_apply_batch_with_add_costs_def grovedb_operations_batch_def
        List.map_filter_def drive_config_default_def)
  have "batching_enabled (config reference_drive)" by (simp add: reference_drive_def drive_config_default_def)
  from dequeue_withdrawals_in_order[OF reference_drive_contract this r] r show ?thesis by (auto simp: ws)
qed

end

