(* ===== verification/Genesis.thy ===== *)
theory Genesis
  imports Withdrawals
begin

text \<open>
  Genesis: \<open>drive/src/drive/genesis_time\<close> and \<open>drive/src/drive/initialization.rs\<close>. The genesis time is
  read through a cache; the initial state structure is one batch. It is shown that everything later
  blocks read of the initial state is there.
\<close>

section \<open>Genesis time\<close>

definition KEY_GENESIS_TIME :: bytes where "KEY_GENESIS_TIME = [103]"

type_synonym genesis_cache = "u64 option"

definition fetch_genesis_time :: "'db drive \<Rightarrow> 'db \<Rightarrow> error + u64 option" where
  "fetch_genesis_time d db =
     rbind (case gdb_get (grove d) db pools_path KEY_GENESIS_TIME of
              Inr e \<Rightarrow> Inr (Some e)
            | Inl (PathKeyNotFound _) \<Rightarrow> Inr None
            | Inl e \<Rightarrow> Inl (GroveDB e))
       (\<lambda>el. case el of
          Some (Item item _) \<Rightarrow>
            rbind (ok_or (DriveErr (CorruptedGenesisTimeInvalidItemLength ''could not convert slice to array''))
                     (u64_from_be item)) (\<lambda>genesis_time. Inr (Some genesis_time))
        | _ \<Rightarrow> Inl (DriveErr CorruptedGenesisTimeNotItem))"

definition get_genesis_time :: "'db drive \<Rightarrow> 'db \<Rightarrow> genesis_cache \<Rightarrow> error + (u64 option \<times> genesis_cache)" where
  "get_genesis_time d db cache =
     (case cache of
        None \<Rightarrow>
          rbind (fetch_genesis_time d db) (\<lambda>t.
            Inr (t, case t of Some genesis_time_ms \<Rightarrow> Some genesis_time_ms | None \<Rightarrow> cache))
      | Some genesis_time_ms \<Rightarrow> Inr (Some genesis_time_ms, cache))"

definition update_genesis_time_operation :: "u64 \<Rightarrow> grove_op" where
  "update_genesis_time_operation genesis_time_ms =
     insert_run_op pools_path KEY_GENESIS_TIME (Item (u64_to_be genesis_time_ms) None)"

text \<open>The cache is written before the operation is applied, and stays written when that fails.\<close>

definition init_genesis_time :: "'db drive \<Rightarrow> 'db \<Rightarrow> u64 \<Rightarrow> genesis_cache \<times> (error + 'db)" where
  "init_genesis_time d db genesis_time_ms =
     (Some genesis_time_ms, grove_apply_operation d db (update_genesis_time_operation genesis_time_ms) False)"

lemma genesis_time_written:
  assumes "grove_contract (grove d)" "batching_enabled (config d)"
    and "init_genesis_time d db t = (cache, Inr db')"
  shows "cache = Some t" "fetch_genesis_time d db' = Inr (Some t)"
proof -
  let ?op = "update_genesis_time_operation t"
  show "cache = Some t" using assms(3) by (simp add: init_genesis_time_def)
  have "grove_apply_batch d db [?op] False = Inr db'"
    using assms(3) by (simp add: init_genesis_time_def grove_apply_operation_def grove_apply_batch_def)
  then have "gdb_get (grove d) db' pools_path KEY_GENESIS_TIME = Inr (Item (u64_to_be t) None)"
    by (intro applied_batch_read[OF assms(1,2)])
      (auto simp: update_genesis_time_operation_def insert_run_op_def writes_def deletes_def)
  then show "fetch_genesis_time d db' = Inr (Some t)" by (simp add: fetch_genesis_time_def)
qed

lemma genesis_time_frame:
  assumes "grove_contract (grove d)" "batching_enabled (config d)" "init_genesis_time d db t = (cache, Inr db')"
    and "k \<noteq> KEY_GENESIS_TIME"
  shows "gdb_get (grove d) db' pools_path k = gdb_get (grove d) db pools_path k"
proof -
  have "grove_apply_batch d db [update_genesis_time_operation t] False = Inr db'"
    using assms(3) by (simp add: init_genesis_time_def grove_apply_operation_def grove_apply_batch_def)
  then show ?thesis
    by (rule applied_batch_frame[OF assms(1,2)])
      (use assms(4) in \<open>auto simp: update_genesis_time_operation_def insert_run_op_def writes_def disturbs_def pools_path_def\<close>)
qed

text \<open>The genesis time that was initialized is the one read back, from the cache and, by a node
  that starts with an empty cache, from the database.\<close>

theorem genesis_time_persistent:
  assumes "grove_contract (grove d)" "batching_enabled (config d)"
    and "init_genesis_time d db t = (cache, Inr db')"
  shows "get_genesis_time d db' cache = Inr (Some t, Some t) \<and> get_genesis_time d db' None = Inr (Some t, Some t)"
  using genesis_time_written[OF assms] by (simp add: get_genesis_time_def)

theorem genesis_time_persistent_witness:
  "\<exists>db'. snd (init_genesis_time reference_drive [] 77) = Inr db' \<and>
     get_genesis_time reference_drive db' None = Inr (Some 77, Some 77)"
proof -
  obtain db' where r: "init_genesis_time reference_drive [] 77 = (Some 77, Inr db')"
    by (simp add: init_genesis_time_def grove_apply_operation_def grove_apply_batch_with_add_costs_def
        push_drive_operation_result_def reference_drive_def reference_grove_def drive_config_default_def)
  have "batching_enabled (config reference_drive)" by (simp add: reference_drive_def drive_config_default_def)
  from genesis_time_persistent[OF reference_drive_contract this r] r show ?thesis by simp
qed

text \<open>The genesis time is never reported as absent: when it was not initialized the lookup is an
  error, although the reader maps a missing key to \<open>None\<close> and its callers handle that case.\<close>

theorem genesis_time_never_none:
  "fetch_genesis_time d db \<noteq> Inr None \<and> get_genesis_time d db cache \<noteq> Inr (None, cache') \<and>
   (gdb_get (grove d) db pools_path KEY_GENESIS_TIME = Inl (PathKeyNotFound s) \<longrightarrow>
      get_genesis_time d db None = Inl (DriveErr CorruptedGenesisTimeNotItem))"
  by (auto simp: fetch_genesis_time_def get_genesis_time_def rbind_eq_Inr split: option.splits element.splits)

theorem genesis_time_never_none_witness:
  "fetch_genesis_time reference_drive [] \<noteq> Inr None \<and>
   get_genesis_time reference_drive [] None = Inl (DriveErr CorruptedGenesisTimeNotItem)"
  using genesis_time_never_none[of reference_drive "[]" None None "''key not found''"]
  by (simp add: reference_drive_def reference_grove_def store_get_def)

section \<open>The initial state\<close>

definition add_init_contracts_structure_operations :: "batch \<Rightarrow> batch" where
  "add_init_contracts_structure_operations batch = add_insert_empty_tree [] (root_key ContractDocuments) batch"

definition initial_state_batch :: "error + batch" where
  "initial_state_batch =
     add_create_fee_pool_trees_operations
       (add_initial_withdrawal_state_structure_operations
         (add_insert_empty_tree [] (root_key Misc)
           (add_insert_empty_tree [] (root_key Pools)
             (add_insert_empty_tree [] (root_key SpentAssetLockTransactions)
               (add_insert_empty_tree [] (root_key PublicKeyHashesToIdentities)
                 (add_init_contracts_structure_operations
                   (add_insert_empty_tree [] (root_key Identities) [])))))))"

definition create_initial_state_structure :: "'db drive \<Rightarrow> 'db \<Rightarrow> error + 'db" where
  "create_initial_state_structure d db =
     rbind initial_state_batch (\<lambda>batch. grove_apply_batch d db batch False)"

definition empty_epoch_ops :: "u16 \<Rightarrow> batch" where
  "empty_epoch_ops i =
     [insert_run_op pools_path (key (epoch_at i)) empty_tree,
      update_storage_credits_for_distribution_operation (epoch_at i) 0]"

lemma init_empty_epochs_ops:
  "\<forall>i \<in> set is. storable i \<Longrightarrow> init_empty_epochs is b = Inr (b @ concat (map empty_epoch_ops is))"
  by (induction "is" arbitrary: b)
    (simp_all add: epoch_new_storable add_init_empty_operations_def add_init_empty_without_storage_operations_def
      add_insert_empty_tree_def push_def empty_epoch_ops_def)

text \<open>The epochs of the first fifty years.\<close>

definition initial_epochs :: "u16 list" where
  "initial_epochs = map word_of_nat [0 ..< 1000]"

lemma initial_epochs_storable: "i \<in> set initial_epochs \<Longrightarrow> storable i"
  by (auto simp: initial_epochs_def unat_of_nat)

lemma initial_epochs_iff: "i \<in> set initial_epochs \<longleftrightarrow> unat i < 1000"
proof
  show "unat i < 1000" if "i \<in> set initial_epochs"
    using that by (auto simp: initial_epochs_def unat_of_nat)
  show "i \<in> set initial_epochs" if "unat i < 1000"
    using that by (auto simp: initial_epochs_def image_iff intro!: bexI[of _ "unat i"])
qed

definition structure_ops :: batch where
  "structure_ops =
     [insert_run_op [] (root_key Identities) empty_tree,
      insert_run_op [] (root_key ContractDocuments) empty_tree,
      insert_run_op [] (root_key PublicKeyHashesToIdentities) empty_tree,
      insert_run_op [] (root_key SpentAssetLockTransactions) empty_tree,
      insert_run_op [] (root_key Pools) empty_tree,
      insert_run_op [] (root_key Misc) empty_tree,
      insert_run_op [] (root_key WithdrawalTransactions) empty_tree,
      insert_run_op withdrawals_root WITHDRAWAL_TRANSACTIONS_COUNTER_ID (Item (u64_to_be 0) None),
      insert_run_op withdrawals_root WITHDRAWAL_TRANSACTIONS_QUEUE_ID empty_tree,
      update_storage_fee_distribution_pool_operation 0,
      update_unpaid_epoch_index_operation 0]"

lemma initial_state_batch_eq: "initial_state_batch = Inr (structure_ops @ concat (map empty_epoch_ops initial_epochs))"
  using init_empty_epochs_ops[of initial_epochs] initial_epochs_storable
  by (simp add: initial_state_batch_def add_create_fee_pool_trees_operations_def initial_epochs_def epoch_constants
      add_init_contracts_structure_operations_def add_initial_withdrawal_state_structure_operations_def
      add_insert_empty_tree_def add_insert_def push_def structure_ops_def)

lemma initial_batch_cases:
  assumes "o' \<in> set (structure_ops @ concat (map empty_epoch_ops initial_epochs))"
  shows "o' \<in> set structure_ops \<or> (\<exists>i. storable i \<and> o' \<in> set (empty_epoch_ops i))"
  using assms initial_epochs_storable by auto

lemmas op_defs =
  insert_run_op_def update_storage_fee_distribution_pool_operation_def update_unpaid_epoch_index_operation_def
  update_storage_credits_for_distribution_operation_def

lemma epoch_key_no_short_key [simp]: "key (epoch_at i) \<noteq> [a]" "[a] \<noteq> key (epoch_at i)"
  by (metis length_epoch_key length_Cons list.size(3) numeral_2_eq_2 old.nat.inject zero_neq_one One_nat_def)+

lemma initial_batch_inserts:
  "o' \<in> set (structure_ops @ concat (map empty_epoch_ops initial_epochs)) \<Longrightarrow> \<not> deletes o'"
  by (auto dest!: initial_batch_cases simp: structure_ops_def empty_epoch_ops_def op_defs deletes_def)

lemma initial_state_read:
  assumes "grove_contract (grove d)" "batching_enabled (config d)" "create_initial_state_structure d db = Inr db'"
    and "\<exists>o' \<in> set (structure_ops @ concat (map empty_epoch_ops initial_epochs)). writes p k o'"
    and "\<And>o'. o' \<in> set structure_ops \<Longrightarrow> writes p k o' \<Longrightarrow> op_op o' = Insert (Item b None)"
    and "\<And>o' i. storable i \<Longrightarrow> o' \<in> set (empty_epoch_ops i) \<Longrightarrow> writes p k o' \<Longrightarrow> op_op o' = Insert (Item b None)"
  shows "gdb_get (grove d) db' p k = Inr (Item b None)"
proof (rule applied_batch_read[OF assms(1,2)])
  show "grove_apply_batch d db (structure_ops @ concat (map empty_epoch_ops initial_epochs)) False = Inr db'"
    using assms(3) by (simp add: create_initial_state_structure_def initial_state_batch_eq)
  show "last_write (structure_ops @ concat (map empty_epoch_ops initial_epochs)) p k = Some (Insert (Item b None))"
    using assms(5,6) initial_batch_cases by (intro last_write_unique[OF assms(4)]) blast
qed (use initial_batch_inserts in blast)

lemma initial_unpaid_index:
  assumes "grove_contract (grove d)" "batching_enabled (config d)" "create_initial_state_structure d db = Inr db'"
  shows "get_unpaid_epoch_index (grove d) db' = Inr 0"
proof -
  have "gdb_get (grove d) db' pools_path KEY_UNPAID_EPOCH_INDEX = Inr (Item (u16_to_be 0) None)"
    by (rule initial_state_read[OF assms]) (auto simp: structure_ops_def empty_epoch_ops_def op_defs writes_def key_constants
        pools_path_def get_path_def withdrawals_root_def root_key_def)
  then show ?thesis by (simp add: get_unpaid_epoch_index_def read_item_def)
qed

text \<open>After the initial state structure was created, every value block processing reads of it is
  there: the oldest unpaid epoch is the genesis epoch, the storage fee pool is empty, each of the first
  thousand epochs has an empty storage pool, and the withdrawal counter is zero.\<close>

theorem initial_state_complete:
  assumes "grove_contract (grove d)" "batching_enabled (config d)" "create_initial_state_structure d db = Inr db'"
  shows "get_unpaid_epoch_index (grove d) db' = Inr 0 \<and>
    get_aggregate_storage_fees_from_distribution_pool (grove d) db' = Inr 0 \<and>
    (\<forall>i. unat i < 1000 \<longrightarrow> get_epoch_storage_credits_for_distribution (grove d) db' (epoch_at i) = Inr 0) \<and>
    fetch_latest_withdrawal_transaction_index d db' = Inr 0"
proof -
  note read = initial_state_read[OF assms]
  have "get_unpaid_epoch_index (grove d) db' = Inr 0" by (rule initial_unpaid_index[OF assms])
  moreover have "gdb_get (grove d) db' pools_path KEY_STORAGE_FEE_POOL = Inr (Item (u64_to_be 0) None)"
    by (rule read) (auto simp: structure_ops_def empty_epoch_ops_def op_defs writes_def key_constants pools_path_def
        get_path_def withdrawals_root_def root_key_def u64_item_def)
  moreover have "gdb_get (grove d) db' withdrawals_root WITHDRAWAL_TRANSACTIONS_COUNTER_ID = Inr (Item (u64_to_be 0) None)"
    by (rule read) (auto simp: structure_ops_def empty_epoch_ops_def op_defs writes_def key_constants pools_path_def
        get_path_def withdrawals_root_def root_key_def WITHDRAWAL_TRANSACTIONS_COUNTER_ID_def
        WITHDRAWAL_TRANSACTIONS_QUEUE_ID_def)
  moreover have "gdb_get (grove d) db' (get_path (epoch_at i)) KEY_POOL_STORAGE_FEES = Inr (Item (u64_to_be 0) None)"
    if "unat i < 1000" for i
  proof (rule read)
    have "update_storage_credits_for_distribution_operation (epoch_at i) 0 \<in> set (empty_epoch_ops i)"
      by (simp add: empty_epoch_ops_def)
    then show "\<exists>o' \<in> set (structure_ops @ concat (map empty_epoch_ops initial_epochs)).
        writes (get_path (epoch_at i)) KEY_POOL_STORAGE_FEES o'"
      using that unfolding initial_epochs_iff [symmetric]
      by (intro bexI[of _ "update_storage_credits_for_distribution_operation (epoch_at i) 0"])
        (auto simp: op_defs writes_def)
  qed (auto simp: structure_ops_def empty_epoch_ops_def op_defs writes_def pools_path_def get_path_def
      withdrawals_root_def u64_item_def)
  ultimately show ?thesis
    by (simp add: read_item_def get_aggregate_storage_fees_from_distribution_pool_def
        get_epoch_storage_credits_for_distribution_def fetch_latest_withdrawal_transaction_index_def)
qed

theorem initial_state_complete_witness:
  "\<exists>db'. create_initial_state_structure reference_drive [] = Inr db' \<and>
     get_unpaid_epoch_index (grove reference_drive) db' = Inr 0 \<and>
     get_epoch_storage_credits_for_distribution (grove reference_drive) db' (epoch_at 999) = Inr 0"
proof -
  have ne: "structure_ops \<noteq> []" by (simp add: structure_ops_def)
  obtain db' where r: "create_initial_state_structure reference_drive [] = Inr db'"
    using ne by (simp add: create_initial_state_structure_def initial_state_batch_eq grove_apply_batch_def
        grove_apply_batch_with_add_costs_def push_drive_operation_result_def reference_drive_def
        reference_grove_def drive_config_default_def)
  have "batching_enabled (config reference_drive)" by (simp add: reference_drive_def drive_config_default_def)
  from initial_state_complete[OF reference_drive_contract this r] r show ?thesis by simp
qed

end
