(* ===== verification/Identity.thy ===== *)
theory Identity
  imports Genesis
begin

text \<open>
  Identities in Drive: \<open>drive/src/drive/identity/mod.rs\<close>. The serialization of an identity
  (\<open>Identity::to_buffer\<close> and \<open>from_buffer\<close>, CBOR) is an argument of the operations, \<open>identity_codec\<close>
  its contract. An identity is stored as an item under its own subtree.
\<close>

record 'k identity =
  identity_protocol_version :: u32
  identity_id :: id32
  public_keys :: 'k
  balance :: u64
  revision :: u64

record 'k identity_ops =
  to_buffer :: "'k identity \<Rightarrow> bytes option"
  from_buffer :: "bytes \<Rightarrow> 'k identity option"

locale identity_codec =
  fixes C :: "'k identity_ops"
  assumes from_to_buffer: "to_buffer C i = Some bs \<Longrightarrow> from_buffer C bs = Some i"

text \<open>A reference codec: identities without keys in fixed fields.\<close>

definition reference_identity_ops :: "unit identity_ops" where
  "reference_identity_ops = \<lparr>
     to_buffer = (\<lambda>i. if length (identity_id i) = 32
        then Some (identity_id i @ u32_to_be (identity_protocol_version i) @ u64_to_be (balance i) @ u64_to_be (revision i))
        else None),
     from_buffer = (\<lambda>bs.
        (case (u32_from_be (slice bs 32 36), u64_from_be (slice bs 36 44), u64_from_be (slice bs 44 52)) of
           (Some v, Some b, Some r) \<Rightarrow>
             Some \<lparr>identity_protocol_version = v, identity_id = slice bs 0 32, public_keys = (), balance = b, revision = r\<rparr>
         | _ \<Rightarrow> None))\<rparr>"

interpretation ref_identity: identity_codec reference_identity_ops
  by unfold_locales (auto simp: reference_identity_ops_def slice_def split: if_splits)

definition IDENTITY_KEY :: bytes where "IDENTITY_KEY = [0]"

definition identities_path :: path where "identities_path = [root_key Identities]"

definition identity_path :: "bytes \<Rightarrow> path" where
  "identity_path i = [root_key Identities, i]"

definition add_insert_identity_operations ::
    "'k identity_ops \<Rightarrow> varint_ops \<Rightarrow> 'k identity \<Rightarrow> storage_flags option \<Rightarrow> batch \<Rightarrow> error + batch" where
  "add_insert_identity_operations C V ident storage_flags batch =
     rbind (ok_or (IdentityErr (IdentitySerialization ''failed to serialize identity to CBOR'')) (to_buffer C ident))
       (\<lambda>identity_bytes.
          Inr (add_insert (identity_path (identity_id ident)) IDENTITY_KEY
                 (Item identity_bytes (map_to_some_element_flags V storage_flags))
                 (add_insert_empty_tree_with_flags V identities_path (identity_id ident) storage_flags batch)))"

definition insert_identity :: "'k identity_ops \<Rightarrow> 'db drive \<Rightarrow> 'db \<Rightarrow> 'k identity \<Rightarrow> epoch \<Rightarrow> bool \<Rightarrow>
    storage_flags option \<Rightarrow> error + ('db \<times> fee_result)" where
  "insert_identity C d db ident epoch apply storage_flags =
     rbind (add_insert_identity_operations C (varint d) ident storage_flags []) (\<lambda>batch.
     rbind (apply_batch_grovedb_operations d db apply batch []) (\<lambda>(db', drive_operations).
     rbind (calculate_fee (im_insert d) (im_remove d) (total_removed_bytes d) None (Some drive_operations) epoch)
       (\<lambda>fee. Inr (db', fee))))"

definition decode_identity ::
    "'k identity_ops \<Rightarrow> varint_ops \<Rightarrow> element \<Rightarrow> error + ('k identity \<times> storage_flags option)" where
  "decode_identity C V el =
     (case el of
        Item identity_cbor flags \<Rightarrow>
          rbind (ok_or (IdentityErr (IdentitySerialization ''failed to de-serialize identity from CBOR''))
                   (from_buffer C identity_cbor)) (\<lambda>ident.
          rbind (from_some_element_flags_ref V flags) (\<lambda>f. Inr (ident, f)))
      | _ \<Rightarrow> Inl (DriveErr (CorruptedIdentityNotItem ''identity must be an item'')))"

definition fetch_identity ::
    "'k identity_ops \<Rightarrow> 'db drive \<Rightarrow> 'db \<Rightarrow> bytes \<Rightarrow> error + ('k identity \<times> storage_flags option)" where
  "fetch_identity C d db i =
     rbind (map_err GroveDB (gdb_get (grove d) db (identity_path i) IDENTITY_KEY)) (decode_identity C (varint d))"

definition fetch_identities_with_flags ::
    "'k identity_ops \<Rightarrow> 'db drive \<Rightarrow> 'db \<Rightarrow> id32 list \<Rightarrow> error + ('k identity \<times> storage_flags option) list" where
  "fetch_identities_with_flags C d db ids =
     rbind (map_err GroveDB (gdb_query_raw (grove d) db
        \<lparr>pq_path = identities_path,
         pq_query = foldl (\<lambda>q i. insert_item (Key i) q) (set_subquery_key IDENTITY_KEY query_new) ids,
         pq_limit = None, pq_offset = None\<rparr>))
       (\<lambda>rows. mapM (\<lambda>(_, _, el). decode_identity C (varint d) el) rows)"

definition fetch_identities ::
    "'k identity_ops \<Rightarrow> 'db drive \<Rightarrow> 'db \<Rightarrow> id32 list \<Rightarrow> error + 'k identity list" where
  "fetch_identities C d db ids = rmap (map fst) (fetch_identities_with_flags C d db ids)"

section \<open>Insertion and lookup\<close>

lemma map_to_some_None [simp]: "map_to_some_element_flags V None = None"
  by (simp add: map_to_some_element_flags_def)

text \<open>An identity that was inserted is the one fetched under its identifier; every other identity
  is fetched as before.\<close>

theorem identity_inserted_fetched:
  assumes "identity_codec C" "grove_contract (grove d)" "batching_enabled (config d)"
    and ins: "insert_identity C d db ident e True None = Inr (db', fee)"
  shows "fetch_identity C d db' (identity_id ident) = Inr (ident, None) \<and>
    (\<forall>i. i \<noteq> identity_id ident \<longrightarrow> fetch_identity C d db' i = fetch_identity C d db i)"
proof -
  from ins obtain bs where bs: "to_buffer C ident = Some bs"
    and app: "\<exists>ops. grove_apply_batch_with_add_costs d db
      [insert_run_op identities_path (identity_id ident) (Tree None None),
       insert_run_op (identity_path (identity_id ident)) IDENTITY_KEY (Item bs None)] False [] = Inr (db', ops)"
    by (auto simp: insert_identity_def add_insert_identity_operations_def rbind_eq_Inr ok_or_eq_Inr
        apply_batch_grovedb_operations_def add_insert_def add_insert_empty_tree_with_flags_def push_def)
  let ?b = "[insert_run_op identities_path (identity_id ident) (Tree None None),
       insert_run_op (identity_path (identity_id ident)) IDENTITY_KEY (Item bs None)]"
  have b: "grove_apply_batch d db ?b False = Inr db'" using app by (auto simp: grove_apply_batch_def)
  have "gdb_get (grove d) db' (identity_path (identity_id ident)) IDENTITY_KEY = Inr (Item bs None)"
    by (rule applied_batch_read[OF assms(2,3) b])
      (auto simp: insert_run_op_def writes_def last_write_def deletes_def)
  moreover have "gdb_get (grove d) db' (identity_path i) IDENTITY_KEY = gdb_get (grove d) db (identity_path i) IDENTITY_KEY"
    if "i \<noteq> identity_id ident" for i
    by (rule applied_batch_frame[OF assms(2,3) b])
      (use that in \<open>auto simp: insert_run_op_def writes_def disturbs_def identity_path_def identities_path_def root_key_def\<close>)
  ultimately show ?thesis
    using identity_codec.from_to_buffer[OF assms(1) bs]
    by (simp add: fetch_identity_def decode_identity_def from_some_element_flags_ref_def)
qed

theorem identity_inserted_fetched_witness:
  "\<exists>db' fee. insert_identity reference_identity_ops reference_drive []
      \<lparr>identity_protocol_version = 1, identity_id = replicate 32 9, public_keys = (), balance = 55, revision = 0\<rparr>
      (epoch_at 0) True None = Inr (db', fee) \<and>
    fetch_identity reference_identity_ops reference_drive db' (replicate 32 9) =
      Inr (\<lparr>identity_protocol_version = 1, identity_id = replicate 32 9, public_keys = (), balance = 55, revision = 0\<rparr>, None)"
proof -
  let ?i = "\<lparr>identity_protocol_version = 1, identity_id = replicate 32 9, public_keys = (), balance = 55, revision = 0\<rparr>"
  obtain bs where bs: "to_buffer reference_identity_ops ?i = Some bs"
    by (simp add: reference_identity_ops_def)
  have fee: "\<exists>f. calculate_fee reference_int_map_insert reference_int_map_remove (\<lambda>_. 0) None
      (Some [CalculatedCostOperation no_cost]) (epoch_at 0) = Inr f"
    by (simp add: calculate_fee_def consume_to_fees_def operation_fee_def storage_fee_of_cost_def ephemeral_cost_def
        byte_cost_def no_cost_def checked_mul_def checked_add_def and_then_def split_removed_def checked_add_assign_def
        fee_result_default_def removed_bytes_checked_add_assign_def)
  then obtain db' f where r: "insert_identity reference_identity_ops reference_drive [] ?i (epoch_at 0) True None = Inr (db', f)"
    by (auto simp: insert_identity_def add_insert_identity_operations_def bs apply_batch_grovedb_operations_def
        grove_apply_batch_with_add_costs_def push_drive_operation_result_def reference_drive_def reference_grove_def
        drive_config_default_def add_insert_def push_def add_insert_empty_tree_with_flags_def)
  have "batching_enabled (config reference_drive)" by (simp add: reference_drive_def drive_config_default_def)
  from identity_inserted_fetched[OF ref_identity.identity_codec_axioms reference_drive_contract this r] r
  show ?thesis by simp
qed

end
