(* ===== verification/Decimal.thy ===== *)
theory Decimal
  imports Errors
begin

text \<open>
  The ABCI application computes epochs and fee shares with \<open>rust_decimal\<close>, a dependency whose
  sources are not part of the repository. Definitions that use it take the record of its operations
  as an argument; \<open>decimal_arith\<close> states what the crate documents: a value is a 96-bit integer
  scaled by a power of ten between 0 and 28, an operation returns the exact result when that is such
  a value and otherwise one within a unit of the last available place, and it panics (\<open>None\<close>) when
  the result cannot be stored. Rounding decimals over the rationals satisfy the contract.
\<close>

record 'd decimal_ops =
  dec_from_u64 :: "u64 \<Rightarrow> 'd"
  dec_try_from_u64 :: "u64 \<Rightarrow> 'd option"
  dec_from_i64 :: "int \<Rightarrow> 'd"
  dec_lit :: "int \<Rightarrow> nat \<Rightarrow> 'd"
  dec_add :: "'d \<Rightarrow> 'd \<Rightarrow> 'd option"
  dec_sub :: "'d \<Rightarrow> 'd \<Rightarrow> 'd option"
  dec_mul :: "'d \<Rightarrow> 'd \<Rightarrow> 'd option"
  dec_div :: "'d \<Rightarrow> 'd \<Rightarrow> 'd option"
  dec_floor :: "'d \<Rightarrow> 'd"
  dec_gt :: "'d \<Rightarrow> 'd \<Rightarrow> bool"
  dec_eq :: "'d \<Rightarrow> 'd \<Rightarrow> bool"
  dec_to_u64 :: "'d \<Rightarrow> u64 option"
  dec_to_u16 :: "'d \<Rightarrow> u16 option"

section \<open>The contract\<close>

definition max_mantissa :: rat where
  "max_mantissa = 2 ^ 96 - 1"

definition representable :: "rat \<Rightarrow> bool" where
  "representable q \<longleftrightarrow> (\<exists>m s. \<bar>m\<bar> < 2 ^ 96 \<and> s \<le> 28 \<and> q = of_int m / 10 ^ s)"

text \<open>\<open>dec_result val r q\<close>: \<open>r\<close> is an admissible outcome for the exact result \<open>q\<close>.\<close>

definition dec_result :: "('d \<Rightarrow> rat) \<Rightarrow> 'd option \<Rightarrow> rat \<Rightarrow> bool" where
  "dec_result val r q \<longleftrightarrow>
     (\<forall>z. r = Some z \<longrightarrow> representable (val z)) \<and>
     (representable q \<longrightarrow> (\<exists>z. r = Some z \<and> val z = q)) \<and>
     (\<forall>s \<le> 28. \<bar>q\<bar> * 10 ^ s \<le> max_mantissa \<longrightarrow> (\<exists>z. r = Some z \<and> \<bar>val z - q\<bar> \<le> 1 / 10 ^ s))"

locale decimal_arith =
  fixes D :: "'d decimal_ops" and val :: "'d \<Rightarrow> rat"
  assumes from_u64: "val (dec_from_u64 D n) = of_nat (unat n)"
    and try_from_u64: "dec_try_from_u64 D n = Some (dec_from_u64 D n)"
    and from_i64: "- (2 ^ 63) \<le> i \<Longrightarrow> i < 2 ^ 63 \<Longrightarrow> val (dec_from_i64 D i) = of_int i"
    and lit: "representable (of_int m / 10 ^ s) \<Longrightarrow> val (dec_lit D m s) = of_int m / 10 ^ s"
    and add: "dec_result val (dec_add D x y) (val x + val y)"
    and sub: "dec_result val (dec_sub D x y) (val x - val y)"
    and mul: "dec_result val (dec_mul D x y) (val x * val y)"
    and div: "val y \<noteq> 0 \<Longrightarrow> dec_result val (dec_div D x y) (val x / val y)"
    and div_by_zero: "val y = 0 \<Longrightarrow> dec_div D x y = None"
    and floor: "val (dec_floor D x) = of_int \<lfloor>val x\<rfloor>"
    and gt: "dec_gt D x y \<longleftrightarrow> val x > val y"
    and eq: "dec_eq D x y \<longleftrightarrow> val x = val y"
    and to_u64: "val x = of_int i \<Longrightarrow>
      dec_to_u64 D x = (if 0 \<le> i \<and> i < 2 ^ 64 then Some (word_of_int i) else None)"
    and to_u16: "val x = of_int i \<Longrightarrow>
      dec_to_u16 D x = (if 0 \<le> i \<and> i < 2 ^ 16 then Some (word_of_int i) else None)"

lemma representable_int: "\<bar>i\<bar> < 2 ^ 96 \<Longrightarrow> representable (of_int i)"
  unfolding representable_def by (rule exI[of _ i], rule exI[of _ 0]) simp

lemma representableI: "\<bar>m\<bar> < 2 ^ 96 \<Longrightarrow> s \<le> 28 \<Longrightarrow> q = of_int m / 10 ^ s \<Longrightarrow> representable q"
  by (auto simp: representable_def)

lemma representable_nat: "n < 2 ^ 96 \<Longrightarrow> representable (of_nat n)"
  using representable_int[of "int n"] by simp

lemma dec_result_exact: "dec_result val r q \<Longrightarrow> representable q \<Longrightarrow> \<exists>z. r = Some z \<and> val z = q"
  by (auto simp: dec_result_def)

lemma dec_result_close:
  "dec_result val r q \<Longrightarrow> s \<le> 28 \<Longrightarrow> \<bar>q\<bar> * 10 ^ s \<le> max_mantissa \<Longrightarrow>
   \<exists>z. r = Some z \<and> \<bar>val z - q\<bar> \<le> 1 / 10 ^ s \<and> representable (val z)"
  unfolding dec_result_def by (metis option.inject)

text \<open>
  A quotient of bounded naturals is computed closely enough that its floor is exact: either it is an
  integer, and representable, or its distance to the next integer exceeds the rounding error.
\<close>

lemma floor_close:
  fixes q z :: rat
  assumes "\<bar>z - q\<bar> < e" and "of_int \<lfloor>q\<rfloor> + e \<le> q" and "q + e \<le> of_int \<lfloor>q\<rfloor> + 1"
  shows "\<lfloor>z\<rfloor> = \<lfloor>q\<rfloor>"
proof (rule floor_unique)
  show "of_int \<lfloor>q\<rfloor> \<le> z" using assms by linarith
  show "z < of_int \<lfloor>q\<rfloor> + 1" using assms by linarith
qed

lemma floor_frac_bounds:
  fixes a :: int and b :: nat
  assumes "0 < b" and "\<not> int b dvd a"
  shows "of_int \<lfloor>of_int a / (of_nat b :: rat)\<rfloor> + 1 / of_nat b \<le> of_int a / (of_nat b :: rat)"
    and "of_int a / (of_nat b :: rat) + 1 / of_nat b \<le> of_int \<lfloor>of_int a / (of_nat b :: rat)\<rfloor> + 1"
proof -
  have fl: "\<lfloor>of_int a / (of_nat b :: rat)\<rfloor> = a div int b"
    using floor_divide_of_int_eq[of a "int b", where 'a = rat] by simp
  have nz: "a mod int b \<noteq> 0" using assms(2) by (simp add: dvd_eq_mod_eq_0)
  have r: "0 < a mod int b" "a mod int b \<le> int b - 1"
    using nz assms(1) pos_mod_sign[of "int b" a] pos_mod_bound[of "int b" a] by linarith+
  have "(of_int (int b * (a div int b) + a mod int b) :: rat)
      = of_nat b * of_int (a div int b) + of_int (a mod int b)"
    by (simp only: of_int_add of_int_mult of_int_of_nat_eq)
  then have a: "(of_int a :: rat) = of_nat b * of_int (a div int b) + of_int (a mod int b)"
    by (simp only: mult_div_mod_eq)
  have "(of_int 1 :: rat) \<le> of_int (a mod int b)"
    unfolding of_int_le_iff using r(1) by linarith
  moreover have "(of_int (a mod int b) :: rat) \<le> of_int (int b - 1)"
    unfolding of_int_le_iff by (rule r(2))
  ultimately have m: "(1 :: rat) \<le> of_int (a mod int b)" "(of_int (a mod int b) :: rat) \<le> of_nat b - 1"
    by simp_all
  have q: "of_int a / (of_nat b :: rat) = of_int (a div int b) + of_int (a mod int b) / of_nat b"
    using assms(1) by (simp add: a add_divide_distrib)
  have "1 / of_nat b \<le> of_int (a mod int b) / (of_nat b :: rat)"
    using m(1) by (simp add: divide_right_mono)
  then show "of_int \<lfloor>of_int a / (of_nat b :: rat)\<rfloor> + 1 / of_nat b \<le> of_int a / (of_nat b :: rat)"
    unfolding fl unfolding q by simp
  have "of_int (a mod int b) / (of_nat b :: rat) \<le> (of_nat b - 1) / of_nat b"
    using m(2) by (simp add: divide_right_mono)
  also have "\<dots> = 1 - 1 / of_nat b" using assms(1) by (simp add: diff_divide_distrib)
  finally show "of_int a / (of_nat b :: rat) + 1 / of_nat b \<le> of_int \<lfloor>of_int a / (of_nat b :: rat)\<rfloor> + 1"
    unfolding fl unfolding q by simp
qed

context decimal_arith
begin

lemma div_floor:
  assumes x: "val x = of_int a" and y: "val y = of_nat b" and b: "0 < b"
    and s: "s \<le> 28" "b < 10 ^ s" "\<bar>of_int a / of_nat b :: rat\<bar> * 10 ^ s \<le> max_mantissa"
    and a: "\<bar>a\<bar> < 2 ^ 96"
  shows "\<exists>z. dec_div D x y = Some z \<and> \<lfloor>val z\<rfloor> = a div int b"
proof -
  let ?q = "of_int a / of_nat b :: rat"
  have r: "dec_result val (dec_div D x y) ?q"
    using div[of y x] x y b by simp
  have fl: "\<lfloor>?q\<rfloor> = a div int b"
    using floor_divide_of_int_eq[of a "int b", where 'a = rat] by simp
  show ?thesis
  proof (cases "int b dvd a")
    case True
    then obtain k where k: "a = int b * k" by auto
    then have "?q = of_int k" using b by simp
    moreover have "\<bar>k\<bar> \<le> \<bar>a\<bar>" using b by (simp add: k abs_mult mult_le_cancel_right1)
    then have "representable (of_int k)" using a by (intro representable_int) linarith
    ultimately obtain z where "dec_div D x y = Some z" "val z = ?q"
      using dec_result_exact[OF r] by auto
    with fl show ?thesis by auto
  next
    case False
    obtain z where z: "dec_div D x y = Some z" "\<bar>val z - ?q\<bar> \<le> 1 / 10 ^ s"
      using dec_result_close[OF r s(1,3)] by blast
    have "(of_nat b :: rat) < of_nat (10 ^ s)" unfolding of_nat_less_iff by (rule s(2))
    then have "1 / 10 ^ s < 1 / (of_nat b :: rat)" using b by (simp add: field_simps)
    then have "\<lfloor>val z\<rfloor> = \<lfloor>?q\<rfloor>"
      using floor_close[of "val z" ?q "1 / of_nat b"] z(2) floor_frac_bounds[OF b False] by linarith
    with z(1) fl show ?thesis by auto
  qed
qed

end

section \<open>Reference decimals\<close>

text \<open>
  Rationals rounded to the largest scale at which the mantissa fits, the behaviour of the crate up
  to the choice of the rounding mode.
\<close>

fun dec_fit :: "nat \<Rightarrow> rat \<Rightarrow> rat option" where
  "dec_fit 0 q = (if \<bar>round q\<bar> < 2 ^ 96 then Some (of_int (round q)) else None)"
| "dec_fit (Suc s) q =
     (if \<bar>round (q * 10 ^ Suc s)\<bar> < 2 ^ 96 then Some (of_int (round (q * 10 ^ Suc s)) / 10 ^ Suc s)
      else dec_fit s q)"

definition reference_decimal :: "rat decimal_ops" where
  "reference_decimal = \<lparr>
     dec_from_u64 = (\<lambda>n. of_nat (unat n)),
     dec_try_from_u64 = (\<lambda>n. Some (of_nat (unat n))),
     dec_from_i64 = of_int,
     dec_lit = (\<lambda>m s. of_int m / 10 ^ s),
     dec_add = (\<lambda>x y. dec_fit 28 (x + y)),
     dec_sub = (\<lambda>x y. dec_fit 28 (x - y)),
     dec_mul = (\<lambda>x y. dec_fit 28 (x * y)),
     dec_div = (\<lambda>x y. if y = 0 then None else dec_fit 28 (x / y)),
     dec_floor = (\<lambda>x. of_int \<lfloor>x\<rfloor>),
     dec_gt = (\<lambda>x y. y < x),
     dec_eq = (\<lambda>x y. x = y),
     dec_to_u64 = (\<lambda>x. if 0 \<le> \<lfloor>x\<rfloor> \<and> \<lfloor>x\<rfloor> < 2 ^ 64 then Some (word_of_int \<lfloor>x\<rfloor>) else None),
     dec_to_u16 = (\<lambda>x. if 0 \<le> \<lfloor>x\<rfloor> \<and> \<lfloor>x\<rfloor> < 2 ^ 16 then Some (word_of_int \<lfloor>x\<rfloor>) else None)\<rparr>"

lemma dec_fit_cases:
  assumes "s \<le> n" "\<bar>round (q * 10 ^ s)\<bar> < 2 ^ 96"
  shows "\<exists>t. s \<le> t \<and> t \<le> n \<and> \<bar>round (q * 10 ^ t)\<bar> < 2 ^ 96 \<and>
    dec_fit n q = Some (of_int (round (q * 10 ^ t)) / 10 ^ t)"
  using assms
proof (induction n)
  case 0
  then show ?case by (intro exI[of _ 0]) simp
next
  case (Suc n)
  show ?case
  proof (cases "\<bar>round (q * 10 ^ Suc n)\<bar> < 2 ^ 96")
    case True
    then show ?thesis using Suc.prems(1) by (intro exI[of _ "Suc n"]) (simp only: dec_fit.simps if_True simp_thms le_refl)
  next
    case False
    with Suc.prems have "s \<le> n" by (metis le_Suc_eq)
    then obtain t where "s \<le> t" "t \<le> n" "\<bar>round (q * 10 ^ t)\<bar> < 2 ^ 96"
      "dec_fit n q = Some (of_int (round (q * 10 ^ t)) / 10 ^ t)"
      using Suc by blast
    with False show ?thesis by (intro exI[of _ t]) (simp only: dec_fit.simps if_False le_SucI simp_thms)
  qed
qed

lemma dec_fit_representable: "n \<le> 28 \<Longrightarrow> dec_fit n q = Some z \<Longrightarrow> representable z"
proof (induction n)
  case 0
  then have r: "\<bar>round q\<bar> < 2 ^ 96" "z = of_int (round q)" by (simp_all split: if_splits)
  show ?case unfolding r(2) by (rule representable_int[OF r(1)])
next
  case (Suc n)
  show ?case
  proof (cases "\<bar>round (q * 10 ^ Suc n)\<bar> < 2 ^ 96")
    case True
    with Suc.prems have "z = of_int (round (q * 10 ^ Suc n)) / 10 ^ Suc n"
      by (simp only: dec_fit.simps if_True option.inject)
    from representableI[OF True Suc.prems(1) this] show ?thesis .
  next
    case False
    then have "dec_fit n q = Some z" using Suc.prems(2) by (simp only: dec_fit.simps if_False)
    then show ?thesis using Suc.prems(1) by (intro Suc.IH) simp_all
  qed
qed

lemma round_mantissa:
  assumes "\<bar>x :: rat\<bar> \<le> max_mantissa"
  shows "\<bar>round x\<bar> < 2 ^ 96"
proof -
  have "\<bar>of_int (round x) - x\<bar> \<le> 1 / 2" by (rule of_int_round_abs_le)
  then have "\<bar>of_int (round x) :: rat\<bar> < max_mantissa + 1" using assms by linarith
  then have "(of_int \<bar>round x\<bar> :: rat) < of_int (2 ^ 96)" by (simp add: max_mantissa_def)
  then show ?thesis unfolding of_int_less_iff .
qed

lemma dec_fit_result: "dec_result id (dec_fit 28 q) q"
proof -
  have exact: "\<exists>z. dec_fit 28 q = Some z \<and> z = q" if "representable q"
  proof -
    from that obtain m s where ms: "\<bar>m\<bar> < 2 ^ 96" "s \<le> 28" "q = of_int m / 10 ^ s"
      by (auto simp: representable_def)
    have "q * 10 ^ s = of_int m" by (simp add: ms(3))
    then have "\<bar>round (q * 10 ^ s)\<bar> < 2 ^ 96" using ms(1) by (simp only: round_of_int)
    then obtain t where t: "s \<le> t" "dec_fit 28 q = Some (of_int (round (q * 10 ^ t)) / 10 ^ t)"
      using dec_fit_cases[OF ms(2)] by blast
    have "(10 :: rat) ^ t = 10 ^ s * 10 ^ (t - s)" using t(1) by (simp flip: power_add)
    then have "q * 10 ^ t = of_int (m * 10 ^ (t - s))" by (simp add: ms(3))
    then have "of_int (round (q * 10 ^ t)) = q * 10 ^ t" by (simp only: round_of_int)
    with t(2) show ?thesis by simp
  qed
  have close: "\<exists>z. dec_fit 28 q = Some z \<and> \<bar>z - q\<bar> \<le> 1 / 10 ^ s"
    if s: "s \<le> 28" and q: "\<bar>q\<bar> * 10 ^ s \<le> max_mantissa" for s
  proof -
    have "\<bar>q * 10 ^ s\<bar> \<le> max_mantissa" using q by (simp add: abs_mult)
    from dec_fit_cases[OF s round_mantissa[OF this]]
    obtain t where t: "s \<le> t" "dec_fit 28 q = Some (of_int (round (q * 10 ^ t)) / 10 ^ t)" by blast
    have p: "(0 :: rat) < 10 ^ t" "(10 :: rat) ^ s \<le> 10 ^ t" using t(1) by (simp_all add: power_increasing)
    have "\<bar>of_int (round (q * 10 ^ t)) - q * 10 ^ t\<bar> \<le> (1 :: rat)"
      using of_int_round_abs_le[of "q * 10 ^ t"] by linarith
    then have "\<bar>of_int (round (q * 10 ^ t)) / 10 ^ t - q\<bar> * 10 ^ t \<le> 1"
      using p(1) by (simp add: abs_mult_pos' algebra_simps flip: abs_mult_pos)
    then have "\<bar>of_int (round (q * 10 ^ t)) / 10 ^ t - q\<bar> \<le> 1 / 10 ^ t"
      using p(1) by (simp add: field_simps)
    also have "\<dots> \<le> 1 / 10 ^ s" using p by (simp add: frac_le)
    finally show ?thesis using t(2) by blast
  qed
  show ?thesis
    unfolding dec_result_def using exact close dec_fit_representable[of 28 q] by auto
qed

interpretation ref_dec: decimal_arith reference_decimal id
proof (unfold_locales, goal_cases)
  case (8 y x)
  then show ?case using dec_fit_result by (simp add: reference_decimal_def)
qed (simp_all add: reference_decimal_def dec_fit_result)

end
