(* ===== verification/EpochInfo.thy ===== *)
theory EpochInfo
  imports Decimal
begin

text \<open>
  The epoch a block belongs to: \<open>dash-abci/src/execution/fee_pools/epoch.rs\<close> and the block values
  of \<open>dash-abci/src/block.rs\<close>. The index is computed with decimals; it is shown to be the integer
  quotient of the time since genesis, whatever decimals satisfying the contract are used.
\<close>

record block_begin_request =
  req_block_height :: u64
  req_block_time_ms :: u64
  req_previous_block_time_ms :: "u64 option"
  req_proposer_pro_tx_hash :: id32
  req_validator_set_quorum_hash :: id32

record block_info =
  block_height :: u64
  block_time_ms :: u64
  previous_block_time_ms :: "u64 option"
  proposer_pro_tx_hash :: id32

definition from_block_begin_request :: "block_begin_request \<Rightarrow> block_info" where
  "from_block_begin_request r =
     \<lparr>block_height = req_block_height r, block_time_ms = req_block_time_ms r,
      previous_block_time_ms = req_previous_block_time_ms r,
      proposer_pro_tx_hash = req_proposer_pro_tx_hash r\<rparr>"

record epoch_info =
  current_epoch_index :: u16
  previous_epoch_index :: "u16 option"
  is_epoch_change :: bool

record block_execution_context =
  ctx_block_info :: block_info
  ctx_epoch_info :: epoch_info

definition EPOCH_CHANGE_TIME_MS :: u64 where "EPOCH_CHANGE_TIME_MS = 1576800000"

definition epoch_info_default :: epoch_info where
  "epoch_info_default = \<lparr>current_epoch_index = 0, previous_epoch_index = None, is_epoch_change = True\<rparr>"

text \<open>An operator of \<open>Decimal\<close> that panics leaves the function.\<close>

definition or_panic :: "'a option \<Rightarrow> abci_error + 'a" where
  "or_panic x = ok_or (AbciPanic ''decimal operation'') x"

definition conversion_error :: abci_error where
  "conversion_error = Execution (Conversion ''can't convert epochs index from Decimal to u16'')"

definition epoch_index_dec :: "'d decimal_ops \<Rightarrow> 'd \<Rightarrow> 'd \<Rightarrow> 'd \<Rightarrow> abci_error + 'd" where
  "epoch_index_dec D time genesis_time epoch_change_time =
     rbind (or_panic (dec_sub D time genesis_time)) (\<lambda>since.
     rbind (or_panic (dec_div D since epoch_change_time)) (\<lambda>i. Inr (dec_floor D i)))"

definition calculate :: "'d decimal_ops \<Rightarrow> u64 \<Rightarrow> u64 \<Rightarrow> u64 option \<Rightarrow> abci_error + epoch_info" where
  "calculate D genesis_ms block_ms previous_ms =
     (case previous_ms of
        None \<Rightarrow> Inr epoch_info_default
      | Some previous_block_time \<Rightarrow>
          (let epoch_change_time = dec_from_u64 D EPOCH_CHANGE_TIME_MS;
               block_time = dec_from_u64 D block_ms;
               genesis_time = dec_from_u64 D genesis_ms;
               previous_block_time = dec_from_u64 D previous_block_time
           in rbind (epoch_index_dec D previous_block_time genesis_time epoch_change_time)
                (\<lambda>previous_epoch_index_floored.
              rbind (epoch_index_dec D block_time genesis_time epoch_change_time)
                (\<lambda>epoch_index_floored.
              let is_change = dec_gt D epoch_index_floored previous_epoch_index_floored
              in rbind (ok_or conversion_error (dec_to_u16 D epoch_index_floored)) (\<lambda>current.
                 rbind (if \<not> dec_eq D epoch_index_floored previous_epoch_index_floored
                        then rmap Some (ok_or conversion_error (dec_to_u16 D previous_epoch_index_floored))
                        else Inr None) (\<lambda>previous.
                 Inr \<lparr>current_epoch_index = current, previous_epoch_index = previous,
                      is_epoch_change = is_change\<rparr>))))))"

definition from_genesis_time_and_block_info ::
    "'d decimal_ops \<Rightarrow> u64 \<Rightarrow> block_info \<Rightarrow> abci_error + epoch_info" where
  "from_genesis_time_and_block_info D genesis_time_ms b =
     calculate D genesis_time_ms (block_time_ms b) (previous_block_time_ms b)"

section \<open>The index is the integer quotient\<close>

definition epoch_of :: "u64 \<Rightarrow> u64 \<Rightarrow> int" where
  "epoch_of genesis_time_ms time_ms = (uint time_ms - uint genesis_time_ms) div 1576800000"

text \<open>The specification \<open>calculate\<close> implements, on integers.\<close>

definition epoch_info_spec :: "u64 \<Rightarrow> u64 \<Rightarrow> u64 option \<Rightarrow> abci_error + epoch_info" where
  "epoch_info_spec genesis_ms block_ms previous =
     (case previous of
        None \<Rightarrow> Inr epoch_info_default
      | Some previous_time \<Rightarrow>
          (let c = epoch_of genesis_ms block_ms;
               p = epoch_of genesis_ms previous_time
           in if 0 \<le> c \<and> c < 2 ^ 16 \<and> (c = p \<or> 0 \<le> p \<and> p < 2 ^ 16)
              then Inr \<lparr>current_epoch_index = word_of_int c,
                        previous_epoch_index = (if c = p then None else Some (word_of_int p)),
                        is_epoch_change = p < c\<rparr>
              else Inl conversion_error))"

lemma uint_u64_bound: "0 \<le> uint (w :: u64) \<and> uint w < 2 ^ 64"
  using uint_lt2p[of w] by simp

context decimal_arith
begin

lemma epoch_index_dec_ok:
  "\<exists>z. epoch_index_dec D (dec_from_u64 D t) (dec_from_u64 D g) (dec_from_u64 D EPOCH_CHANGE_TIME_MS) = Inr z \<and>
       val z = of_int (epoch_of g t)"
proof -
  let ?a = "uint t - uint g"
  have v: "val (dec_from_u64 D t) - val (dec_from_u64 D g) = of_int ?a"
    by (simp add: from_u64)
  have a: "\<bar>?a\<bar> < 2 ^ 64" using uint_u64_bound[of t] uint_u64_bound[of g] by linarith
  then have a96: "\<bar>?a\<bar> < 2 ^ 96" by simp
  obtain s where s: "dec_sub D (dec_from_u64 D t) (dec_from_u64 D g) = Some s" "val s = of_int ?a"
    using dec_result_exact[OF sub[of "dec_from_u64 D t" "dec_from_u64 D g"]] representable_int[OF a96]
    unfolding v by blast
  have e: "val (dec_from_u64 D EPOCH_CHANGE_TIME_MS) = of_nat 1576800000"
    by (simp add: from_u64 EPOCH_CHANGE_TIME_MS_def)
  have q: "\<bar>of_int ?a / of_nat 1576800000 :: rat\<bar> * 10 ^ 10 \<le> max_mantissa"
  proof -
    have "\<bar>of_int ?a :: rat\<bar> < of_int (2 ^ 64)"
      unfolding of_int_abs [symmetric] of_int_less_iff by (rule a)
    then show ?thesis by (simp add: max_mantissa_def field_simps)
  qed
  obtain z where "dec_div D s (dec_from_u64 D EPOCH_CHANGE_TIME_MS) = Some z"
      "\<lfloor>val z\<rfloor> = ?a div int 1576800000"
    using div_floor[OF s(2) e _ _ _ q a96] by auto
  then show ?thesis
    by (intro exI[of _ "dec_floor D z"])
      (simp add: epoch_index_dec_def or_panic_def s(1) floor epoch_of_def)
qed

lemma calculate_spec: "calculate D g t p = epoch_info_spec g t p"
proof (cases p)
  case None
  then show ?thesis by (simp add: calculate_def epoch_info_spec_def)
next
  case (Some t')
  obtain x where x: "epoch_index_dec D (dec_from_u64 D t') (dec_from_u64 D g)
      (dec_from_u64 D EPOCH_CHANGE_TIME_MS) = Inr x" "val x = of_int (epoch_of g t')"
    using epoch_index_dec_ok by blast
  obtain y where y: "epoch_index_dec D (dec_from_u64 D t) (dec_from_u64 D g)
      (dec_from_u64 D EPOCH_CHANGE_TIME_MS) = Inr y" "val y = of_int (epoch_of g t)"
    using epoch_index_dec_ok by blast
  show ?thesis
    by (simp add: calculate_def epoch_info_spec_def Some x(1) y(1) Let_def gt eq x(2) y(2)
        to_u16[OF x(2)] to_u16[OF y(2)])
qed

end

text \<open>C6: with decimals that keep their documented precision, the epoch information of a block is
  exactly the integer quotient of the time since genesis by the length of an epoch, for the block
  and for its predecessor: the first block is the change into epoch 0, an epoch change is flagged
  iff the quotient grew, the previous index is given iff the quotients differ, and an index that
  is negative or beyond 16 bits is the conversion error and never a wrapped index.\<close>

theorem epoch_info_calculated:
  assumes "decimal_arith D val"
  shows "calculate D genesis_ms block_ms previous_ms =
    epoch_info_spec genesis_ms block_ms previous_ms"
  by (rule decimal_arith.calculate_spec[OF assms])

theorem epoch_info_calculated_witness:
  "calculate reference_decimal 1000 (1000 + 2 * 1576800000) (Some (999 + 2 * 1576800000)) =
     Inr \<lparr>current_epoch_index = 2, previous_epoch_index = Some 1, is_epoch_change = True\<rparr> \<and>
   calculate reference_decimal 1000 999 (Some 1000) = Inl conversion_error"
  unfolding epoch_info_calculated[OF ref_dec.decimal_arith_axioms]
  by (simp add: epoch_info_spec_def epoch_of_def)

end
