(* ===== verification/StoragePool.thy ===== *)
theory StoragePool
  imports Epochs EpochInfo
begin

text \<open>
  Distribution of the storage fee pool over the epochs of the next fifty years:
  \<open>dash-abci/src/execution/fee_pools/distribute_storage_pool.rs\<close> and the distribution table of
  \<open>constants.rs\<close>. Every epoch receives the floor of its exact share, and no credit is lost: what
  is not handed out is returned as leftover, less than one credit per epoch.
\<close>

text \<open>The ratios in units of \<open>0.00001\<close>.\<close>

definition table_mantissas :: "int list" where
  "table_mantissas =
    [5000, 4800, 4600, 4400, 4200, 4000, 3850, 3700, 3550, 3400,
     3250, 3100, 2950, 2850, 2750, 2650, 2550, 2450, 2350, 2250,
     2150, 2050, 1950, 1875, 1800, 1725, 1650, 1575, 1500, 1425,
     1350, 1275, 1200, 1125, 1050, 975, 900, 825, 750, 675,
     600, 525, 475, 425, 375, 325, 275, 225, 175, 125]"

definition FEE_DISTRIBUTION_TABLE :: "'d decimal_ops \<Rightarrow> 'd list" where
  "FEE_DISTRIBUTION_TABLE D = map (\<lambda>m. dec_lit D m 5) table_mantissas"

definition DEFAULT_ORIGINAL_FEE_MULTIPLIER :: f64_bits where
  "DEFAULT_ORIGINAL_FEE_MULTIPLIER = 0x4000000000000000"

definition storage_credits_or_zero :: "'db grovedb \<Rightarrow> 'db \<Rightarrow> epoch \<Rightarrow> error + u64" where
  "storage_credits_or_zero G db e =
     (case get_epoch_storage_credits_for_distribution G db e of
        Inr credits \<Rightarrow> Inr credits
      | Inl (GroveDB (PathNotFound _)) \<Rightarrow> Inr 0
      | Inl (GroveDB (PathKeyNotFound _)) \<Rightarrow> Inr 0
      | Inl (GroveDB (PathParentLayerNotFound _)) \<Rightarrow> Inr 0
      | Inl err \<Rightarrow> Inl err)"

definition distribute_to_epoch ::
    "'db grovedb \<Rightarrow> 'db \<Rightarrow> u64 \<Rightarrow> u64 \<times> batch \<Rightarrow> u16 \<Rightarrow> abci_error + (u64 \<times> batch)" where
  "distribute_to_epoch G db epoch_fee_share st ix =
     (case st of (leftover, batch) \<Rightarrow>
        rbind (from_drive (epoch_new ix)) (\<lambda>epoch_tree.
        rbind (from_drive (storage_credits_or_zero G db epoch_tree)) (\<lambda>current_credits.
        rbind (ok_or (Execution (ExecOverflow ''leftover storage not fitting in a u64''))
                 (checked_sub leftover epoch_fee_share)) (\<lambda>leftover'.
          Inr (leftover',
               push (update_storage_credits_for_distribution_operation epoch_tree
                       (current_credits + epoch_fee_share)) batch)))))"

definition epoch_fee_share_dec :: "'d decimal_ops \<Rightarrow> 'd \<Rightarrow> nat \<Rightarrow> abci_error + u64" where
  "epoch_fee_share_dec D fees year =
     rbind (or_panic (dec_mul D fees (FEE_DISTRIBUTION_TABLE D ! year))) (\<lambda>year_fee_share.
     rbind (or_panic (dec_div D year_fee_share (dec_from_u64 D (ucast EPOCHS_PER_YEAR)))) (\<lambda>share.
       ok_or (Execution (ExecOverflow ''storage distribution fees are not fitting in a u64''))
         (dec_to_u64 D (dec_floor D share))))"

definition u16_range :: "u16 \<Rightarrow> u16 \<Rightarrow> u16 list" where
  "u16_range a b = map word_of_nat [unat a ..< unat b]"

definition distribute_year ::
    "'d decimal_ops \<Rightarrow> 'db grovedb \<Rightarrow> 'db \<Rightarrow> 'd \<Rightarrow> u16 \<Rightarrow> u64 \<times> batch \<Rightarrow> nat \<Rightarrow> abci_error + (u64 \<times> batch)" where
  "distribute_year D G db fees current_index st year =
     rbind (epoch_fee_share_dec D fees year) (\<lambda>epoch_fee_share.
       let year_start_epoch_index = current_index + EPOCHS_PER_YEAR * word_of_nat year
       in foldM (distribute_to_epoch G db epoch_fee_share) st
            (u16_range year_start_epoch_index (year_start_epoch_index + EPOCHS_PER_YEAR)))"

definition add_distribute_storage_fee_distribution_pool_to_epochs_operations ::
    "'d decimal_ops \<Rightarrow> 'db grovedb \<Rightarrow> 'db \<Rightarrow> u16 \<Rightarrow> batch \<Rightarrow> abci_error + (u64 \<times> batch)" where
  "add_distribute_storage_fee_distribution_pool_to_epochs_operations D G db current_index batch =
     rbind (from_drive (get_aggregate_storage_fees_from_distribution_pool G db)) (\<lambda>fees.
       if fees = 0 then Inr (0, batch)
       else
         rbind (ok_or (Execution (ExecOverflow ''storage distribution fees are not fitting in a u64''))
                  (dec_try_from_u64 D fees)) (\<lambda>fees_dec.
           foldM (distribute_year D G db fees_dec current_index) (fees, batch)
             [0 ..< unat PERPETUAL_STORAGE_YEARS]))"

section \<open>Exact shares\<close>

definition epoch_share :: "u64 \<Rightarrow> nat \<Rightarrow> nat" where
  "epoch_share fees year = unat fees * nat (table_mantissas ! year) div 2000000"

lemma length_table [simp]: "length table_mantissas = 50"
  by (simp add: table_mantissas_def)

lemma table_mantissa_bounds: "y < 50 \<Longrightarrow> 0 < table_mantissas ! y \<and> table_mantissas ! y \<le> 5000"
proof -
  assume "y < 50"
  have "\<forall>m \<in> set table_mantissas. 0 < m \<and> m \<le> 5000" by (simp add: table_mantissas_def)
  with \<open>y < 50\<close> show ?thesis by (metis length_table nth_mem)
qed

text \<open>The table adds up to one.\<close>

lemma table_sum: "(\<Sum>y<50. nat (table_mantissas ! y)) = 100000"
proof -
  have "(\<Sum>y<50. nat (table_mantissas ! y)) = sum_list (map nat table_mantissas)"
    by (simp add: sum_list_sum_nth atLeast0LessThan)
  also have "\<dots> = 100000" by (simp add: table_mantissas_def)
  finally show ?thesis .
qed

context decimal_arith
begin

lemma epoch_fee_share_exact:
  assumes "y < 50" and f: "val f = of_nat (unat fees)"
  shows "epoch_fee_share_dec D f y = Inr (word_of_nat (epoch_share fees y))"
proof -
  let ?m = "table_mantissas ! y" and ?F = "int (unat fees)"
  have m: "0 < ?m" "?m \<le> 5000" using table_mantissa_bounds[OF assms(1)] by simp_all
  have F: "0 \<le> ?F" "?F < 2 ^ 64" using uint_u64_bound[of fees] by simp_all
  have "?F * ?m \<le> 2 ^ 64 * 5000" using m F by (intro mult_mono) simp_all
  then have Fm: "0 \<le> ?F * ?m" "\<bar>?F * ?m\<bar> < 2 ^ 96" "\<bar>5 * (?F * ?m)\<bar> < 2 ^ 96" using m F by simp_all
  have "\<bar>?m\<bar> < 2 ^ 96" using m by simp
  then have "representable (of_int ?m / 10 ^ 5)" by (rule representableI[where s = 5]) simp_all
  from lit[OF this] assms(1) have t: "val (FEE_DISTRIBUTION_TABLE D ! y) = of_int ?m / 10 ^ 5"
    by (simp add: FEE_DISTRIBUTION_TABLE_def)
  have p: "val f * val (FEE_DISTRIBUTION_TABLE D ! y) = of_int (?F * ?m) / 10 ^ 5" by (simp add: f t)
  have "representable (of_int (?F * ?m) / 10 ^ 5)" by (rule representableI[where s = 5, OF Fm(2)]) simp_all
  then obtain z where z: "dec_mul D f (FEE_DISTRIBUTION_TABLE D ! y) = Some z" "val z = of_int (?F * ?m) / 10 ^ 5"
    using dec_result_exact[OF mul[of f "FEE_DISTRIBUTION_TABLE D ! y"]] p by metis
  let ?e = "dec_from_u64 D (ucast EPOCHS_PER_YEAR)"
  have e: "val ?e = 20" by (simp add: from_u64 EPOCHS_PER_YEAR_def)
  have d: "val z / val ?e = of_int (5 * (?F * ?m)) / 10 ^ 7" by (simp add: z(2) e)
  have "representable (of_int (5 * (?F * ?m)) / 10 ^ 7)" by (rule representableI[where s = 7, OF Fm(3)]) simp_all
  then obtain w where w: "dec_div D z ?e = Some w" "val w = of_int (5 * (?F * ?m)) / 10 ^ 7"
    using dec_result_exact[OF div[of ?e z]] d e by (metis zero_neq_numeral)
  have "val w = of_int (?F * ?m) / of_int 2000000" by (simp add: w(2))
  then have fl: "val (dec_floor D w) = of_int (?F * ?m div 2000000)"
    using floor floor_divide_of_int_eq[of "?F * ?m" 2000000, where 'a = rat] by metis
  have "?F * ?m div 2000000 < 2 ^ 64" using \<open>?F * ?m \<le> 2 ^ 64 * 5000\<close> by simp
  then have "dec_to_u64 D (dec_floor D w) = Some (word_of_int (?F * ?m div 2000000))"
    using to_u64[OF fl] Fm(1) by simp
  moreover have "int (epoch_share fees y) = ?F * ?m div 2000000"
    using m by (simp add: epoch_share_def zdiv_int)
  then have "(word_of_nat (epoch_share fees y) :: u64) = word_of_int (?F * ?m div 2000000)"
    by (metis of_int_of_nat_eq)
  ultimately show ?thesis by (simp add: epoch_fee_share_dec_def or_panic_def z(1) w(1))
qed

end

section \<open>The loops\<close>

definition credit_op :: "(u16 \<Rightarrow> u64) \<Rightarrow> u64 \<Rightarrow> u16 \<Rightarrow> grove_op" where
  "credit_op stored share i =
     update_storage_credits_for_distribution_operation (epoch_at i) (stored i + share)"

lemma distribute_to_epoch_ok:
  assumes "storable i" "storage_credits_or_zero G db (epoch_at i) = Inr (stored i)" "share \<le> left"
  shows "distribute_to_epoch G db share (left, b) i = Inr (left - share, b @ [credit_op stored share i])"
  using assms
  by (simp add: distribute_to_epoch_def epoch_new_storable checked_sub_def push_def credit_op_def)

lemma distribute_epochs_ok:
  assumes "\<forall>i \<in> set is. storable i \<and> storage_credits_or_zero G db (epoch_at i) = Inr (stored i)"
    and "length is * unat share \<le> unat left"
  shows "\<exists>left'. foldM (distribute_to_epoch G db share) (left, b) is =
      Inr (left', b @ map (credit_op stored share) is) \<and>
    unat left' + length is * unat share = unat left"
  using assms
proof (induction "is" arbitrary: left b)
  case Nil
  then show ?case by simp
next
  case (Cons i "is")
  have le: "unat share \<le> unat left" using Cons.prems(2) by simp
  then have sub: "unat (left - share) = unat left - unat share"
    by (simp add: unat_sub word_le_nat_alt)
  have "length is * unat share \<le> unat (left - share)" using Cons.prems(2) sub by simp
  from Cons.IH[OF _ this, of "b @ [credit_op stored share i]"] Cons.prems(1)
  obtain left' where "foldM (distribute_to_epoch G db share) (left - share, b @ [credit_op stored share i]) is =
      Inr (left', (b @ [credit_op stored share i]) @ map (credit_op stored share) is)"
    "unat left' + length is * unat share = unat (left - share)" by auto
  moreover have "distribute_to_epoch G db share (left, b) i =
      Inr (left - share, b @ [credit_op stored share i])"
    using Cons.prems(1) le by (intro distribute_to_epoch_ok) (simp_all add: word_le_nat_alt)
  ultimately show ?case using sub le by auto
qed

definition year_indexes :: "u16 \<Rightarrow> nat \<Rightarrow> u16 list" where
  "year_indexes current year = map (\<lambda>k. current + word_of_nat (20 * year + k)) [0 ..< 20]"

lemma u16_range_year:
  assumes "y < 50" "unat c + 1000 + 256 \<le> 2 ^ 16"
  shows "u16_range (c + EPOCHS_PER_YEAR * word_of_nat y) (c + EPOCHS_PER_YEAR * word_of_nat y + EPOCHS_PER_YEAR)
       = year_indexes c y"
proof -
  have s: "c + EPOCHS_PER_YEAR * word_of_nat y = word_of_nat (unat c + 20 * y)"
    "c + EPOCHS_PER_YEAR * word_of_nat y + EPOCHS_PER_YEAR = word_of_nat (unat c + 20 * y + 20)"
    by (simp_all add: EPOCHS_PER_YEAR_def)
  have u: "unat (word_of_nat (unat c + 20 * y) :: u16) = unat c + 20 * y"
    "unat (word_of_nat (unat c + 20 * y + 20) :: u16) = unat c + 20 * y + 20"
    using assms by (simp_all only: unat_of_nat) simp_all
  have "[unat c + 20 * y ..< unat c + 20 * y + 20] = map (\<lambda>k. k + (unat c + 20 * y)) [0 ..< 20]"
    by (simp only: map_add_upt) (simp add: add.commute)
  then show ?thesis
    unfolding s(2) unfolding s(1) unfolding u16_range_def u year_indexes_def by (simp add: o_def algebra_simps)
qed

lemma set_year_indexes:
  "set (year_indexes c y) = (\<lambda>k. c + word_of_nat k) ` {20 * y ..< 20 * y + 20}"
proof -
  have "{20 * y ..< 20 * y + 20} = (\<lambda>k. 20 * y + k) ` {0 ..< 20}"
    by (simp add: image_add_atLeastLessThan add.commute)
  then show ?thesis by (simp only: year_indexes_def set_map set_upt image_image)
qed

lemma storable_offset:
  assumes "k < 1000" "unat c + 1000 + 256 \<le> 2 ^ 16"
  shows "storable (c + word_of_nat k)"
proof -
  have "unat (c + word_of_nat k) = (unat c + k) mod 2 ^ 16"
    using unat_of_nat[where 'a = 16, of "unat c + k"] by simp
  then show ?thesis using assms by simp
qed

text \<open>The operations of \<open>n\<close> years.\<close>

definition storage_share_ops :: "u64 \<Rightarrow> u16 \<Rightarrow> (u16 \<Rightarrow> u64) \<Rightarrow> nat \<Rightarrow> batch" where
  "storage_share_ops fees current stored n =
     concat (map (\<lambda>y. map (credit_op stored (word_of_nat (epoch_share fees y))) (year_indexes current y))
       [0 ..< n])"

lemma epoch_share_sum: "20 * (\<Sum>y<50. epoch_share fees y) \<le> unat fees"
    and epoch_share_sum_loss: "unat fees < 20 * (\<Sum>y<50. epoch_share fees y) + 1000"
proof -
  let ?x = "\<lambda>y. unat fees * nat (table_mantissas ! y)"
  have tot: "(\<Sum>y<50. ?x y) = unat fees * 100000"
    by (simp only: sum_distrib_left [symmetric] table_sum)
  have split: "?x y = 2000000 * epoch_share fees y + ?x y mod 2000000" for y
    by (simp only: epoch_share_def mult_div_mod_eq)
  have "(\<Sum>y<50. ?x y) = (\<Sum>y<50. 2000000 * epoch_share fees y + ?x y mod 2000000)"
    by (rule sum.cong[OF refl]) (rule split)
  also have "\<dots> = 2000000 * (\<Sum>y<50. epoch_share fees y) + (\<Sum>y<50. ?x y mod 2000000)"
    by (simp only: sum.distrib sum_distrib_left)
  finally have eq: "unat fees * 100000 = 2000000 * (\<Sum>y<50. epoch_share fees y) + (\<Sum>y<50. ?x y mod 2000000)"
    unfolding tot .
  have "(\<Sum>y<50. ?x y mod 2000000) < (\<Sum>y<(50::nat). 2000000)"
    by (rule sum_strict_mono) (auto simp: lessThan_empty_iff)
  then have rest: "(\<Sum>y<50. ?x y mod 2000000) < 100000000" by simp
  show "20 * (\<Sum>y<50. epoch_share fees y) \<le> unat fees" using eq by linarith
  show "unat fees < 20 * (\<Sum>y<50. epoch_share fees y) + 1000" using eq rest by linarith
qed

lemma unat_epoch_share: "y < 50 \<Longrightarrow> unat (word_of_nat (epoch_share fees y) :: u64) = epoch_share fees y"
proof -
  assume y: "y < 50"
  have "epoch_share fees y \<le> (\<Sum>y<50. epoch_share fees y)"
    using y by (intro member_le_sum) simp_all
  then have "epoch_share fees y \<le> unat fees" using epoch_share_sum[of fees] by linarith
  then have "epoch_share fees y < 2 ^ LENGTH(64)" using unat_width(4)[of fees] by simp
  then show ?thesis by (simp add: unat_of_nat)
qed

context decimal_arith
begin

lemma distribute_years_ok:
  assumes f: "val f = of_nat (unat fees)" and c: "unat c + 1000 + 256 \<le> 2 ^ 16"
    and stored: "\<forall>k < 1000. storage_credits_or_zero G db (epoch_at (c + word_of_nat k)) =
      Inr (stored (c + word_of_nat k))"
    and n: "n \<le> 50"
  shows "\<exists>left. foldM (distribute_year D G db f c) (fees, b) [0 ..< n] =
      Inr (left, b @ storage_share_ops fees c stored n) \<and>
    unat left + 20 * (\<Sum>y<n. epoch_share fees y) = unat fees"
  using n
proof (induction n)
  case 0
  then show ?case by (simp add: storage_share_ops_def)
next
  case (Suc n)
  then obtain left where left: "foldM (distribute_year D G db f c) (fees, b) [0 ..< n] =
      Inr (left, b @ storage_share_ops fees c stored n)"
    "unat left + 20 * (\<Sum>y<n. epoch_share fees y) = unat fees" by auto
  let ?s = "word_of_nat (epoch_share fees n) :: u64"
  have s: "unat ?s = epoch_share fees n" using Suc.prems by (simp add: unat_epoch_share)
  have "(\<Sum>y<Suc n. epoch_share fees y) \<le> (\<Sum>y<50. epoch_share fees y)"
    using Suc.prems by (intro sum_mono2) auto
  then have enough: "length (year_indexes c n) * unat ?s \<le> unat left"
    using epoch_share_sum[of fees] left(2) by (simp add: year_indexes_def s)
  have all: "\<forall>i \<in> set (year_indexes c n). storable i \<and> storage_credits_or_zero G db (epoch_at i) = Inr (stored i)"
    using stored storable_offset[OF _ c] Suc.prems by (auto simp: set_year_indexes)
  obtain left' where left': "foldM (distribute_to_epoch G db ?s) (left, b @ storage_share_ops fees c stored n)
       (year_indexes c n) = Inr (left', (b @ storage_share_ops fees c stored n) @
         map (credit_op stored ?s) (year_indexes c n))"
    "unat left' + length (year_indexes c n) * unat ?s = unat left"
    using distribute_epochs_ok[OF all enough] by blast
  have "distribute_year D G db f c (left, b @ storage_share_ops fees c stored n) n =
      Inr (left', b @ storage_share_ops fees c stored (Suc n))"
    using Suc.prems c left'(1)
    by (simp add: distribute_year_def epoch_fee_share_exact[OF _ f] u16_range_year Let_def storage_share_ops_def)
  then show ?case
    using left left'(2) s by (simp add: foldM_append year_indexes_def)
qed

end

text \<open>C5: distributing the storage fee pool gives each of the next thousand epochs its stored credits
  plus exactly the floor of its share, in one batch operation per epoch, never fails for lack of
  credits, and loses none: the shares and the returned leftover add up to the pool, and the leftover
  is less than one credit per epoch. The epoch indexes must stay storable; a pool that is not yet
  created counts as empty.\<close>

theorem storage_pool_distributed:
  assumes "decimal_arith D val"
    and "get_aggregate_storage_fees_from_distribution_pool G db = Inr fees"
    and "unat c + 1000 + 256 \<le> 2 ^ 16"
    and "\<forall>k < 1000. storage_credits_or_zero G db (epoch_at (c + word_of_nat k)) =
      Inr (stored (c + word_of_nat k))"
  shows "\<exists>left. add_distribute_storage_fee_distribution_pool_to_epochs_operations D G db c batch =
      Inr (left, batch @ (if fees = 0 then [] else storage_share_ops fees c stored 50)) \<and>
    unat left + 20 * (\<Sum>y<50. epoch_share fees y) = unat fees \<and> unat left < 1000"
proof (cases "fees = 0")
  case True
  then show ?thesis
    using assms(2) by (simp add: add_distribute_storage_fee_distribution_pool_to_epochs_operations_def epoch_share_def)
next
  case False
  obtain left where "foldM (distribute_year D G db (dec_from_u64 D fees) c) (fees, batch) [0 ..< 50] =
      Inr (left, batch @ storage_share_ops fees c stored 50)"
    "unat left + 20 * (\<Sum>y<50. epoch_share fees y) = unat fees"
    using decimal_arith.distribute_years_ok[OF assms(1) _ assms(3,4), of "dec_from_u64 D fees" fees 50 batch]
      decimal_arith.from_u64[OF assms(1)] by auto
  with False assms(2) epoch_share_sum_loss[of fees] show ?thesis
    by (intro exI[of _ left])
      (simp add: add_distribute_storage_fee_distribution_pool_to_epochs_operations_def
        decimal_arith.try_from_u64[OF assms(1)] PERPETUAL_STORAGE_YEARS_def)
qed

text \<open>A store that holds nothing but a pool of a million credits.\<close>

definition pool_store :: store where
  "pool_store = [((pools_path, KEY_STORAGE_FEE_POOL), u64_item 1000000)]"

theorem storage_pool_distributed_witness:
  "\<exists>left. add_distribute_storage_fee_distribution_pool_to_epochs_operations reference_decimal reference_grove
       pool_store 0 [] = Inr (left, [] @ (if (1000000 :: u64) = 0 then [] else storage_share_ops 1000000 0 (\<lambda>_. 0) 50)) \<and>
    unat left + 20 * (\<Sum>y<50. epoch_share 1000000 y) = unat (1000000 :: u64) \<and> unat left < 1000"
proof (rule storage_pool_distributed[OF ref_dec.decimal_arith_axioms])
  show "get_aggregate_storage_fees_from_distribution_pool reference_grove pool_store = Inr 1000000"
    by (simp add: get_aggregate_storage_fees_from_distribution_pool_def reference_grove_def store_get_def
        pool_store_def u64_item_def)
  show "\<forall>k < 1000. storage_credits_or_zero reference_grove pool_store (epoch_at (0 + word_of_nat k)) = Inr 0"
    by (simp add: storage_credits_or_zero_def get_epoch_storage_credits_for_distribution_def read_item_def
        reference_grove_def store_get_def pool_store_def get_path_def pools_path_def)
qed simp

end
