(* ===== verification/Cbor.thy ===== *)
theory Cbor
  imports Flags
begin

text \<open>
  CBOR values as the sources handle them (\<open>ciborium::value::Value\<close>) and the accessors of
  \<open>dpp/src/data_contract/extra/common.rs\<close>. Text is the sequence of its UTF-8 bytes, one character
  each. Base58, base64 and hexadecimal decoding are dependencies, arguments of what uses them.
\<close>

text \<open>An \<open>f64\<close> is its bit pattern.\<close>

type_synonym f64 = "64 word"

datatype cbor =
    CInteger int
  | CBytes bytes
  | CFloat f64
  | CText string
  | CBool bool
  | CNull
  | CTag u64 cbor
  | CArray "cbor list"
  | CMap "(cbor \<times> cbor) list"

type_synonym cbor_map = "(cbor \<times> cbor) list"

fun as_text :: "cbor \<Rightarrow> string option" where
  "as_text (CText s) = Some s"
| "as_text _ = None"

fun as_integer :: "cbor \<Rightarrow> int option" where
  "as_integer (CInteger i) = Some i"
| "as_integer _ = None"

fun as_float :: "cbor \<Rightarrow> f64 option" where
  "as_float (CFloat f) = Some f"
| "as_float _ = None"

fun as_bool :: "cbor \<Rightarrow> bool option" where
  "as_bool (CBool b) = Some b"
| "as_bool _ = None"

fun as_bytes :: "cbor \<Rightarrow> bytes option" where
  "as_bytes (CBytes b) = Some b"
| "as_bytes _ = None"

fun as_map :: "cbor \<Rightarrow> cbor_map option" where
  "as_map (CMap m) = Some m"
| "as_map _ = None"

fun as_array :: "cbor \<Rightarrow> cbor list option" where
  "as_array (CArray a) = Some a"
| "as_array _ = None"

text \<open>\<open>try_into\<close> of an integer to an unsigned width.\<close>

definition int_to_word :: "int \<Rightarrow> 'a::len word option" where
  "int_to_word i = (if 0 \<le> i \<and> i < 2 ^ LENGTH('a) then Some (word_of_int i) else None)"

definition string_bytes :: "string \<Rightarrow> bytes" where
  "string_bytes s = map (\<lambda>c. word_of_nat (of_char c)) s"

definition bytes_string :: "bytes \<Rightarrow> string" where
  "bytes_string bs = map (\<lambda>b. char_of (unat b)) bs"

section \<open>Accessors\<close>

definition text_entry :: "cbor \<times> cbor \<Rightarrow> (string \<times> cbor) option" where
  "text_entry e = map_option (\<lambda>key. (key, snd e)) (as_text (fst e))"

definition cbor_map_to_btree_map :: "cbor_map \<Rightarrow> (string, cbor) btree" where
  "cbor_map_to_btree_map m =
     foldl (\<lambda>acc e. bt_insert (fst e) (snd e) acc) [] (List.map_filter text_entry m)"

fun get_key_from_cbor_map :: "cbor_map \<Rightarrow> string \<Rightarrow> cbor option" where
  "get_key_from_cbor_map [] key = None"
| "get_key_from_cbor_map ((cbor_key, cbor_value) # m) key =
     (if as_text cbor_key = Some key then Some cbor_value else get_key_from_cbor_map m key)"

definition cbor_inner_array_value :: "cbor_map \<Rightarrow> string \<Rightarrow> cbor list option" where
  "cbor_inner_array_value m key = Option.bind (get_key_from_cbor_map m key) as_array"

definition cbor_inner_array_of_strings :: "cbor_map \<Rightarrow> string \<Rightarrow> string set option" where
  "cbor_inner_array_of_strings m key =
     map_option (\<lambda>a. set (List.map_filter as_text a)) (Option.bind (get_key_from_cbor_map m key) as_array)"

definition cbor_inner_map_value :: "cbor_map \<Rightarrow> string \<Rightarrow> cbor_map option" where
  "cbor_inner_map_value m key = Option.bind (get_key_from_cbor_map m key) as_map"

definition cbor_inner_btree_map :: "cbor_map \<Rightarrow> string \<Rightarrow> (string, cbor) btree option" where
  "cbor_inner_btree_map m key =
     map_option cbor_map_to_btree_map (Option.bind (get_key_from_cbor_map m key) as_map)"

definition btree_map_inner_btree_map :: "(string, cbor) btree \<Rightarrow> string \<Rightarrow> (string, cbor) btree option" where
  "btree_map_inner_btree_map m key = map_option cbor_map_to_btree_map (Option.bind (bt_get key m) as_map)"

definition btree_map_inner_map_value :: "(string, cbor) btree \<Rightarrow> string \<Rightarrow> cbor_map option" where
  "btree_map_inner_map_value m key = Option.bind (bt_get key m) as_map"

definition cbor_inner_text_value :: "cbor_map \<Rightarrow> string \<Rightarrow> string option" where
  "cbor_inner_text_value m key = Option.bind (get_key_from_cbor_map m key) as_text"

definition btree_map_inner_text_value :: "(string, cbor) btree \<Rightarrow> string \<Rightarrow> string option" where
  "btree_map_inner_text_value m key = Option.bind (bt_get key m) as_text"

text \<open>The bytes of an array of integers below 256.\<close>

definition byte_of_cbor :: "'e \<Rightarrow> 'e \<Rightarrow> cbor \<Rightarrow> 'e + u8" where
  "byte_of_cbor not_u8 not_integer v =
     (case v of CInteger i \<Rightarrow> ok_or not_u8 (int_to_word i) | _ \<Rightarrow> Inl not_integer)"

definition cbor_inner_bytes_value :: "cbor_map \<Rightarrow> string \<Rightarrow> bytes option" where
  "cbor_inner_bytes_value m key =
     Option.bind (get_key_from_cbor_map m key) (\<lambda>v.
       case v of
         CBytes b \<Rightarrow> Some b
       | CArray a \<Rightarrow>
           (case mapM (byte_of_cbor (ValueWrongType ''expected u8 value'') (ValueWrongType ''not an array of integers'')) a of
              Inr b \<Rightarrow> Some b | Inl _ \<Rightarrow> None)
       | _ \<Rightarrow> None)"

definition cbor_inner_bool_value :: "cbor_map \<Rightarrow> string \<Rightarrow> bool option" where
  "cbor_inner_bool_value m key = Option.bind (get_key_from_cbor_map m key) as_bool"

definition btree_map_inner_bool_value :: "(string, cbor) btree \<Rightarrow> string \<Rightarrow> bool option" where
  "btree_map_inner_bool_value m key = Option.bind (bt_get key m) as_bool"

definition cbor_inner_size_value :: "cbor_map \<Rightarrow> string \<Rightarrow> u64 option" where
  "cbor_inner_size_value m key = Option.bind (Option.bind (get_key_from_cbor_map m key) as_integer) int_to_word"

definition btree_map_inner_u16_value :: "(string, cbor) btree \<Rightarrow> string \<Rightarrow> u16 option" where
  "btree_map_inner_u16_value m key = Option.bind (Option.bind (bt_get key m) as_integer) int_to_word"

definition cbor_inner_bool_value_with_default :: "cbor_map \<Rightarrow> string \<Rightarrow> bool \<Rightarrow> bool" where
  "cbor_inner_bool_value_with_default m key dflt =
     (case cbor_inner_bool_value m key of Some b \<Rightarrow> b | None \<Rightarrow> dflt)"

definition bytes_for_system_value :: "(string \<Rightarrow> bytes option) \<Rightarrow> cbor \<Rightarrow> structure_error + bytes option" where
  "bytes_for_system_value bs58_decode v =
     (case v of
        CBytes b \<Rightarrow> Inr (Some b)
      | CText t \<Rightarrow> Inr (bs58_decode t)
      | CArray a \<Rightarrow>
          rmap Some (mapM (byte_of_cbor (ValueWrongType ''expected u8 value'') (ValueWrongType ''not an array of integers'')) a)
      | _ \<Rightarrow> Inl (ValueWrongType ''system value is incorrect type''))"

definition bytes_for_system_value_from_tree_map ::
    "(string \<Rightarrow> bytes option) \<Rightarrow> (string, cbor) btree \<Rightarrow> string \<Rightarrow> structure_error + bytes option" where
  "bytes_for_system_value_from_tree_map bs58_decode document key =
     (case bt_get key document of Some v \<Rightarrow> bytes_for_system_value bs58_decode v | None \<Rightarrow> Inr None)"

definition bool_for_system_value_from_tree_map ::
    "(string, cbor) btree \<Rightarrow> string \<Rightarrow> bool \<Rightarrow> structure_error + bool" where
  "bool_for_system_value_from_tree_map document key dflt =
     (case bt_get key document of
        Some v \<Rightarrow> (case v of CBool b \<Rightarrow> Inr b | _ \<Rightarrow> Inl (ValueWrongType ''value is expected to be a boolean''))
      | None \<Rightarrow> Inr dflt)"

text \<open>The narrowing casts \<open>as u64\<close>, \<open>as u32\<close>, \<open>as u16\<close>, \<open>as u8\<close> keep the low bits.\<close>

definition cbor_inner_u64_value :: "cbor_map \<Rightarrow> string \<Rightarrow> u64 option" where
  "cbor_inner_u64_value m key = map_option word_of_int (Option.bind (get_key_from_cbor_map m key) as_integer)"

definition cbor_inner_u32_value :: "cbor_map \<Rightarrow> string \<Rightarrow> u32 option" where
  "cbor_inner_u32_value m key = map_option word_of_int (Option.bind (get_key_from_cbor_map m key) as_integer)"

definition cbor_inner_u16_value :: "cbor_map \<Rightarrow> string \<Rightarrow> u16 option" where
  "cbor_inner_u16_value m key = map_option word_of_int (Option.bind (get_key_from_cbor_map m key) as_integer)"

definition cbor_inner_u8_value :: "cbor_map \<Rightarrow> string \<Rightarrow> u8 option" where
  "cbor_inner_u8_value m key = map_option word_of_int (Option.bind (get_key_from_cbor_map m key) as_integer)"

section \<open>Lemmas\<close>

lemma string_bytes_inverse [simp]: "bytes_string (string_bytes s) = s"
proof -
  have "unat (word_of_nat (of_char c) :: u8) = of_char c" for c :: char
    using of_char_mod_256[of c] by (simp add: unat_of_nat)
  then show ?thesis by (simp add: bytes_string_def string_bytes_def map_idI)
qed

lemma length_string_bytes [simp]: "length (string_bytes s) = length s"
  by (simp add: string_bytes_def)

lemma string_bytes_empty [simp]: "string_bytes s = [] \<longleftrightarrow> s = []"
  by (simp add: string_bytes_def)

lemma string_bytes_inject [simp]: "string_bytes a = string_bytes b \<longleftrightarrow> a = b"
  by (metis string_bytes_inverse)

text \<open>Collecting entries into a map keeps the last one of a key, and orders the keys.\<close>

lemma bt_collect_get:
  "bt_get k (foldl (\<lambda>acc e. bt_insert (fst e) (snd e) acc) acc es) =
     (case map_of (rev es) k of Some v \<Rightarrow> Some v | None \<Rightarrow> bt_get k acc)"
  by (induction es arbitrary: acc) (auto simp: bt_get_insert map_add_def split: option.splits)

lemma bt_collect_wf: "bt_wf acc \<Longrightarrow> bt_wf (foldl (\<lambda>acc e. bt_insert (fst e) (snd e) acc) acc es)"
  by (induction es arbitrary: acc) (simp_all add: bt_wf_insert)

lemma cbor_map_to_btree_map_wf: "bt_wf (cbor_map_to_btree_map m)"
  by (simp add: cbor_map_to_btree_map_def bt_collect_wf)

lemma get_key_is_first: "get_key_from_cbor_map m key = map_of (List.map_filter text_entry m) key"
  by (induction m) (auto simp: text_entry_def List.map_filter_def split: option.splits)

text \<open>Both ways to look a key up agree when no text key occurs twice.\<close>

lemma map_of_rev: "distinct (map fst xs) \<Longrightarrow> map_of (rev xs) = map_of xs"
  using map_of_inject_set[of "rev xs" xs] by (simp add: rev_map [symmetric])

lemma btree_lookup_is_first:
  assumes "distinct (map fst (List.map_filter text_entry m))"
  shows "bt_get key (cbor_map_to_btree_map m) = get_key_from_cbor_map m key"
  using assms
  by (simp add: cbor_map_to_btree_map_def bt_collect_get get_key_is_first map_of_rev split: option.splits)

end
