(* ===== verification/Payouts.thy ===== *)
theory Payouts
  imports Identity StoragePool Cbor
begin

text \<open>
  Fee distribution to proposers: \<open>dash-abci/src/execution/fee_pools/fee_distribution.rs\<close> and the reward
  shares of \<open>dash-abci/src/contracts/reward_shares.rs\<close>. The lookup of reward share documents goes
  through Drive's document query and is an argument. It is shown that payouts never exceed the pool
  they are paid from, and that the oldest unpaid epoch only moves forward.
\<close>

section \<open>Data\<close>

record proposers_payouts =
  proposers_paid_count :: u16
  paid_epoch_index :: u16

record fees_in_pools =
  processing_fees_in_pool :: u64
  storage_fees_in_pool :: u64

record unpaid_epoch =
  epoch_index :: u16
  start_block_height :: u64
  end_block_height :: u64
  next_unpaid_epoch_index :: u16

record fees_aggregate =
  block_processing_fees :: u64
  block_storage_fees :: u64

definition block_count :: "unpaid_epoch \<Rightarrow> error + u64" where
  "block_count u =
     ok_or (Fee (Overflow ''overflow for get_epoch_block_count''))
       (checked_sub (end_block_height u) (start_block_height u))"

type_synonym document_properties = "string \<Rightarrow> cbor option"

text \<open>
  What the application calls besides Drive: decimals, the identity codec, the document query, and the
  asset unlock transactions of \<open>dashcore\<close>, to which request height and quorum hash are appended.
\<close>

record ('db, 'd, 'k) platform =
  drive :: "'db drive"
  decimal :: "'d decimal_ops"
  identities :: "'k identity_ops"
  reward_shares :: "'db \<Rightarrow> bytes \<Rightarrow> error + document_properties list"
  append_request_info :: "u32 \<Rightarrow> id32 \<Rightarrow> bytes \<Rightarrow> bytes option"

definition get_reward_shares_list_for_masternode ::
    "('db, 'd, 'k) platform \<Rightarrow> 'db \<Rightarrow> bytes \<Rightarrow> abci_error + document_properties list" where
  "get_reward_shares_list_for_masternode P db masternode_owner_id =
     from_drive (reward_shares P db masternode_owner_id)"

section \<open>Finding the epoch to pay\<close>

definition end_of_previous_epoch ::
    "('db, 'd, 'k) platform \<Rightarrow> 'db \<Rightarrow> u16 \<Rightarrow> u64 option \<Rightarrow> abci_error + (u16 \<times> u64)" where
  "end_of_previous_epoch P db current cached =
     rbind (case cached of
              Some h \<Rightarrow> Inr h
            | None \<Rightarrow>
                rbind (from_drive (epoch_new current)) (\<lambda>e.
                  from_drive (get_epoch_start_block_height (grove (drive P)) db e)))
       (\<lambda>h. Inr (current, h))"

definition end_of_older_epoch ::
    "('db, 'd, 'k) platform \<Rightarrow> 'db \<Rightarrow> u16 \<Rightarrow> u16 \<Rightarrow> u64 option \<Rightarrow> abci_error + (u16 \<times> u64)" where
  "end_of_older_epoch P db unpaid current cached =
     rbind (from_drive (get_first_epoch_start_block_height_between_epochs (grove (drive P)) db unpaid current)) (\<lambda>r.
       case r of
         Some next_start_block_info \<Rightarrow> Inr next_start_block_info
       | None \<Rightarrow>
           (case cached of
              None \<Rightarrow> Inl (Execution (ExecCorruptedCodeExecution
                ''start_block_height must be present in current epoch or cached_next_epoch_start_block_height must be passed''))
            | Some h \<Rightarrow> Inr (current, h)))"

definition find_oldest_epoch_needing_payment ::
    "('db, 'd, 'k) platform \<Rightarrow> 'db \<Rightarrow> u16 \<Rightarrow> u64 option \<Rightarrow> abci_error + unpaid_epoch option" where
  "find_oldest_epoch_needing_payment P db current cached =
     (if current = GENESIS_EPOCH_INDEX then Inr None
      else
        rbind (from_drive (get_unpaid_epoch_index (grove (drive P)) db)) (\<lambda>unpaid_epoch_index.
          if unpaid_epoch_index = current then Inr None
          else
            rbind (from_drive (epoch_new unpaid_epoch_index)) (\<lambda>unpaid.
            rbind (from_drive (get_epoch_start_block_height (grove (drive P)) db unpaid)) (\<lambda>start_height.
            rbind (if index unpaid = current - 1 then end_of_previous_epoch P db current cached
                   else end_of_older_epoch P db (index unpaid) current cached) (\<lambda>(next_unpaid, end_height).
              Inr (Some \<lparr>epoch_index = unpaid_epoch_index, start_block_height = start_height,
                         end_block_height = end_height, next_unpaid_epoch_index = next_unpaid\<rparr>))))))"

section \<open>Paying\<close>

definition pay_ops :: "varint_ops \<Rightarrow> bytes \<Rightarrow> 'k identity \<Rightarrow> storage_flags option \<Rightarrow> batch" where
  "pay_ops V identity_bytes ident flags =
     [insert_run_op identities_path (identity_id ident) (Tree None (map_to_some_element_flags V flags)),
      insert_run_op (identity_path (identity_id ident)) IDENTITY_KEY
        (Item identity_bytes (map_to_some_element_flags V flags))]"

definition add_pay_reward_to_identity_operations ::
    "('db, 'd, 'k) platform \<Rightarrow> 'db \<Rightarrow> bytes \<Rightarrow> u64 \<Rightarrow> batch \<Rightarrow> abci_error + batch" where
  "add_pay_reward_to_identity_operations P db i reward batch =
     rbind (from_drive (fetch_identity (identities P) (drive P) db i)) (\<lambda>(ident, storage_flags).
     rbind (ok_or (Execution (ExecOverflow ''pay reward overflow'')) (checked_add (balance ident) reward)) (\<lambda>b.
       from_drive (add_insert_identity_operations (identities P) (varint (drive P)) (ident\<lparr>balance := b\<rparr>)
         storage_flags batch)))"

definition reward_overflow :: abci_error where
  "reward_overflow = Execution (ExecOverflow ''can't convert reward to i64 from Decimal'')"

definition share_pay_to_id :: "document_properties \<Rightarrow> abci_error + bytes" where
  "share_pay_to_id doc =
     rbind (ok_or (Execution (DriveMissingData ''payToId property is missing'')) (doc ''payToId'')) (\<lambda>v.
       ok_or (Execution (DriveIncoherence ''payToId property type is not bytes'')) (as_bytes v))"

definition share_percentage :: "document_properties \<Rightarrow> abci_error + int" where
  "share_percentage doc =
     rbind (ok_or (Execution (DriveMissingData ''percentage property is missing'')) (doc ''percentage'')) (\<lambda>v.
     rbind (ok_or (Execution (DriveIncoherence ''percentage property type is not integer'')) (as_integer v)) (\<lambda>i.
       if - (2 ^ 63) \<le> i \<and> i < 2 ^ 63 then Inr i
       else Inl (Execution (ExecOverflow ''percentage property cannot be converted to i64''))))"

definition pay_share ::
    "('db, 'd, 'k) platform \<Rightarrow> 'db \<Rightarrow> 'd \<times> batch \<Rightarrow> document_properties \<Rightarrow> abci_error + ('d \<times> batch)" where
  "pay_share P db st doc =
     (case st of (masternode_reward, batch) \<Rightarrow>
        let D = decimal P
        in rbind (share_pay_to_id doc) (\<lambda>pay_to_id.
           rbind (share_percentage doc) (\<lambda>percentage_integer.
           rbind (or_panic (dec_div D (dec_from_i64 D percentage_integer) (dec_lit D 10000 0))) (\<lambda>percentage.
           rbind (or_panic (dec_mul D masternode_reward percentage)) (\<lambda>reward.
           rbind (or_panic (dec_sub D masternode_reward (dec_floor D reward))) (\<lambda>masternode_reward'.
           rbind (ok_or reward_overflow (dec_to_u64 D (dec_floor D reward))) (\<lambda>reward_floored.
           rbind (add_pay_reward_to_identity_operations P db pay_to_id reward_floored batch) (\<lambda>batch'.
             Inr (masternode_reward', batch')))))))))"

definition proposer_reward :: "'d decimal_ops \<Rightarrow> 'd \<Rightarrow> 'd \<Rightarrow> u64 \<Rightarrow> abci_error + 'd" where
  "proposer_reward D total_fees epoch_block_count proposed_block_count =
     rbind (or_panic (dec_mul D total_fees (dec_from_u64 D proposed_block_count))) (\<lambda>x.
       or_panic (dec_div D x epoch_block_count))"

text \<open>The part of a proposer's reward left after the shares, with the collected remainders for the last one.\<close>

definition reward_given :: "'d decimal_ops \<Rightarrow> bool \<Rightarrow> 'd \<Rightarrow> 'd \<Rightarrow> abci_error + ('d \<times> u64)" where
  "reward_given D is_last masternode_reward fee_leftovers =
     (let masternode_reward_floored = dec_floor D masternode_reward
      in rbind (or_panic (dec_sub D masternode_reward masternode_reward_floored)) (\<lambda>remainder.
         rbind (or_panic (dec_add D fee_leftovers remainder)) (\<lambda>fee_leftovers'.
         rbind (if is_last then or_panic (dec_add D masternode_reward_floored fee_leftovers')
                else Inr masternode_reward_floored) (\<lambda>given.
         rbind (ok_or reward_overflow (dec_to_u64 D (dec_floor D given))) (\<lambda>given.
           Inr (fee_leftovers', given))))))"

definition pay_proposer :: "('db, 'd, 'k) platform \<Rightarrow> 'db \<Rightarrow> 'd \<Rightarrow> 'd \<Rightarrow> u16 \<Rightarrow>
    'd \<times> batch \<Rightarrow> u16 \<times> bytes \<times> u64 \<Rightarrow> abci_error + ('d \<times> batch)" where
  "pay_proposer P db total_fees epoch_block_count proposers_len st proposer =
     (case (st, proposer) of ((fee_leftovers, batch), (i, proposer_tx_hash, proposed_block_count)) \<Rightarrow>
        rbind (proposer_reward (decimal P) total_fees epoch_block_count proposed_block_count) (\<lambda>masternode_reward.
        rbind (get_reward_shares_list_for_masternode P db proposer_tx_hash) (\<lambda>documents.
        rbind (foldM (pay_share P db) (masternode_reward, batch) documents) (\<lambda>(masternode_reward, batch).
        rbind (reward_given (decimal P) (i = proposers_len - 1) masternode_reward fee_leftovers)
          (\<lambda>(fee_leftovers, given).
        rbind (add_pay_reward_to_identity_operations P db proposer_tx_hash given batch) (\<lambda>batch.
          Inr (fee_leftovers, batch)))))))"

definition add_epoch_pool_to_proposers_payout_operations ::
    "('db, 'd, 'k) platform \<Rightarrow> 'db \<Rightarrow> unpaid_epoch \<Rightarrow> u16 \<Rightarrow> batch \<Rightarrow> abci_error + (u16 \<times> batch)" where
  "add_epoch_pool_to_proposers_payout_operations P db u proposers_limit batch =
     rbind (from_drive (epoch_new (epoch_index u))) (\<lambda>unpaid_epoch_tree.
     rbind (from_drive (get_epoch_total_credits_for_distribution (grove (drive P)) db unpaid_epoch_tree)) (\<lambda>total_fees.
     rbind (from_drive (block_count u)) (\<lambda>epoch_block_count.
     rbind (from_drive (get_epoch_proposers (grove (drive P)) db unpaid_epoch_tree proposers_limit)) (\<lambda>proposers.
     let proposers_len = word_of_nat (length proposers)
     in rbind (foldM (pay_proposer P db (dec_from_u64 (decimal P) total_fees)
                        (dec_from_u64 (decimal P) epoch_block_count) proposers_len)
                (dec_lit (decimal P) 0 1, batch)
                (zip (map word_of_nat [0 ..< length proposers]) proposers)) (\<lambda>(_, batch).
        Inr (proposers_len, add_delete_proposers_operations unpaid_epoch_tree (map fst proposers) batch))))))"

definition add_distribute_fees_from_oldest_unpaid_epoch_pool_to_proposers_operations ::
    "('db, 'd, 'k) platform \<Rightarrow> 'db \<Rightarrow> u16 \<Rightarrow> u64 option \<Rightarrow> batch \<Rightarrow>
     abci_error + (proposers_payouts option \<times> batch)" where
  "add_distribute_fees_from_oldest_unpaid_epoch_pool_to_proposers_operations P db current cached batch =
     rbind (find_oldest_epoch_needing_payment P db current cached) (\<lambda>r.
       case r of
         None \<Rightarrow> Inr (None, batch)
       | Some u \<Rightarrow>
           (let proposers_limit = (current - epoch_index u) * 50
            in rbind (add_epoch_pool_to_proposers_payout_operations P db u proposers_limit batch) (\<lambda>(paid_count, batch).
               rbind (if paid_count < proposers_limit
                      then rbind (from_drive (epoch_new (epoch_index u))) (\<lambda>unpaid_epoch_tree.
                             Inr (push (update_unpaid_epoch_index_operation (next_unpaid_epoch_index u))
                                    (add_mark_as_paid_operations unpaid_epoch_tree batch)))
                      else Inr batch) (\<lambda>batch.
                 Inr (if paid_count = 0 then None
                      else Some \<lparr>proposers_paid_count = paid_count, paid_epoch_index = epoch_index u\<rparr>, batch)))))"

section \<open>Block fees\<close>

definition processing_credits_or_zero :: "'db grovedb \<Rightarrow> 'db \<Rightarrow> epoch \<Rightarrow> error + u64" where
  "processing_credits_or_zero G db e =
     (case get_epoch_processing_credits_for_distribution G db e of
        Inl (GroveDB (PathKeyNotFound _)) \<Rightarrow> Inr 0
      | r \<Rightarrow> r)"

definition add_distribute_block_fees_into_pools_operations ::
    "('db, 'd, 'k) platform \<Rightarrow> 'db \<Rightarrow> epoch \<Rightarrow> fees_aggregate \<Rightarrow> u64 option \<Rightarrow> batch \<Rightarrow>
     abci_error + (fees_in_pools \<times> batch)" where
  "add_distribute_block_fees_into_pools_operations P db current_epoch block_fees cached_aggregated_storage_fees batch =
     rbind (from_drive (processing_credits_or_zero (grove (drive P)) db current_epoch)) (\<lambda>epoch_processing_fees.
     let total_processing_fees = epoch_processing_fees + block_processing_fees block_fees;
         batch = push (update_processing_credits_for_distribution_operation current_epoch total_processing_fees) batch
     in rbind (case cached_aggregated_storage_fees of
                 None \<Rightarrow> from_drive (get_aggregate_storage_fees_from_distribution_pool (grove (drive P)) db)
               | Some storage_fees \<Rightarrow> Inr storage_fees) (\<lambda>in_fee_pool.
        let total_storage_fees = in_fee_pool + block_storage_fees block_fees
        in Inr (\<lparr>processing_fees_in_pool = total_processing_fees, storage_fees_in_pool = total_storage_fees\<rparr>,
                push (update_storage_fee_distribution_pool_operation total_storage_fees) batch)))"

section \<open>The unpaid epoch moves forward\<close>

lemma next_unpaid_epoch:
  assumes "grove_contract (grove (drive P))"
    and r: "find_oldest_epoch_needing_payment P db current cached = Inr (Some u)"
    and unpaid: "get_unpaid_epoch_index (grove (drive P)) db = Inr i" "i \<le> current"
  shows "epoch_index u = i \<and> i < next_unpaid_epoch_index u \<and> next_unpaid_epoch_index u \<le> current"
proof -
  have ne: "i \<noteq> current" using r unpaid(1) by (auto simp: find_oldest_epoch_needing_payment_def split: if_splits)
  then have lt: "i < current" using unpaid(2) by simp
  from r unpaid(1) ne obtain next_i h where u: "epoch_index u = i" "next_unpaid_epoch_index u = next_i"
    and e: "(if i = current - 1 then end_of_previous_epoch P db current cached
             else end_of_older_epoch P db i current cached) = Inr (next_i, h)"
    by (auto simp: find_oldest_epoch_needing_payment_def rbind_eq_Inr from_drive_eq_Inr epoch_new_storable split: if_splits)
  show ?thesis
  proof (cases "i = current - 1")
    case True
    with e u lt show ?thesis by (auto simp: end_of_previous_epoch_def rbind_eq_Inr)
  next
    case False
    with e obtain r where r: "get_first_epoch_start_block_height_between_epochs (grove (drive P)) db i current = Inr r"
      and "(case r of Some x \<Rightarrow> x = (next_i, h) | None \<Rightarrow> next_i = current)"
      by (auto simp: end_of_older_epoch_def rbind_eq_Inr from_drive_eq_Inr split: option.splits)
    then show ?thesis using u lt first_epoch_between[OF assms(1)] by (auto split: option.splits)
  qed
qed

text \<open>C7: an epoch chosen for payment is the stored oldest unpaid one, and the epoch that becomes
  the oldest unpaid one after it is later and not past the current epoch, so paying makes progress and
  never skips the current epoch.\<close>

theorem oldest_unpaid_epoch_advances:
  assumes "grove_contract (grove (drive P))"
    and r: "find_oldest_epoch_needing_payment P db current cached = Inr (Some u)"
    and unpaid: "get_unpaid_epoch_index (grove (drive P)) db = Inr i" "i \<le> current"
  shows "epoch_index u = i \<and> i < next_unpaid_epoch_index u \<and> next_unpaid_epoch_index u \<le> current"
  using next_unpaid_epoch[OF assms] .

section \<open>Payouts stay within the pool\<close>

text \<open>Subtracting an integer part of a decimal is exact.\<close>

lemma representable_minus_int:
  assumes "representable x" "0 \<le> k" "of_int k \<le> x"
  shows "representable (x - of_int k)"
proof -
  from assms(1) obtain m s where ms: "\<bar>m\<bar> < 2 ^ 96" "s \<le> 28" "x = of_int m / 10 ^ s"
    by (auto simp: representable_def)
  have eq: "x - of_int k = of_int (m - k * 10 ^ s) / 10 ^ s" by (simp add: ms(3) diff_divide_distrib)
  have "(of_int (k * 10 ^ s) :: rat) \<le> of_int m" using assms(3) by (simp add: ms(3) field_simps)
  then have "k * 10 ^ s \<le> m" unfolding of_int_le_iff .
  moreover have "0 \<le> k * 10 ^ s" using assms(2) by simp
  ultimately have "\<bar>m - k * 10 ^ s\<bar> < 2 ^ 96" using ms(1) by linarith
  from representableI[OF this ms(2) eq] show ?thesis .
qed

definition eps :: rat where "eps = 1 / 10 ^ 9"

definition tiny :: rat where "tiny = 1 / 10 ^ 23"

lemma eps_val: "eps = 1 / 1000000000" and tiny_val: "tiny = 1 / 100000000000000000000000"
  by (simp_all add: eps_def tiny_def)

context decimal_arith
begin

lemma close9: "dec_result val r q \<Longrightarrow> \<bar>q\<bar> \<le> 2 ^ 65 \<Longrightarrow> r = Some z \<Longrightarrow> \<bar>val z - q\<bar> \<le> eps \<and> representable (val z)"
  using dec_result_close[of val r q 9] by (auto simp: max_mantissa_def eps_def)

lemma close23: "dec_result val r q \<Longrightarrow> \<bar>q\<bar> \<le> 100000 \<Longrightarrow> r = Some z \<Longrightarrow> \<bar>val z - q\<bar> \<le> tiny"
  using dec_result_close[of val r q 23] by (auto simp: max_mantissa_def tiny_def)

lemma exactly: "dec_result val r q \<Longrightarrow> representable q \<Longrightarrow> r = Some z \<Longrightarrow> val z = q"
  using dec_result_exact[of val r q] by auto

lemma to_u64_floor:
  assumes "dec_to_u64 D (dec_floor D x) = Some w"
  shows "of_nat (unat w) = (of_int \<lfloor>val x\<rfloor> :: rat) \<and> 0 \<le> \<lfloor>val x\<rfloor>"
proof -
  have b: "0 \<le> \<lfloor>val x\<rfloor>" "\<lfloor>val x\<rfloor> < 2 ^ 64" "w = word_of_int \<lfloor>val x\<rfloor>"
    using assms to_u64[OF floor] by (auto split: if_splits)
  then have "uint w = \<lfloor>val x\<rfloor>" by (simp add: unsigned_of_int take_bit_int_eq_self)
  then have "int (unat w) = \<lfloor>val x\<rfloor>" by simp
  then have "(of_nat (unat w) :: rat) = of_int \<lfloor>val x\<rfloor>" by (metis of_int_of_nat_eq)
  with b(1) show ?thesis by simp
qed

text \<open>A quotient of naturals is non-negative and its value up to rounding.\<close>

lemma quotient_bound:
  assumes x: "val x = of_nat n" and y: "val y = of_nat b" and m: "dec_div D x y = Some m"
    and b: "b < 2 ^ 32" and n: "n \<le> 2 ^ 64 * b"
  shows "0 < b \<and> representable (val m) \<and> \<bar>val m - of_nat n / of_nat b\<bar> \<le> eps \<and>
    0 \<le> val m \<and> val m \<le> 2 ^ 64 + 1"
proof -
  let ?q = "of_nat n / of_nat b :: rat"
  have nz: "val y \<noteq> 0" using div_by_zero[of y x] m by auto
  then have b0: "0 < b" by (cases b) (simp_all add: y)
  have res: "dec_result val (dec_div D x y) ?q" using div[OF nz, of x] by (simp add: x y)
  have "(of_nat n :: rat) \<le> of_nat (2 ^ 64 * b)" unfolding of_nat_le_iff by (rule n)
  then have q: "0 \<le> ?q" "?q \<le> 2 ^ 64" using b0 by (simp_all add: field_simps)
  have close: "\<bar>val m - ?q\<bar> \<le> eps" and rep: "representable (val m)" using close9[OF res _ m] q by auto
  have "0 \<le> val m"
  proof (cases "n = 0")
    case True
    then show ?thesis using exactly[OF res _ m] representable_nat[of 0] by simp
  next
    case False
    then have "(1 :: rat) \<le> of_nat n" by simp
    then have lower: "1 / of_nat b \<le> ?q" by (intro divide_right_mono) simp_all
    show ?thesis
    proof (cases "?q \<le> 1")
      case True
      then have "\<bar>?q\<bar> * 10 ^ 28 \<le> 1 * 10 ^ 28" using q by (intro mult_right_mono) simp_all
      then have "\<bar>?q\<bar> * 10 ^ 28 \<le> max_mantissa" by (rule order_trans) (simp add: max_mantissa_def)
      from dec_result_close[OF res _ this] m have c28: "\<bar>val m - ?q\<bar> \<le> 1 / 10 ^ 28" by auto
      have "(of_nat b :: rat) \<le> of_nat (2 ^ 32)" unfolding of_nat_le_iff using b by simp
      then have "1 / 10 ^ 28 \<le> 1 / (of_nat b :: rat)" using b0 by (simp add: field_simps)
      with lower c28 show ?thesis by linarith
    next
      case False
      then show ?thesis using close unfolding eps_val by linarith
    qed
  qed
  then show ?thesis using b0 rep close q unfolding eps_val by linarith
qed

text \<open>A proposer's reward is its share of the pool up to rounding.\<close>

lemma proposer_reward_bound:
  assumes r: "proposer_reward D (dec_from_u64 D f) (dec_from_u64 D b) p = Inr m"
    and b: "unat b < 2 ^ 32" and p: "unat p \<le> unat b"
  shows "0 < unat b \<and> representable (val m) \<and>
    \<bar>val m - of_nat (unat f * unat p) / of_nat (unat b)\<bar> \<le> eps \<and> 0 \<le> val m \<and> val m \<le> 2 ^ 64 + 1"
proof -
  from r obtain x where x: "dec_mul D (dec_from_u64 D f) (dec_from_u64 D p) = Some x"
    and m: "dec_div D x (dec_from_u64 D b) = Some m"
    by (auto simp: proposer_reward_def or_panic_def rbind_eq_Inr ok_or_eq_Inr)
  have "unat f \<le> 2 ^ 64" using unat_width(4)[of f] by simp
  then have n: "unat f * unat p \<le> 2 ^ 64 * unat b" using p by (intro mult_mono) simp_all
  also have "\<dots> < 2 ^ 64 * 2 ^ 32" using b by simp
  finally have fp: "unat f * unat p < 2 ^ 96" by (simp flip: power_add)
  have "val x = of_nat (unat f * unat p)"
    using exactly[OF mul[of "dec_from_u64 D f" "dec_from_u64 D p"] _ x] representable_nat[OF fp]
    unfolding from_u64 of_nat_mult by simp
  from quotient_bound[OF this from_u64 m b n] show ?thesis .
qed

text \<open>A share of a reward is taken out of it exactly and never exceeds it.\<close>

lemma share_step:
  assumes mr: "representable (val mr)" "0 \<le> val mr" "val mr \<le> 2 ^ 64 + 1"
    and pct: "0 \<le> i" "i \<le> 10000" "dec_div D (dec_from_i64 D i) (dec_lit D 10000 0) = Some pc"
    and reward: "dec_mul D mr pc = Some rw" and sub': "dec_sub D mr (dec_floor D rw) = Some mr'"
    and w: "dec_to_u64 D (dec_floor D rw) = Some w"
  shows "val mr' + of_nat (unat w) = val mr \<and> representable (val mr') \<and> 0 \<le> val mr'"
proof -
  have i: "val (dec_from_i64 D i) = of_int i" using pct from_i64[of i] by simp
  have l: "val (dec_lit D 10000 0) = 10000" using lit[of 10000 0] representable_int[of 10000] by simp
  have "representable (of_int i / 10 ^ 4)" using pct by (intro representableI[where m = i and s = 4]) simp_all
  then have pc: "val pc = of_int i / 10000"
    using exactly[OF div[of "dec_lit D 10000 0" "dec_from_i64 D i"] _ pct(3)] by (simp add: i l)
  let ?q = "val mr * (of_int i / 10000)"
  have res: "dec_result val (dec_mul D mr pc) ?q" using mul[of mr pc] by (simp add: pc)
  have "of_int i \<le> (10000 :: rat)" using pct(2) by (simp flip: of_int_le_iff)
  then have q: "0 \<le> ?q" "?q \<le> val mr"
    using mr(2) pct(1) mult_left_mono[of "of_int i / 10000" 1 "val mr"] by simp_all
  note fw = to_u64_floor[OF w]
  have le: "of_int \<lfloor>val rw\<rfloor> \<le> val mr"
  proof (cases "i = 10000")
    case True
    then have "val rw = val mr" using exactly[OF res _ reward] mr(1) by simp
    then show ?thesis by simp
  next
    case False
    then have "of_int i \<le> (9999 :: rat)" using pct(2) by (simp flip: of_int_le_iff)
    then have q': "?q \<le> val mr * (9999 / 10000)" using mr(2) by (intro mult_left_mono) simp_all
    have c: "\<bar>val rw - ?q\<bar> \<le> eps" using close9[OF res _ reward] q mr(3) by simp
    show ?thesis
    proof (cases "1 \<le> val mr")
      case True
      then have "val rw \<le> val mr" using c q' unfolding eps_val by linarith
      then show ?thesis by linarith
    next
      case False
      then have "val rw < 1" using c q' unfolding eps_val by linarith
      then have "\<lfloor>val rw\<rfloor> \<le> 0" by linarith
      then have "(of_int \<lfloor>val rw\<rfloor> :: rat) \<le> 0" by simp
      with mr(2) show ?thesis by linarith
    qed
  qed
  have rep: "representable (val mr - of_int \<lfloor>val rw\<rfloor>)"
    using representable_minus_int[OF mr(1) _ le] fw by simp
  then have "val mr' = val mr - of_int \<lfloor>val rw\<rfloor>"
    using exactly[OF sub[of mr "dec_floor D rw"] _ sub'] by (simp add: floor)
  with rep le fw show ?thesis by simp
qed

text \<open>What a proposer is given at the end, and how the remainders are carried.\<close>

lemma reward_given_bound:
  assumes r: "reward_given D is_last mr l = Inr (l', w)"
    and mr: "representable (val mr)" "0 \<le> val mr" "val mr \<le> 2 ^ 64 + 1" and l: "\<bar>val l\<bar> \<le> 70000"
  shows "\<bar>val l' - (val l + frac (val mr))\<bar> \<le> tiny \<and>
    of_nat (unat w) \<le> of_int \<lfloor>val mr\<rfloor> + (if is_last then val l' + eps else 0) \<and>
    (\<not> is_last \<longrightarrow> of_nat (unat w) = (of_int \<lfloor>val mr\<rfloor> :: rat))"
proof -
  from r obtain rem g where rem: "dec_sub D mr (dec_floor D mr) = Some rem"
    and l': "dec_add D l rem = Some l'"
    and g: "if is_last then dec_add D (dec_floor D mr) l' = Some g else g = dec_floor D mr"
    and w: "dec_to_u64 D (dec_floor D g) = Some w"
    by (cases is_last) (auto simp: reward_given_def Let_def or_panic_def rbind_eq_Inr ok_or_eq_Inr)
  have fl: "0 \<le> \<lfloor>val mr\<rfloor>" using mr(2) by simp
  have "representable (val mr - of_int \<lfloor>val mr\<rfloor>)" by (rule representable_minus_int[OF mr(1) fl]) simp
  then have remv: "val rem = frac (val mr)"
    using exactly[OF sub[of mr "dec_floor D mr"] _ rem] by (simp add: floor frac_def)
  have fr: "0 \<le> frac (val mr)" "frac (val mr) < 1" by (simp_all add: frac_lt_1)
  have "\<bar>val l + frac (val mr)\<bar> \<le> 100000" using l fr by linarith
  then have close: "\<bar>val l' - (val l + frac (val mr))\<bar> \<le> tiny"
    using close23[OF add[of l rem] _ l'] by (simp add: remv)
  have wv: "of_nat (unat w) = (of_int \<lfloor>val g\<rfloor> :: rat)" using to_u64_floor[OF w] by simp
  show ?thesis
  proof (cases is_last)
    case False
    then show ?thesis using close wv g by (simp add: floor)
  next
    case True
    have "\<bar>val l'\<bar> \<le> 70002" using close l fr unfolding tiny_val by linarith
    moreover have "0 \<le> (of_int \<lfloor>val mr\<rfloor> :: rat)" "of_int \<lfloor>val mr\<rfloor> \<le> val mr" using fl by simp_all
    moreover have "(2 :: rat) ^ 64 + 1 + 70002 \<le> 2 ^ 65" by simp
    ultimately have "\<bar>of_int \<lfloor>val mr\<rfloor> + val l'\<bar> \<le> 2 ^ 65" using mr(3) by linarith
    then have "val g \<le> of_int \<lfloor>val mr\<rfloor> + val l' + eps"
      using close9[OF add[of "dec_floor D mr" l'], of g] True g by (simp add: floor) linarith
    then show ?thesis using close True wv of_int_floor_le[of "val g"] by simp linarith
  qed
qed

end

text \<open>The batch of a list of payments, made one after the other.\<close>

definition pays :: "('db, 'd, 'k) platform \<Rightarrow> 'db \<Rightarrow> batch \<Rightarrow> (bytes \<times> u64) list \<Rightarrow> batch \<Rightarrow> bool" where
  "pays P db b ps b' \<longleftrightarrow>
     foldM (\<lambda>b (i, r). add_pay_reward_to_identity_operations P db i r b) b ps = Inr b'"

definition paid :: "(bytes \<times> u64) list \<Rightarrow> nat" where
  "paid ps = (\<Sum>(i, r) \<leftarrow> ps. unat r)"

lemma pays_Nil [simp]: "pays P db b [] b' \<longleftrightarrow> b' = b"
  by (auto simp: pays_def)

lemma pays_single: "add_pay_reward_to_identity_operations P db i r b = Inr b' \<Longrightarrow> pays P db b [(i, r)] b'"
  by (simp add: pays_def)

lemma pays_append: "pays P db b xs b1 \<Longrightarrow> pays P db b1 ys b2 \<Longrightarrow> pays P db b (xs @ ys) b2"
  by (simp add: pays_def foldM_append)

lemma paid_append [simp]: "paid (xs @ ys) = paid xs + paid ys"
  by (simp add: paid_def)

lemma paid_single [simp]: "paid [(i, r)] = unat r" "paid [] = 0"
  by (simp_all add: paid_def)

text \<open>Percentages of reward shares are between 0 and 10000, as the reward shares contract requires.\<close>

definition percentage_ok :: "document_properties \<Rightarrow> bool" where
  "percentage_ok doc \<longleftrightarrow> (\<forall>i. doc ''percentage'' = Some (CInteger i) \<longrightarrow> 0 \<le> i \<and> i \<le> 10000)"

lemma share_percentage_ok: "share_percentage doc = Inr i \<Longrightarrow> percentage_ok doc \<Longrightarrow> 0 \<le> i \<and> i \<le> 10000"
  by (auto simp: share_percentage_def percentage_ok_def rbind_eq_Inr ok_or_eq_Inr elim!: as_integer.elims split: if_splits)

lemma pay_shares_bound:
  assumes D: "decimal_arith (decimal P) val"
    and "foldM (pay_share P db) (mr, b) docs = Inr (mr', b')" and "\<forall>doc \<in> set docs. percentage_ok doc"
    and "representable (val mr)" "0 \<le> val mr" "val mr \<le> 2 ^ 64 + 1"
  shows "\<exists>ps. pays P db b ps b' \<and> val mr' + of_nat (paid ps) = val mr \<and> representable (val mr') \<and> 0 \<le> val mr'"
  using assms(2-)
proof (induction docs arbitrary: mr b)
  case Nil
  then show ?case by (intro exI[of _ "[]"]) simp
next
  case (Cons doc docs)
  from Cons.prems(1) obtain st where st: "pay_share P db (mr, b) doc = Inr st"
    "foldM (pay_share P db) st docs = Inr (mr', b')" by (auto simp: rbind_eq_Inr)
  from st(1) obtain t i pc rw mr1 w b1 where s: "share_percentage doc = Inr i"
      "dec_div (decimal P) (dec_from_i64 (decimal P) i) (dec_lit (decimal P) 10000 0) = Some pc"
      "dec_mul (decimal P) mr pc = Some rw" "dec_sub (decimal P) mr (dec_floor (decimal P) rw) = Some mr1"
      "dec_to_u64 (decimal P) (dec_floor (decimal P) rw) = Some w"
      "add_pay_reward_to_identity_operations P db t w b = Inr b1" "st = (mr1, b1)"
    by (auto simp: pay_share_def Let_def or_panic_def rbind_eq_Inr ok_or_eq_Inr)
  have i: "0 \<le> i" "i \<le> 10000" using share_percentage_ok[OF s(1)] Cons.prems(2) by simp_all
  have step: "val mr1 + of_nat (unat w) = val mr" "representable (val mr1)" "0 \<le> val mr1"
    using decimal_arith.share_step[OF D Cons.prems(3-5) i s(2-5)] by simp_all
  then have "val mr1 \<le> 2 ^ 64 + 1" using Cons.prems(5) of_nat_0_le_iff[of "unat w", where 'a = rat] by linarith
  then obtain ps where ps: "pays P db b1 ps b'" "val mr' + of_nat (paid ps) = val mr1" "representable (val mr')" "0 \<le> val mr'"
    using Cons.IH[OF st(2)[unfolded s(7)]] Cons.prems(2) step(2,3) by auto
  then show ?case using pays_append[OF pays_single[OF s(6)] ps(1)] step(1)
    by (intro exI[of _ "[(t, w)] @ ps"]) (auto simp: paid_def)
qed

lemma pay_proposer_bound:
  assumes D: "decimal_arith (decimal P) val"
    and r: "pay_proposer P db (dec_from_u64 (decimal P) f) (dec_from_u64 (decimal P) c) n (l, b) (i, h, p) = Inr (l', b')"
    and docs: "\<And>docs. reward_shares P db h = Inr docs \<Longrightarrow> \<forall>doc \<in> set docs. percentage_ok doc"
    and c: "unat c < 2 ^ 32" "unat p \<le> unat c" and l: "\<bar>val l\<bar> \<le> 70000"
  shows "\<exists>ps s. pays P db b ps b' \<and> 0 < unat c \<and> 0 \<le> s \<and> s < 1 \<and> \<bar>val l' - (val l + s)\<bar> \<le> tiny \<and>
    of_nat (paid ps) + s \<le> of_nat (unat f * unat p) / of_nat (unat c) + eps +
      (if i = n - 1 then val l' + eps else 0)"
proof -
  from r obtain m docs mr b1 w where m: "proposer_reward (decimal P) (dec_from_u64 (decimal P) f)
      (dec_from_u64 (decimal P) c) p = Inr m"
    and d: "reward_shares P db h = Inr docs" "foldM (pay_share P db) (m, b) docs = Inr (mr, b1)"
    and g: "reward_given (decimal P) (i = n - 1) mr l = Inr (l', w)"
    and a: "add_pay_reward_to_identity_operations P db h w b1 = Inr b'"
    by (auto simp: pay_proposer_def get_reward_shares_list_for_masternode_def rbind_eq_Inr from_drive_eq_Inr)
  note mb = decimal_arith.proposer_reward_bound[OF D m c]
  obtain ps where ps: "pays P db b ps b1" "val mr + of_nat (paid ps) = val m" "representable (val mr)" "0 \<le> val mr"
    using pay_shares_bound[OF D d(2) docs[OF d(1)]] mb by blast
  have "val mr \<le> 2 ^ 64 + 1" using ps(2) mb of_nat_0_le_iff[of "paid ps", where 'a = rat] by linarith
  note gb = decimal_arith.reward_given_bound[OF D g ps(3,4) this l]
  have "of_int \<lfloor>val mr\<rfloor> = val mr - frac (val mr)" by (simp add: frac_def)
  moreover have "of_nat (paid (ps @ [(h, w)])) = (of_nat (paid ps) + of_nat (unat w) :: rat)"
    by (simp only: paid_append paid_single of_nat_add)
  ultimately have "of_nat (paid (ps @ [(h, w)])) + frac (val mr) \<le>
      of_nat (unat f * unat p) / of_nat (unat c) + eps + (if i = n - 1 then val l' + eps else 0)"
    using gb ps(2) mb by (cases "i = n - 1") (simp_all only: if_True if_False simp_thms, linarith+)
  then show ?thesis using pays_append[OF ps(1) pays_single[OF a]] mb gb frac_ge_0[of "val mr"] frac_lt_1[of "val mr"]
    by blast
qed


text \<open>The proposers before the last one: what they are paid and the remainders they leave.\<close>

lemma pay_proposers_bound:
  assumes D: "decimal_arith (decimal P) val" and c: "unat c < 2 ^ 32"
    and "foldM (pay_proposer P db (dec_from_u64 (decimal P) f) (dec_from_u64 (decimal P) c) n) (l, b) xs = Inr (l', b')"
    and "\<forall>(i, h, p) \<in> set xs. i \<noteq> n - 1 \<and> unat p \<le> unat c \<and>
      (\<forall>docs. reward_shares P db h = Inr docs \<longrightarrow> (\<forall>doc \<in> set docs. percentage_ok doc))"
    and "\<bar>val l\<bar> + of_nat (length xs) * (1 + tiny) \<le> 70000"
  shows "\<exists>ps s. pays P db b ps b' \<and> 0 \<le> s \<and> s \<le> of_nat (length xs) \<and>
    \<bar>val l' - (val l + s)\<bar> \<le> of_nat (length xs) * tiny \<and>
    of_nat (paid ps) + s \<le>
      (\<Sum>(i, h, p) \<leftarrow> xs. of_nat (unat f * unat p) / of_nat (unat c)) + of_nat (length xs) * eps"
  using assms(3-)
proof (induction xs arbitrary: l b)
  case Nil
  then show ?case by (intro exI[of _ "[]"] exI[of _ 0]) simp
next
  case (Cons x xs)
  obtain i h p where x: "x = (i, h, p)" by (cases x)
  from Cons.prems(1) x obtain l1 b1 where
      st: "pay_proposer P db (dec_from_u64 (decimal P) f) (dec_from_u64 (decimal P) c) n (l, b) (i, h, p) = Inr (l1, b1)"
    and rest: "foldM (pay_proposer P db (dec_from_u64 (decimal P) f) (dec_from_u64 (decimal P) c) n) (l1, b1) xs = Inr (l', b')"
    by (auto simp: rbind_eq_Inr)
  have ok: "i \<noteq> n - 1" "unat p \<le> unat c" "\<And>docs. reward_shares P db h = Inr docs \<Longrightarrow> \<forall>doc \<in> set docs. percentage_ok doc"
    and oks: "\<forall>(i, h, p) \<in> set xs. i \<noteq> n - 1 \<and> unat p \<le> unat c \<and>
      (\<forall>docs. reward_shares P db h = Inr docs \<longrightarrow> (\<forall>doc \<in> set docs. percentage_ok doc))"
    using Cons.prems(2) by (auto simp: x)
  have len: "of_nat (length (x # xs)) = (of_nat (length xs) + 1 :: rat)" by simp
  let ?k = "of_nat (length xs) :: rat"
  have budget: "\<bar>val l\<bar> + ?k + ?k * tiny + 1 + tiny \<le> 70000"
    using Cons.prems(3) unfolding len by (simp add: algebra_simps)
  have k: "0 \<le> ?k" "0 \<le> ?k * tiny" by (simp_all add: tiny_def)
  have "\<bar>val l\<bar> \<le> 70000" using budget k unfolding tiny_val by linarith
  from pay_proposer_bound[OF D st ok(3) c ok(2) this] obtain ps s where
    s: "pays P db b ps b1" "0 \<le> s" "s < 1" "\<bar>val l1 - (val l + s)\<bar> \<le> tiny"
      "of_nat (paid ps) + s \<le> of_nat (unat f * unat p) / of_nat (unat c) + eps"
    using ok(1) by auto
  have "\<bar>val l1\<bar> + ?k * (1 + tiny) \<le> 70000" using budget s(2-4) by (simp add: algebra_simps)
  from Cons.IH[OF rest oks this] obtain ps' s' where
    s': "pays P db b1 ps' b'" "0 \<le> s'" "s' \<le> ?k" "\<bar>val l' - (val l1 + s')\<bar> \<le> ?k * tiny"
      "of_nat (paid ps') + s' \<le> (\<Sum>(i, h, p) \<leftarrow> xs. of_nat (unat f * unat p) / of_nat (unat c)) + ?k * eps"
    by blast
  have "of_nat (paid (ps @ ps')) = (of_nat (paid ps) + of_nat (paid ps') :: rat)" by simp
  moreover have "(?k + 1) * tiny = ?k * tiny + tiny" "(?k + 1) * eps = ?k * eps + eps"
    by (simp_all add: algebra_simps)
  moreover have "(\<Sum>(i, h, p) \<leftarrow> x # xs. of_nat (unat f * unat p) / of_nat (unat c) :: rat) =
      of_nat (unat f * unat p) / of_nat (unat c) + (\<Sum>(i, h, p) \<leftarrow> xs. of_nat (unat f * unat p) / of_nat (unat c))"
    by (simp add: x)
  ultimately show ?case
    unfolding len using s s' by (intro exI[of _ "ps @ ps'"] exI[of _ "s + s'"] conjI pays_append[OF s(1) s'(1)]) linarith+
qed

text \<open>Shares proportional to counts that add up to at most the whole.\<close>

lemma shares_within:
  fixes ns :: "'n list"
  assumes "(\<Sum>(h, p) \<leftarrow> xs. unat (p :: u64)) \<le> c" "0 < c"
  shows "(\<Sum>(i, h, p) \<leftarrow> zip ns xs. of_nat (f * unat p) / (of_nat c :: rat)) \<le> of_nat f"
proof -
  have "(\<Sum>(i, h, p) \<leftarrow> zip ns xs. of_nat (f * unat p) / (of_nat c :: rat)) =
      of_nat (f * (\<Sum>(i, h, p) \<leftarrow> zip ns xs. unat p)) / of_nat c"
    by (induction ns xs rule: list_induct2') (auto simp: distrib_left add_divide_distrib)
  moreover have "(\<Sum>(i, h, p) \<leftarrow> zip ns xs. unat p) \<le> (\<Sum>(h, p) \<leftarrow> xs. unat p)"
    by (induction ns xs rule: list_induct2') auto
  then have "f * (\<Sum>(i, h, p) \<leftarrow> zip ns xs. unat p) \<le> f * c" using assms(1) le_trans by (intro mult_left_mono) blast+
  then have "(of_nat (f * (\<Sum>(i, h, p) \<leftarrow> zip ns xs. unat p)) :: rat) \<le> of_nat (f * c)" unfolding of_nat_le_iff .
  ultimately show ?thesis using assms(2) by (simp only: of_nat_mult) (simp add: divide_le_eq)
qed


lemma proposers_within:
  assumes G: "grove_contract (grove (drive P))"
    and "get_epoch_proposers (grove (drive P)) db e limit = Inr proposers"
  shows "length proposers \<le> 65535"
proof -
  obtain rows where rows: "gdb_query_raw (grove (drive P)) db
      \<lparr>pq_path = get_proposers_path e, pq_query = insert_item RangeFull query_new,
       pq_limit = Some limit, pq_offset = None\<rparr> = Inr rows" "mapM proposer_row rows = Inr proposers"
    using assms(2) by (auto simp: get_epoch_proposers_def rbind_eq_Inr map_err_eq_Inr)
  have "length rows \<le> unat limit" by (rule grove_contract.query_limit[OF G rows(1)]) simp
  then show ?thesis using mapM_length[OF rows(2)] unat_width(2)[of limit] by simp
qed

lemma member_count_le: "(h, p) \<in> set xs \<Longrightarrow> unat p \<le> (\<Sum>(h, p) \<leftarrow> xs. unat (p :: u64))"
  by (induction xs) auto

lemma pay_all_proposers:
  assumes D: "decimal_arith (decimal P) val" and c: "unat c < 2 ^ 32"
    and n: "length proposers \<le> 65535" "proposers \<noteq> []"
    and sum: "(\<Sum>(h, p) \<leftarrow> proposers. unat p) \<le> unat c"
    and docs: "\<forall>(h, p) \<in> set proposers. \<forall>docs. reward_shares P db h = Inr docs \<longrightarrow> (\<forall>doc \<in> set docs. percentage_ok doc)"
    and r: "foldM (pay_proposer P db (dec_from_u64 (decimal P) f) (dec_from_u64 (decimal P) c)
        (word_of_nat (length proposers))) (dec_lit (decimal P) 0 1, b)
        (zip (map word_of_nat [0 ..< length proposers]) proposers) = Inr (l', b')"
  shows "\<exists>ps. pays P db b ps b' \<and> paid ps \<le> unat f"
proof -
  obtain xs h p where props: "proposers = xs @ [(h, p)]" using n(2) by (metis rev_exhaust surj_pair)
  let ?k = "length xs" and ?n = "word_of_nat (length proposers) :: u16"
  let ?zs = "zip (map word_of_nat [0 ..< ?k]) xs :: (u16 \<times> bytes \<times> u64) list"
  have z: "zip (map word_of_nat [0 ..< length proposers]) proposers = ?zs @ [(word_of_nat ?k, h, p)]"
    by (simp add: props)
  have last_ix: "?n - 1 = word_of_nat ?k" by (simp add: props)
  have other: "word_of_nat i \<noteq> (word_of_nat ?k :: u16)" if "i < ?k" for i
    using that n(1) props by (simp add: word_of_nat_eq_iff take_bit_nat_eq_self_iff take_bit_nat_eq_self)
  obtain l b1 where
      front: "foldM (pay_proposer P db (dec_from_u64 (decimal P) f) (dec_from_u64 (decimal P) c) ?n)
        (dec_lit (decimal P) 0 1, b) ?zs = Inr (l, b1)"
    and final: "pay_proposer P db (dec_from_u64 (decimal P) f) (dec_from_u64 (decimal P) c) ?n (l, b1)
        (word_of_nat ?k, h, p) = Inr (l', b')"
    using r unfolding z foldM_append by (auto simp: rbind_eq_Inr)
  have pc: "unat p' \<le> unat c" if "(h', p') \<in> set proposers" for h' p'
    using member_count_le[OF that] sum by simp
  have zs: "\<forall>(i, h, p) \<in> set ?zs. i \<noteq> ?n - 1 \<and> unat p \<le> unat c \<and>
      (\<forall>docs. reward_shares P db h = Inr docs \<longrightarrow> (\<forall>doc \<in> set docs. percentage_ok doc))"
  proof clarify
    fix i h' p' assume "(i, h', p') \<in> set ?zs"
    then obtain j where "j < ?k" "i = word_of_nat j" "xs ! j = (h', p')" by (auto simp: set_zip)
    moreover from this have "(h', p') \<in> set proposers" using nth_mem[of j xs] by (simp add: props)
    ultimately show "i \<noteq> ?n - 1 \<and> unat p' \<le> unat c \<and>
        (\<forall>docs. reward_shares P db h' = Inr docs \<longrightarrow> (\<forall>doc \<in> set docs. percentage_ok doc))"
      unfolding last_ix using other[of j] pc[of h' p'] bspec[OF docs, of "(h', p')"] by simp
  qed
  have l0: "val (dec_lit (decimal P) 0 1) = 0"
    using decimal_arith.lit[OF D, of 0 1] representable_int[of 0] by simp
  have "(of_nat ?k :: rat) \<le> of_nat 65534" unfolding of_nat_le_iff using n(1) props by simp
  then have k: "0 \<le> (of_nat ?k :: rat)" "(of_nat ?k :: rat) \<le> 65534" by simp_all
  then have kt: "of_nat ?k * tiny \<le> 65534 * tiny" "of_nat ?k * eps \<le> 65534 * eps"
    by (auto simp: tiny_def eps_def intro: divide_right_mono)
  have "\<bar>val (dec_lit (decimal P) 0 1)\<bar> + of_nat (length ?zs) * (1 + tiny) \<le> 70000"
    unfolding l0 length_zip length_map length_upt distrib_left mult_1_right tiny_val
    using k kt unfolding tiny_val by simp
  from pay_proposers_bound[OF D c front zs this] obtain ps s where
    s: "pays P db b ps b1" "0 \<le> s" "s \<le> of_nat ?k" "\<bar>val l - s\<bar> \<le> of_nat ?k * tiny"
      "of_nat (paid ps) + s \<le> (\<Sum>(i, h, p) \<leftarrow> ?zs. of_nat (unat f * unat p) / of_nat (unat c)) + of_nat ?k * eps"
    unfolding l0 length_zip length_map length_upt by auto
  have "\<bar>val l\<bar> \<le> 70000" using s(2-4) k kt unfolding tiny_val by linarith
  moreover have hp: "(h, p) \<in> set proposers" by (simp add: props)
  ultimately obtain ps' s' where
    s': "pays P db b1 ps' b'" "0 < unat c" "\<bar>val l' - (val l + s')\<bar> \<le> tiny"
      "of_nat (paid ps') + s' \<le> of_nat (unat f * unat p) / of_nat (unat c) + eps + (val l' + eps)"
    using pay_proposer_bound[OF D final _ c pc[OF hp]] bspec[OF docs hp] unfolding last_ix by auto
  have "(\<Sum>(i, h, p) \<leftarrow> ?zs @ [(word_of_nat ?k :: u16, h, p)]. of_nat (unat f * unat p) / of_nat (unat c)) \<le> (of_nat (unat f) :: rat)"
    using shares_within[OF sum s'(2), of "unat f" "map word_of_nat [0 ..< length proposers] :: u16 list"] unfolding z .
  then have "(\<Sum>(i, h, p) \<leftarrow> ?zs. of_nat (unat f * unat p) / of_nat (unat c)) + of_nat (unat f * unat p) / of_nat (unat c)
      \<le> (of_nat (unat f) :: rat)" by simp
  then have "(of_nat (paid ps) + of_nat (paid ps') :: rat) < of_nat (unat f) + 1"
    using s s' kt unfolding eps_val tiny_val by linarith
  then have "(of_nat (paid (ps @ ps')) :: rat) < of_nat (unat f + 1)" by simp
  then have "paid (ps @ ps') < unat f + 1" unfolding of_nat_less_iff .
  then show ?thesis using pays_append[OF s(1) s'(1)] by (intro exI[of _ "ps @ ps'"]) simp
qed

text \<open>C4: the operations that pay out an epoch pool are a sequence of payments to identities whose
  amounts together never exceed the credits of that pool, followed by the deletion of the proposers
  paid. Rounding of the decimals is taken into account, as are the reward shares of masternodes and
  the collected remainders given to the last proposer. Required is that the proposers' block counts
  add up to at most the blocks of the epoch, that an epoch has fewer than \<open>2 ^ 32\<close> blocks, and that
  the share documents hold the percentages their contract allows.\<close>

theorem payouts_within_pool:
  assumes "decimal_arith (decimal P) val" "grove_contract (grove (drive P))"
    and "epoch_new (epoch_index u) = Inr e"
    and "get_epoch_total_credits_for_distribution (grove (drive P)) db e = Inr f"
    and "block_count u = Inr c" "unat c < 2 ^ 32"
    and "get_epoch_proposers (grove (drive P)) db e limit = Inr proposers"
    and "(\<Sum>(h, p) \<leftarrow> proposers. unat p) \<le> unat c"
    and "\<forall>(h, p) \<in> set proposers. \<forall>docs. reward_shares P db h = Inr docs \<longrightarrow> (\<forall>doc \<in> set docs. percentage_ok doc)"
    and "add_epoch_pool_to_proposers_payout_operations P db u limit batch = Inr (n, batch')"
  shows "\<exists>payments b. pays P db batch payments b \<and> paid payments \<le> unat f \<and>
    batch' = add_delete_proposers_operations e (map fst proposers) b \<and> unat n = length proposers"
proof -
  from assms(3-5,7,10) obtain l b where
      r: "foldM (pay_proposer P db (dec_from_u64 (decimal P) f) (dec_from_u64 (decimal P) c)
        (word_of_nat (length proposers))) (dec_lit (decimal P) 0 1, batch)
        (zip (map word_of_nat [0 ..< length proposers]) proposers) = Inr (l, b)"
    and b: "batch' = add_delete_proposers_operations e (map fst proposers) b" "n = word_of_nat (length proposers)"
    by (auto simp: add_epoch_pool_to_proposers_payout_operations_def Let_def rbind_eq_Inr from_drive_eq_Inr)
  have len: "length proposers \<le> 65535" by (rule proposers_within[OF assms(2,7)])
  then have n: "unat n = length proposers" using b(2) by (simp add: unat_of_nat)
  show ?thesis
  proof (cases "proposers = []")
    case True
    with r have "b = batch" by simp
    with b n True show ?thesis by (intro exI[of _ "[]"] exI[of _ b]) simp
  next
    case False
    from pay_all_proposers[OF assms(1,6) len False assms(8,9) r] b n show ?thesis by blast
  qed
qed


section \<open>An epoch with one proposer\<close>

text \<open>Epoch 0 holds three storage and seven processing credits; one masternode proposed its two blocks.\<close>

definition masternode :: "unit identity" where
  "masternode = \<lparr>identity_protocol_version = 1, identity_id = replicate 32 9, public_keys = (), balance = 55, revision = 0\<rparr>"

definition payout_store :: store where
  "payout_store =
     [((get_path (epoch_at 0), KEY_POOL_STORAGE_FEES), u64_item 3),
      ((get_path (epoch_at 0), KEY_POOL_PROCESSING_FEES), u64_item 7),
      ((get_path (epoch_at 0), KEY_START_BLOCK_HEIGHT), u64_item 1),
      ((get_proposers_path (epoch_at 0), replicate 32 9), u64_item 2),
      ((pools_path, KEY_UNPAID_EPOCH_INDEX), Item (u16_to_be 0) None),
      ((identity_path (replicate 32 9), IDENTITY_KEY), Item (the (to_buffer reference_identity_ops masternode)) None)]"

definition payout_platform :: "(store, rat, unit) platform" where
  "payout_platform = \<lparr>drive = reference_drive, decimal = reference_decimal, identities = reference_identity_ops,
     reward_shares = (\<lambda>db i. Inr []), append_request_info = (\<lambda>h q bs. Some (bs @ u32_to_be h @ q))\<rparr>"

definition payout_epoch :: unpaid_epoch where
  "payout_epoch = \<lparr>epoch_index = 0, start_block_height = 1, end_block_height = 3, next_unpaid_epoch_index = 1\<rparr>"

lemma payout_platform_simps [simp]:
  "drive payout_platform = reference_drive" "decimal payout_platform = reference_decimal"
  "identities payout_platform = reference_identity_ops" "reward_shares payout_platform = (\<lambda>db i. Inr [])"
  "grove reference_drive = reference_grove" "gdb_get reference_grove = store_get"
  "batching_enabled (config reference_drive)"
  by (simp_all add: payout_platform_def reference_drive_def reference_grove_def drive_config_default_def)

lemma epoch_at_0 [simp]: "epoch_new 0 = Inr (epoch_at 0)"
  by (simp add: epoch_new_storable)

lemma key_epoch_0: "key (epoch_at 0) = [1, 0]"
  by (simp add: epoch_at_def u16_to_be_def be_bytes_eval)

lemmas payout_eval = payout_store_def store_get_def read_item_def get_path_def get_proposers_path_def pools_path_def
  identity_path_def key_constants u64_item_def key_epoch_0

lemma payout_total: "get_epoch_total_credits_for_distribution reference_grove payout_store (epoch_at 0) = Inr 10"
  by (simp add: get_epoch_total_credits_for_distribution_def get_epoch_storage_credits_for_distribution_def
      get_epoch_processing_credits_for_distribution_def payout_eval checked_add_def)

lemma payout_proposers: "get_epoch_proposers reference_grove payout_store (epoch_at 0) 50 = Inr [(replicate 32 9, 2)]"
  by (simp add: get_epoch_proposers_def reference_grove_def store_query_def store_select_def store_keys_def
      store_rows_def List.map_filter_def query_covers_def insert_item_def query_new_def query_new_with_direction_def
      payout_eval proposer_row_def del: set_filter)

lemma dec_fit_nat: "n < 2 ^ 96 \<Longrightarrow> dec_fit 28 (of_nat n) = Some (of_nat n)"
  using dec_fit_result[of "of_nat n"] representable_nat[of n] by (auto simp: dec_result_def)

lemma payout_arith:
  "dec_mul reference_decimal 10 2 = Some 20" "dec_div reference_decimal 20 2 = Some 10"
  "dec_sub reference_decimal 10 10 = Some 0" "dec_add reference_decimal 0 0 = Some 0"
  "dec_add reference_decimal 10 0 = Some 10" "dec_floor reference_decimal 10 = 10"
  "dec_from_u64 reference_decimal 10 = 10" "dec_from_u64 reference_decimal 2 = 2" "dec_lit reference_decimal 0 (Suc 0) = 0"
  "dec_to_u64 reference_decimal 10 = Some 10"
  using dec_fit_nat[of 20] dec_fit_nat[of 10] dec_fit_nat[of 0] by (simp_all add: reference_decimal_def)

lemma payout_identity: "fetch_identity reference_identity_ops reference_drive payout_store (replicate 32 9) = Inr (masternode, None)"
proof -
  obtain bs where bs: "to_buffer reference_identity_ops masternode = Some bs"
    by (simp add: reference_identity_ops_def masternode_def)
  have "from_buffer reference_identity_ops bs = Some masternode" by (rule ref_identity.from_to_buffer[OF bs])
  then show ?thesis
    by (simp add: fetch_identity_def payout_eval IDENTITY_KEY_def bs decode_identity_def from_some_element_flags_ref_def
        root_key_def)
qed

theorem payouts_within_pool_witness:
  "\<exists>n batch' payments b. add_epoch_pool_to_proposers_payout_operations payout_platform payout_store payout_epoch 50 [] = Inr (n, batch') \<and>
    pays payout_platform payout_store [] payments b \<and> paid payments \<le> unat (10 :: u64) \<and>
    batch' = add_delete_proposers_operations (epoch_at 0) [replicate 32 9] b \<and> n = 1"
proof -
  have count: "block_count payout_epoch = Inr 2" by (simp add: block_count_def payout_epoch_def checked_sub_def)
  obtain bs where bs: "to_buffer reference_identity_ops (masternode\<lparr>balance := 65\<rparr>) = Some bs"
    by (simp add: reference_identity_ops_def masternode_def)
  have pay: "\<exists>b'. add_pay_reward_to_identity_operations payout_platform payout_store (replicate 32 9) 10 b = Inr b'" for b
    using bs by (simp add: add_pay_reward_to_identity_operations_def payout_identity checked_add_def
        add_insert_identity_operations_def masternode_def)
  then obtain b1 where b1: "add_pay_reward_to_identity_operations payout_platform payout_store (replicate 32 9) 10 [] = Inr b1" ..
  have ix: "epoch_index payout_epoch = 0" by (simp add: payout_epoch_def)
  have r: "add_epoch_pool_to_proposers_payout_operations payout_platform payout_store payout_epoch 50 [] =
      Inr (1, add_delete_proposers_operations (epoch_at 0) [replicate 32 9] b1)"
    using b1 payout_total payout_proposers count
    by (simp add: add_epoch_pool_to_proposers_payout_operations_def ix pay_proposer_def proposer_reward_def payout_arith
        or_panic_def get_reward_shares_list_for_masternode_def reward_given_def Let_def)
  from payouts_within_pool[of payout_platform id payout_epoch "epoch_at 0" payout_store 10 2 50, OF _ _ _ _ count _ _ _ _ r]
    payout_total payout_proposers ix ref_dec.decimal_arith_axioms ref_grove.grove_contract_axioms r
  show ?thesis by auto
qed


theorem oldest_unpaid_epoch_advances_witness:
  "\<exists>u. find_oldest_epoch_needing_payment payout_platform payout_store 1 (Some 3) = Inr (Some u) \<and>
    epoch_index u = 0 \<and> (0 :: u16) < next_unpaid_epoch_index u \<and> next_unpaid_epoch_index u \<le> 1"
proof -
  have i: "get_unpaid_epoch_index (grove (drive payout_platform)) payout_store = Inr 0"
    by (simp add: get_unpaid_epoch_index_def payout_eval)
  obtain u where u: "find_oldest_epoch_needing_payment payout_platform payout_store 1 (Some 3) = Inr (Some u)"
    using i by (simp add: find_oldest_epoch_needing_payment_def GENESIS_EPOCH_INDEX_def get_epoch_start_block_height_def
        payout_eval end_of_previous_epoch_def)
  from oldest_unpaid_epoch_advances[OF _ u i] reference_drive_contract u show ?thesis by auto
qed

section \<open>Two payments to one identity\<close>

lemma pay_reward_batch:
  assumes "fetch_identity (identities P) (drive P) db i = Inr (ident, flags)"
    and "add_pay_reward_to_identity_operations P db i r b = Inr b'"
  shows "\<exists>w bs. checked_add (balance ident) r = Some w \<and> to_buffer (identities P) (ident\<lparr>balance := w\<rparr>) = Some bs \<and>
    b' = b @ pay_ops (varint (drive P)) bs ident flags"
  using assms
  by (auto simp: add_pay_reward_to_identity_operations_def add_insert_identity_operations_def rbind_eq_Inr ok_or_eq_Inr
      from_drive_eq_Inr add_insert_def add_insert_empty_tree_with_flags_def push_def pay_ops_def)



end
