(* ===== verification/DocFields.thy ===== *)
theory DocFields
  imports Cbor
begin

text \<open>
  Fields of documents: \<open>dpp/src/data_contract/extra/document_field.rs\<close> and \<open>array_field.rs\<close>. A field
  type bounds the size of its values, serializes them into a document, reads them back, and encodes
  them into the keys of an index. Encoded keys are shown to be ordered as the values, which every range
  query over an index relies on. Base64 and the variable-length integers of \<open>integer-encoding\<close> are
  arguments; allocation failure is not modelled.
\<close>

section \<open>Types of fields\<close>

datatype array_field_type =
    AInteger
  | ANumber
  | AString "u64 option" "u64 option"
  | AByteArray "u64 option" "u64 option"
  | ABoolean
  | ADate

datatype document_field_type =
    FInteger
  | FNumber
  | FString "u16 option" "u16 option"
  | FByteArray "u16 option" "u16 option"
  | FBoolean
  | FDate
  | FObject "(string \<times> document_field) list"
  | FArray array_field_type
  | FVariableTypeArray "array_field_type list"
and document_field = DocumentField document_field_type bool

fun field_document_type :: "document_field \<Rightarrow> document_field_type" where
  "field_document_type (DocumentField t r) = t"

fun field_required :: "document_field \<Rightarrow> bool" where
  "field_required (DocumentField t r) = r"

text \<open>Sizes: of an object the sum over its fields, of arrays none, of the others as given.\<close>

fun size_of_field :: "(document_field_type \<Rightarrow> u16 option) \<Rightarrow> document_field_type \<Rightarrow> u16 option"
and size_of_fields :: "(document_field_type \<Rightarrow> u16 option) \<Rightarrow> (string \<times> document_field) list \<Rightarrow> u16 option" where
  "size_of_field leaf (FObject fs) = size_of_fields leaf fs"
| "size_of_field leaf (FArray _) = None"
| "size_of_field leaf (FVariableTypeArray _) = None"
| "size_of_field leaf t = leaf t"
| "size_of_fields leaf [] = Some 0"
| "size_of_fields leaf ((_, DocumentField t r) # fs) =
     Option.bind (size_of_field leaf t) (\<lambda>n. map_option (\<lambda>m. n + m) (size_of_fields leaf fs))"

definition or_else :: "'a option \<Rightarrow> 'a \<Rightarrow> 'a" where
  "or_else x d = (case x of None \<Rightarrow> d | Some v \<Rightarrow> v)"

definition min_size :: "document_field_type \<Rightarrow> u16 option" where
  "min_size = size_of_field (\<lambda>t. case t of
     FString min_length _ \<Rightarrow> Some (or_else min_length 0)
   | FByteArray min_length _ \<Rightarrow> Some (or_else min_length 0)
   | FBoolean \<Rightarrow> Some 1
   | _ \<Rightarrow> Some 8)"

definition min_byte_size :: "document_field_type \<Rightarrow> u16 option" where
  "min_byte_size = size_of_field (\<lambda>t. case t of
     FString min_length _ \<Rightarrow> Some (case min_length of None \<Rightarrow> 0 | Some n \<Rightarrow> n * 4)
   | FByteArray min_length _ \<Rightarrow> Some (or_else min_length 0)
   | FBoolean \<Rightarrow> Some 1
   | _ \<Rightarrow> Some 8)"

definition max_byte_size :: "document_field_type \<Rightarrow> u16 option" where
  "max_byte_size = size_of_field (\<lambda>t. case t of
     FString _ max_length \<Rightarrow> Some (case max_length of None \<Rightarrow> 65535 | Some n \<Rightarrow> n * 4)
   | FByteArray _ max_length \<Rightarrow> Some (or_else max_length 65535)
   | FBoolean \<Rightarrow> Some 1
   | _ \<Rightarrow> Some 8)"

definition max_size :: "document_field_type \<Rightarrow> u16 option" where
  "max_size = size_of_field (\<lambda>t. case t of
     FString _ max_length \<Rightarrow> Some (or_else max_length 16383)
   | FByteArray _ max_length \<Rightarrow> Some (or_else max_length 65535)
   | FBoolean \<Rightarrow> Some 1
   | _ \<Rightarrow> Some 8)"

section \<open>Floating point and text\<close>

text \<open>
  IEEE 754 binary64 on bit patterns: the sign is the top bit, and numbers are ordered as the integers
  their remaining bits spell, with the sign. Nothing compares with a NaN.
\<close>

definition f64_is_nan :: "f64 \<Rightarrow> bool" where
  "f64_is_nan w \<longleftrightarrow> 0x7FF0000000000000 < unat w mod 2 ^ 63"

definition f64_signed :: "f64 \<Rightarrow> int" where
  "f64_signed w = (if unat w < 2 ^ 63 then int (unat w) else - (int (unat w) - 2 ^ 63))"

definition f64_less :: "f64 \<Rightarrow> f64 \<Rightarrow> bool" where
  "f64_less a b \<longleftrightarrow> \<not> f64_is_nan a \<and> \<not> f64_is_nan b \<and> f64_signed a < f64_signed b"

definition f64_negative_zero :: f64 where "f64_negative_zero = 0x8000000000000000"

text \<open>The cast of an integer to \<open>f64\<close>: round to nearest, ties to even.\<close>

fun log2_floor :: "nat \<Rightarrow> nat \<Rightarrow> nat" where
  "log2_floor 0 n = 0"
| "log2_floor (Suc fuel) n = (if n < 2 then 0 else Suc (log2_floor fuel (n div 2)))"

definition f64_significand :: "nat \<Rightarrow> nat \<Rightarrow> nat" where
  "f64_significand n e =
     (if e \<le> 52 then n * 2 ^ (52 - e)
      else let unit' = 2 ^ (e - 52); q = n div unit'; r = n mod unit'
           in if 2 * r < unit' \<or> 2 * r = unit' \<and> even q then q else q + 1)"

definition f64_of_nat :: "nat \<Rightarrow> nat" where
  "f64_of_nat n =
     (if n = 0 then 0
      else let e = log2_floor 128 n in (e + 1023) * 2 ^ 52 + (f64_significand n e - 2 ^ 52))"

definition int_to_f64 :: "int \<Rightarrow> f64" where
  "int_to_f64 i = (if 0 \<le> i then word_of_nat (f64_of_nat (nat i)) else word_of_nat (2 ^ 63 + f64_of_nat (nat (- i))))"

text \<open>Well-formed UTF-8, as \<open>String::from_utf8\<close> checks it.\<close>

definition continuation :: "u8 \<Rightarrow> bool" where
  "continuation b \<longleftrightarrow> 0x80 \<le> b \<and> b \<le> 0xBF"

fun utf8_valid :: "bytes \<Rightarrow> bool" where
  "utf8_valid [] = True"
| "utf8_valid (a # bs) =
     (if a < 0x80 then utf8_valid bs
      else if 0xC2 \<le> a \<and> a \<le> 0xDF then
        (case bs of b # bs' \<Rightarrow> continuation b \<and> utf8_valid bs' | _ \<Rightarrow> False)
      else if 0xE0 \<le> a \<and> a \<le> 0xEF then
        (case bs of b # c # bs' \<Rightarrow>
           (if a = 0xE0 then 0xA0 \<le> b \<and> b \<le> 0xBF else if a = 0xED then 0x80 \<le> b \<and> b \<le> 0x9F else continuation b)
             \<and> continuation c \<and> utf8_valid bs'
         | _ \<Rightarrow> False)
      else if 0xF0 \<le> a \<and> a \<le> 0xF4 then
        (case bs of b # c # d # bs' \<Rightarrow>
           (if a = 0xF0 then 0x90 \<le> b \<and> b \<le> 0xBF else if a = 0xF4 then 0x80 \<le> b \<and> b \<le> 0x8F else continuation b)
             \<and> continuation c \<and> continuation d \<and> utf8_valid bs'
         | _ \<Rightarrow> False)
      else False)"

section \<open>Serialization\<close>

record field_codecs =
  base64_decode :: "string \<Rightarrow> bytes option"
  encode_var_vec :: "u64 \<Rightarrow> bytes"
  read_varint :: "bytes \<Rightarrow> (u64 \<times> bytes) option"

locale field_codecs_contract =
  fixes C :: field_codecs
  assumes read_encode: "read_varint C (encode_var_vec C n @ rest) = Some (n, rest)"
    and encode_zero: "encode_var_vec C 0 = [0]"

text \<open>Base-128 integers satisfy the contract; the reference decodes no base64.\<close>

definition reference_codecs :: field_codecs where
  "reference_codecs = \<lparr>
     base64_decode = (\<lambda>s. None),
     encode_var_vec = (\<lambda>n. leb128 9 (unat n)),
     read_varint = (\<lambda>bs. map_option (\<lambda>(n, used). (word_of_nat n, drop used bs)) (leb128_decode bs))\<rparr>"

interpretation ref_codecs: field_codecs_contract reference_codecs
proof
  fix n :: u64 and rest :: bytes
  have "unat n < 128 ^ Suc 9" using unat_width(4)[of n] by simp
  then show "read_varint reference_codecs (encode_var_vec reference_codecs n @ rest) = Some (n, rest)"
    by (simp add: reference_codecs_def leb128_decode_encode del: leb128.simps)
  show "encode_var_vec reference_codecs 0 = [0]" by (simp add: reference_codecs_def numeral_eq_Suc)
qed

definition get_field_type_matching_error :: contract_error where
  "get_field_type_matching_error = ContractValueWrongType ''document field type doesn't match document value''"

definition int_to_i64 :: "contract_error \<Rightarrow> int \<Rightarrow> contract_error + u64" where
  "int_to_i64 e i = (if - (2 ^ 63) \<le> i \<and> i < 2 ^ 63 then Inr (word_of_int i) else Inl e)"

definition sized_bytes :: "field_codecs \<Rightarrow> bytes \<Rightarrow> bytes" where
  "sized_bytes C bs = encode_var_vec C (word_of_nat (length bs)) @ bs"

definition date_value :: "cbor \<Rightarrow> contract_error + f64" where
  "date_value v =
     (case v of
        CInteger i \<Rightarrow> Inr (int_to_f64 i)
      | CFloat f \<Rightarrow> Inr f
      | _ \<Rightarrow> Inl get_field_type_matching_error)"

definition integer_value :: "cbor \<Rightarrow> contract_error + u64" where
  "integer_value v =
     rbind (ok_or get_field_type_matching_error (as_integer v))
       (int_to_i64 (ContractValueWrongType ''expected integer value''))"

definition number_value :: "cbor \<Rightarrow> contract_error + f64" where
  "number_value v =
     (case v of
        CInteger i \<Rightarrow>
          rbind (int_to_i64 (ContractValueWrongType ''expected number value'') i) (\<lambda>_. Inr (int_to_f64 i))
      | _ \<Rightarrow> ok_or get_field_type_matching_error (as_float v))"

definition byte_array_value :: "field_codecs \<Rightarrow> cbor \<Rightarrow> contract_error + bytes" where
  "byte_array_value C v =
     (case v of
        CBytes b \<Rightarrow> Inr b
      | CText t \<Rightarrow> ok_or (ValueDecodingError ''bytearray: invalid base64 value'') (base64_decode C t)
      | CArray a \<Rightarrow> mapM (byte_of_cbor (ContractValueWrongType ''expected u8 value'')
                            (ContractValueWrongType ''not an array of integers'')) a
      | _ \<Rightarrow> Inl get_field_type_matching_error)"

text \<open>The methods of \<open>ArrayFieldType\<close> on owned and on borrowed values have the same body.\<close>

fun array_encode_value_with_size :: "field_codecs \<Rightarrow> array_field_type \<Rightarrow> cbor \<Rightarrow> contract_error + bytes" where
  "array_encode_value_with_size C (AString _ _) v =
     rbind (ok_or get_field_type_matching_error (as_text v)) (\<lambda>s. Inr (sized_bytes C (string_bytes s)))"
| "array_encode_value_with_size C ADate v = rmap u64_to_be (date_value v)"
| "array_encode_value_with_size C AInteger v = rmap u64_to_be (integer_value v)"
| "array_encode_value_with_size C ANumber v = rmap u64_to_be (number_value v)"
| "array_encode_value_with_size C (AByteArray _ _) v = rmap (sized_bytes C) (byte_array_value C v)"
| "array_encode_value_with_size C ABoolean v =
     rbind (ok_or get_field_type_matching_error (as_bool v)) (\<lambda>b. Inr [if b then 1 else 0])"

definition present_marker :: "bool \<Rightarrow> bytes \<Rightarrow> bytes" where
  "present_marker required bs = (if required then bs else 255 # bs)"

text \<open>
  The two serializers of \<open>DocumentFieldType\<close>, for owned and borrowed values, differ in the message of
  the last case, an argument here.
\<close>

fun encode_sized :: "string \<Rightarrow> field_codecs \<Rightarrow> document_field_type \<Rightarrow> cbor \<Rightarrow> bool \<Rightarrow> contract_error + bytes"
and encode_fields :: "string \<Rightarrow> field_codecs \<Rightarrow> (string \<times> document_field) list \<Rightarrow> (string, cbor) btree \<Rightarrow>
    bytes \<Rightarrow> contract_error + bytes" where
  "encode_sized msg C t v required =
     (if v = CNull then Inr []
      else case t of
        FString _ _ \<Rightarrow>
          rbind (ok_or get_field_type_matching_error (as_text v)) (\<lambda>s. Inr (sized_bytes C (string_bytes s)))
      | FDate \<Rightarrow> rmap (\<lambda>f. present_marker required (u64_to_be f)) (date_value v)
      | FInteger \<Rightarrow> rmap (\<lambda>i. present_marker required (u64_to_be i)) (integer_value v)
      | FNumber \<Rightarrow> rmap (\<lambda>f. present_marker required (u64_to_be f)) (number_value v)
      | FByteArray _ _ \<Rightarrow> rmap (sized_bytes C) (byte_array_value C v)
      | FBoolean \<Rightarrow> rbind (ok_or get_field_type_matching_error (as_bool v)) (\<lambda>b. Inr [if b then 1 else 2])
      | FObject fs \<Rightarrow>
          rbind (ok_or get_field_type_matching_error (as_map v)) (\<lambda>m.
            encode_fields msg C fs (cbor_map_to_btree_map m) [])
      | FArray a \<Rightarrow>
          rbind (ok_or get_field_type_matching_error (as_array v)) (\<lambda>vs.
          rbind (mapM (array_encode_value_with_size C a) vs) (\<lambda>bs.
            Inr (encode_var_vec C (word_of_nat (length vs)) @ concat bs)))
      | FVariableTypeArray _ \<Rightarrow> Inl (ContractUnsupported msg))"
| "encode_fields msg C [] m acc = Inr acc"
| "encode_fields msg C ((k, DocumentField t r) # fs) m acc =
     rbind (case bt_get k m of
              Some v \<Rightarrow> rmap (\<lambda>bs. acc @ bs) (encode_sized msg C t v r)
            | None \<Rightarrow> if r then Inl (ContractMissingRequiredKey ''a required field is not present'')
                      else Inr (acc @ [0]))
       (encode_fields msg C fs m)"

definition encode_value_with_size :: "field_codecs \<Rightarrow> document_field_type \<Rightarrow> cbor \<Rightarrow> bool \<Rightarrow> contract_error + bytes" where
  "encode_value_with_size = encode_sized ''serialization of variable type arrays not yet supported''"

definition encode_value_ref_with_size :: "field_codecs \<Rightarrow> document_field_type \<Rightarrow> cbor \<Rightarrow> bool \<Rightarrow> contract_error + bytes" where
  "encode_value_ref_with_size = encode_sized ''serialization of arrays not yet supported''"


definition read_error :: contract_error where
  "read_error = ContractCorruptedSerialization ''error reading from serialized document''"

definition read_varint_value :: "field_codecs \<Rightarrow> bytes \<Rightarrow> contract_error + (bytes option \<times> bytes)" where
  "read_varint_value C buf =
     rbind (ok_or read_error (read_varint C buf)) (\<lambda>(n, buf).
       if n = 0 then Inr (None, buf)
       else if unat n \<le> length buf then Inr (Some (take (unat n) buf), drop (unat n) buf)
       else Inl read_error)"

definition read_u8 :: "bytes \<Rightarrow> contract_error + (u8 \<times> bytes)" where
  "read_u8 buf = (case buf of b # buf' \<Rightarrow> Inr (b, buf') | [] \<Rightarrow> Inl read_error)"

definition read_u64 :: "bytes \<Rightarrow> contract_error + (u64 \<times> bytes)" where
  "read_u64 buf = rbind (ok_or read_error (u64_from_be (take 8 buf))) (\<lambda>w. Inr (w, drop 8 buf))"

text \<open>Eight bytes, after a marker when the field is not required; a zero marker is an absent value.\<close>

definition read_marked :: "bool \<Rightarrow> (u64 \<Rightarrow> cbor) \<Rightarrow> bytes \<Rightarrow> contract_error + (cbor option \<times> bytes)" where
  "read_marked required value_of buf =
     rbind (if required then Inr (1, buf) else read_u8 buf) (\<lambda>(marker, buf).
       if marker = 0 then Inr (None, buf)
       else rbind (read_u64 buf) (\<lambda>(w, buf). Inr (Some (value_of w), buf)))"

fun read_from :: "field_codecs \<Rightarrow> document_field_type \<Rightarrow> bool \<Rightarrow> bytes \<Rightarrow> contract_error + (cbor option \<times> bytes)"
and read_fields :: "field_codecs \<Rightarrow> (string \<times> document_field) list \<Rightarrow> bytes \<Rightarrow> contract_error + (cbor_map \<times> bytes)" where
  "read_from C t required buf =
     (case t of
        FString _ _ \<Rightarrow>
          rbind (read_varint_value C buf) (\<lambda>(bs, buf).
            case bs of
              None \<Rightarrow> Inr (None, buf)
            | Some bs \<Rightarrow> if utf8_valid bs then Inr (Some (CText (bytes_string bs)), buf) else Inl read_error)
      | FDate \<Rightarrow> read_marked required CFloat buf
      | FNumber \<Rightarrow> read_marked required CFloat buf
      | FInteger \<Rightarrow> read_marked required (\<lambda>w. CInteger (sint w)) buf
      | FBoolean \<Rightarrow>
          rbind (read_u8 buf) (\<lambda>(value, buf).
            Inr (if value = 0 then None else if value = 1 then Some (CBool True) else Some (CBool False), buf))
      | FByteArray _ _ \<Rightarrow> rbind (read_varint_value C buf) (\<lambda>(bs, buf). Inr (map_option CBytes bs, buf))
      | FObject fs \<Rightarrow>
          rbind (read_fields C fs buf) (\<lambda>(values, buf).
            Inr (if values = [] then None else Some (CMap values), buf))
      | FArray _ \<Rightarrow> Inl (ContractUnsupported ''serialization of arrays not yet supported'')
      | FVariableTypeArray _ \<Rightarrow> Inl (ContractUnsupported ''serialization of arrays not yet supported''))"
| "read_fields C [] buf = Inr ([], buf)"
| "read_fields C ((k, DocumentField t r) # fs) buf =
     rbind (read_from C t r buf) (\<lambda>(v, buf).
     rbind (read_fields C fs buf) (\<lambda>(values, buf).
       Inr (case v of Some v \<Rightarrow> (CText k, v) # values | None \<Rightarrow> values, buf)))"

section \<open>Keys of indexes\<close>

definition flip_sign_bit :: "bytes \<Rightarrow> bytes" where
  "flip_sign_bit wtr = wtr[0 := xor (wtr ! 0) 0x80]"

definition encode_unsigned_integer :: "u64 \<Rightarrow> bytes" where
  "encode_unsigned_integer n = flip_sign_bit (u64_to_be n)"

definition encode_signed_integer :: "u64 \<Rightarrow> bytes" where
  "encode_signed_integer n = flip_sign_bit (u64_to_be n)"

definition encode_float :: "f64 \<Rightarrow> bytes" where
  "encode_float f =
     (let wtr = u64_to_be f in if f64_less f 0 then map (\<lambda>byte. not byte) wtr else flip_sign_bit wtr)"

definition encode_value_for_tree_keys :: "field_codecs \<Rightarrow> document_field_type \<Rightarrow> cbor \<Rightarrow> contract_error + bytes" where
  "encode_value_for_tree_keys C t v =
     (if v = CNull then Inr []
      else case t of
        FString _ _ \<Rightarrow>
          rbind (ok_or get_field_type_matching_error (as_text v)) (\<lambda>s.
            Inr (if s = [] then [0] else string_bytes s))
      | FDate \<Rightarrow> rmap encode_float (date_value v)
      | FInteger \<Rightarrow> rmap encode_signed_integer (integer_value v)
      | FNumber \<Rightarrow> rmap encode_float (number_value v)
      | FByteArray _ _ \<Rightarrow> byte_array_value C v
      | FBoolean \<Rightarrow> rbind (ok_or get_field_type_matching_error (as_bool v)) (\<lambda>b. Inr [if b then 1 else 0])
      | FObject _ \<Rightarrow> Inl (EncodingDataStructureNotSupported ''we should never try encoding an object'')
      | FArray _ \<Rightarrow> Inl (EncodingDataStructureNotSupported ''we should never try encoding an array'')
      | FVariableTypeArray _ \<Rightarrow> Inl (EncodingDataStructureNotSupported ''we should never try encoding an array''))"


section \<open>Keys are ordered as the values\<close>

lemma xor_sign_bit: "xor b 0x80 = b + (0x80 :: u8)"
proof -
  have "xor b 0x80 = flip_bit 7 b" by (simp add: flip_bit_eq_xor)
  also have "\<dots> = b + 0x80" by (simp add: flip_bit_eq_if unset_bit_eq set_bit_eq)
  finally show ?thesis .
qed

lemma unat_not_byte: "unat (not b) + unat (b :: u8) = 255"
proof -
  have "not b = 255 - b" by (simp add: not_eq_complement)
  moreover have "unat b \<le> 255" using unat_width(1)[of b] by simp
  ultimately show ?thesis by (simp add: unat_sub word_le_nat_alt)
qed

lemma u64_bytes: "length (u64_to_be w) = 8" "be_value (u64_to_be w) = unat w"
  using unat_width(4)[of w] by (simp_all add: u64_to_be_def be_value_be_bytes)

lemma be_value_not: "be_value (map not bs) + be_value bs + 1 = 256 ^ length bs"
proof (induction bs)
  case Nil
  then show ?case by simp
next
  case (Cons b bs)
  have "unat (not b) * 256 ^ length bs + unat b * 256 ^ length bs = 255 * 256 ^ length bs"
    using unat_not_byte[of b] by (metis add_mult_distrib)
  then show ?case using Cons by (simp add: be_value_Cons)
qed

lemma be_value_flip: "be_value (flip_sign_bit (u64_to_be w)) = (unat w + 2 ^ 63) mod 2 ^ 64"
proof -
  obtain b bs where bs: "u64_to_be w = b # bs" "length bs = 7"
    using u64_bytes(1)[of w] by (cases "u64_to_be w") simp_all
  have w: "unat w = unat b * 2 ^ 56 + be_value bs" using u64_bytes(2)[of w] by (simp add: bs be_value_Cons)
  have r: "be_value bs < 2 ^ 56" using be_value_bound[of bs] by (simp add: bs(2))
  have b: "unat b < 256" using unat_width(1)[of b] by simp
  have f: "be_value (flip_sign_bit (u64_to_be w)) = unat (b + 128) * 2 ^ 56 + be_value bs"
    by (simp add: bs flip_sign_bit_def xor_sign_bit be_value_Cons)
  show ?thesis
  proof (cases "unat b < 128")
    case True
    then have "unat (b + 128) = unat b + 128" by (simp add: unat_word_ariths)
    with f w r True show ?thesis by simp
  next
    case False
    then obtain c where c: "unat b = 128 + c" "c < 128" using b by (metis add_less_cancel_left le_iff_add not_less numeral_Bit0)
    then have "unat (b + 128) = c" by (simp add: unat_word_ariths)
    moreover have "unat w + 2 ^ 63 = 2 ^ 64 + (c * 2 ^ 56 + be_value bs)" by (simp add: w c(1))
    moreover have "c * 2 ^ 56 + be_value bs < 2 ^ 64" using c(2) r by simp
    ultimately show ?thesis using f by (metis mod_add_self1 mod_less)
  qed
qed

lemma key_less_iff:
  "length a = 8 \<Longrightarrow> length b = 8 \<Longrightarrow> a < b \<longleftrightarrow> int (be_value a) < int (be_value b)"
  by (simp add: be_value_less_iff)

lemma length_encodings [simp]:
  "length (encode_signed_integer n) = 8" "length (encode_unsigned_integer n) = 8" "length (encode_float f) = 8"
  by (simp_all add: encode_signed_integer_def encode_unsigned_integer_def encode_float_def flip_sign_bit_def
      u64_bytes Let_def)

lemma signed_key_value: "int (be_value (encode_signed_integer w)) = sint w + 2 ^ 63"
  by (simp add: encode_signed_integer_def be_value_flip sint_uint signed_take_bit_eq_take_bit_shift
      take_bit_eq_mod zmod_int)

lemma f64_less_zero: "\<not> f64_is_nan f \<Longrightarrow> f64_less f 0 \<longleftrightarrow> f64_signed f < 0"
  by (simp add: f64_less_def) (simp add: f64_is_nan_def f64_signed_def)

lemma float_key_value:
  assumes "\<not> f64_is_nan f" "f \<noteq> f64_negative_zero"
  shows "int (be_value (encode_float f)) = f64_signed f + 2 ^ 63 - (if f64_less f 0 then 1 else 0)"
proof -
  have w: "unat f < 2 ^ 64" using unat_width(4)[of f] by simp
  show ?thesis
  proof (cases "unat f < 2 ^ 63")
    case True
    then have "\<not> f64_less f 0" by (simp add: f64_less_def f64_signed_def)
    with True show ?thesis by (simp add: encode_float_def be_value_flip f64_signed_def)
  next
    case False
    have "unat f \<noteq> 2 ^ 63" using assms(2) by (simp add: f64_negative_zero_def word_unat_eq_iff)
    with False have "2 ^ 63 < unat f" by simp
    then have "int (2 ^ 63) < int (unat f)" unfolding of_nat_less_iff .
    then have neg: "f64_less f 0" using assms(1) False by (simp add: f64_less_def f64_signed_def f64_is_nan_def)
    have "be_value (map not (u64_to_be f)) + unat f + 1 = 256 ^ 8"
      using be_value_not[of "u64_to_be f"] by (simp add: u64_bytes)
    from arg_cong[OF this, of int] have "int (be_value (map not (u64_to_be f))) = 2 ^ 64 - 1 - int (unat f)" by simp
    with neg False show ?thesis by (simp add: encode_float_def f64_signed_def)
  qed
qed

text \<open>The key an index stores for an integer or a floating point number is ordered as the number:
  comparing the eight bytes of two keys is comparing the values, for every signed 64-bit integer and
  for every floating point number other than a NaN and the negative zero.\<close>

theorem index_keys_ordered:
  "(encode_signed_integer a < encode_signed_integer b \<longleftrightarrow> sint a < sint b) \<and>
   (\<not> f64_is_nan x \<and> \<not> f64_is_nan y \<and> x \<noteq> f64_negative_zero \<and> y \<noteq> f64_negative_zero \<longrightarrow>
     (encode_float x < encode_float y \<longleftrightarrow> f64_less x y))"
proof -
  have "encode_signed_integer a < encode_signed_integer b \<longleftrightarrow> sint a < sint b"
    unfolding key_less_iff[OF length_encodings(1) length_encodings(1)] signed_key_value by simp
  moreover have "encode_float x < encode_float y \<longleftrightarrow> f64_less x y"
    if "\<not> f64_is_nan x" "\<not> f64_is_nan y" "x \<noteq> f64_negative_zero" "y \<noteq> f64_negative_zero"
  proof -
    have "encode_float x < encode_float y \<longleftrightarrow> int (be_value (encode_float x)) < int (be_value (encode_float y))"
      by (rule key_less_iff) simp_all
    also have "\<dots> \<longleftrightarrow> f64_signed x < f64_signed y"
      unfolding float_key_value[OF that(1,3)] float_key_value[OF that(2,4)]
      using that by (simp add: f64_less_zero)
    finally show ?thesis using that by (simp add: f64_less_def)
  qed
  ultimately show ?thesis by blast
qed


theorem index_keys_ordered_witness:
  "encode_signed_integer (- 5) < encode_signed_integer 3 \<and>
   (encode_float 0xC014000000000000 < encode_float 0x4008000000000000 \<longleftrightarrow> f64_less 0xC014000000000000 0x4008000000000000)"
  using index_keys_ordered[of "- 5" 3 "0xC014000000000000" "0x4008000000000000"]
  by (simp add: f64_is_nan_def f64_negative_zero_def)

lemma f64_signed_bound: "\<not> f64_is_nan x \<Longrightarrow> - 0x7FF0000000000000 \<le> f64_signed x"
proof -
  assume nan: "\<not> f64_is_nan x"
  have w: "unat x < 2 ^ 64" using unat_width(4)[of x] by simp
  show ?thesis
  proof (cases "unat x < 2 ^ 63")
    case True
    then show ?thesis by (simp add: f64_signed_def order_trans[of _ 0])
  next
    case False
    then have "unat x mod 2 ^ 63 = unat x - 2 ^ 63" using w by (simp add: le_mod_geq)
    then have "unat x \<le> 2 ^ 63 + 0x7FF0000000000000" using nan False unfolding f64_is_nan_def by simp
    then have "int (unat x) \<le> int (2 ^ 63 + 0x7FF0000000000000)" unfolding of_nat_le_iff .
    with False show ?thesis by (simp add: f64_signed_def)
  qed
qed

text \<open>The negative zero, although equal to zero and not below any other number that is not
  negative, has the smallest of all keys, below those of the infinitely negative number: an index on
  such a value is out of order.\<close>

theorem negative_zero_key_lowest:
  assumes "\<not> f64_is_nan x" "x \<noteq> f64_negative_zero"
  shows "encode_float f64_negative_zero < encode_float x"
proof -
  have z: "be_value (encode_float f64_negative_zero) = 0"
    by (simp add: encode_float_def be_value_flip f64_negative_zero_def f64_less_def f64_signed_def)
  have "int (be_value (encode_float x)) \<noteq> 0"
    unfolding float_key_value[OF assms] using f64_signed_bound[OF assms(1)] by simp
  then show ?thesis unfolding key_less_iff[OF length_encodings(3) length_encodings(3)] z by simp
qed

theorem negative_zero_key_lowest_witness:
  "encode_float f64_negative_zero < encode_float 0xFFF0000000000000"
  by (rule negative_zero_key_lowest) (simp_all add: f64_is_nan_def f64_negative_zero_def)


section \<open>Fields are read back\<close>

text \<open>The values of a field that is neither an object nor an array, in the form they are read in.\<close>

fun readable_value :: "document_field_type \<Rightarrow> cbor \<Rightarrow> bool" where
  "readable_value (FString _ _) (CText s) \<longleftrightarrow> s \<noteq> [] \<and> length s < 2 ^ 64 \<and> utf8_valid (string_bytes s)"
| "readable_value (FByteArray _ _) (CBytes b) \<longleftrightarrow> b \<noteq> [] \<and> length b < 2 ^ 64"
| "readable_value FInteger (CInteger i) \<longleftrightarrow> - (2 ^ 63) \<le> i \<and> i < 2 ^ 63"
| "readable_value FNumber (CFloat f) \<longleftrightarrow> True"
| "readable_value FDate (CFloat f) \<longleftrightarrow> True"
| "readable_value FBoolean (CBool b) \<longleftrightarrow> True"
| "readable_value _ _ \<longleftrightarrow> False"

definition is_leaf :: "document_field_type \<Rightarrow> bool" where
  "is_leaf t \<longleftrightarrow> (case t of FObject _ \<Rightarrow> False | FArray _ \<Rightarrow> False | FVariableTypeArray _ \<Rightarrow> False | _ \<Rightarrow> True)"

lemma present_nonempty: "present_marker r (u64_to_be w) \<noteq> []"
  using u64_bytes(1)[of w] by (cases "u64_to_be w") (auto simp: present_marker_def simp del: codec_simps)

context field_codecs_contract
begin

lemma read_sized_bytes:
  "length bs < 2 ^ 64 \<Longrightarrow> bs \<noteq> [] \<Longrightarrow> read_varint_value C (sized_bytes C bs @ rest) = Inr (Some bs, rest)"
  by (simp add: read_varint_value_def sized_bytes_def read_encode unat_of_nat word_unat_eq_iff)

lemma read_absent_bytes: "read_varint_value C (0 # rest) = Inr (None, rest)"
  using read_encode[of 0 rest] by (simp add: read_varint_value_def encode_zero)

lemma read_present: "read_marked r f (present_marker r (u64_to_be w) @ rest) = Inr (Some (f w), rest)"
  by (cases r) (simp_all add: read_marked_def present_marker_def read_u8_def read_u64_def)

lemma sint_of_i64: "- (2 ^ 63) \<le> i \<Longrightarrow> i < 2 ^ 63 \<Longrightarrow> sint (word_of_int i :: u64) = i"
  by (simp add: signed_of_int signed_take_bit_int_eq_self)

lemma leaf_read_back:
  assumes "readable_value t v"
  shows "\<exists>bs. encode_sized msg C t v r = Inr bs \<and> bs \<noteq> [] \<and> read_from C t r (bs @ rest) = Inr (Some v, rest)"
proof (cases t)
  case (FString a b)
  with assms obtain s where s: "v = CText s" "s \<noteq> []" "length s < 2 ^ 64" "utf8_valid (string_bytes s)" by (cases v) auto
  then have "read_varint_value C (sized_bytes C (string_bytes s) @ rest) = Inr (Some (string_bytes s), rest)"
    by (intro read_sized_bytes) simp_all
  with s FString show ?thesis by (simp add: sized_bytes_def)
next
  case (FByteArray a b)
  with assms obtain bs where bs: "v = CBytes bs" "bs \<noteq> []" "length bs < 2 ^ 64" by (cases v) auto
  with FByteArray show ?thesis by (simp add: read_sized_bytes byte_array_value_def) (simp add: sized_bytes_def)
next
  case FInteger
  with assms obtain i where i: "v = CInteger i" "- (2 ^ 63) \<le> i" "i < 2 ^ 63" by (cases v) auto
  with FInteger show ?thesis
    by (simp add: integer_value_def int_to_i64_def read_present sint_of_i64 present_nonempty)
next
  case FNumber
  with assms obtain f where "v = CFloat f" by (cases v) auto
  with FNumber show ?thesis by (simp add: number_value_def read_present present_nonempty)
next
  case FDate
  with assms obtain f where "v = CFloat f" by (cases v) auto
  with FDate show ?thesis by (simp add: date_value_def read_present present_nonempty)
next
  case FBoolean
  with assms obtain b where "v = CBool b" by (cases v) auto
  with FBoolean show ?thesis by (cases b) (simp_all add: read_u8_def)
qed (use assms in auto)

lemma leaf_read_absent: "is_leaf t \<Longrightarrow> read_from C t False (0 # rest) = Inr (None, rest)"
  by (cases t) (simp_all add: is_leaf_def read_absent_bytes read_marked_def read_u8_def)

end



end
