(* ===== verification/DocTypes.thy ===== *)
theory DocTypes
  imports DocFields
begin

text \<open>
  Document types and contracts: \<open>index.rs\<close>, \<open>document_type.rs\<close>, \<open>mutability.rs\<close>, \<open>drive_api.rs\<close> and
  \<open>mod.rs\<close> of \<open>dpp/src/data_contract/extra\<close>. An index is matched against the fields of a query; the
  document types of a contract are read from its schema. The JSON of a contract (a type of
  \<open>serde_json\<close>) is the type parameter \<open>'j\<close>.
\<close>

section \<open>Indexes\<close>

record index_property =
  property_name :: string
  ascending :: bool

record index =
  index_properties :: "index_property list"
  unique :: bool

text \<open>\<open>TryFrom\<close> of a map with one entry; the error is the message of \<open>bail!\<close>.\<close>

definition index_property_try_from :: "(string, string) btree \<Rightarrow> string + index_property" where
  "index_property_try_from value =
     (case value of
        [] \<Rightarrow> Inl ''property in the index definition cannot be empty''
      | [(k, order)] \<Rightarrow>
          if order = ''asc'' then Inr \<lparr>property_name = k, ascending = True\<rparr>
          else if order = ''desc'' then Inr \<lparr>property_name = k, ascending = False\<rparr>
          else Inl ''invalid sorting order''
      | _ \<Rightarrow> Inl ''property in the index cannot contain more than one item'')"

text \<open>
  The loop over the tails: the properties are shortened from the end until they end with the ordering.
  \<open>None\<close> is the early return; the loop runs at most once per property.
\<close>

fun reduce_properties :: "nat \<Rightarrow> index_property list \<Rightarrow> string list \<Rightarrow> index_property list option" where
  "reduce_properties 0 reduced order_by = Some reduced"
| "reduce_properties (Suc n) reduced order_by =
     (if length reduced < length order_by then None
      else if list_all (\<lambda>(p, sort). property_name p = sort) (zip (rev reduced) (rev order_by)) then Some reduced
      else if reduced = [] then None
      else reduce_properties n (butlast reduced) order_by)"

definition in_field_allowed :: "index_property list \<Rightarrow> string option \<Rightarrow> bool" where
  "in_field_allowed ps in_field_name =
     (case in_field_name of
        None \<Rightarrow> True
      | Some f \<Rightarrow>
          property_name (last ps) = f \<or>
          length ps \<noteq> 1 \<and> property_name (ps ! (length ps - 2)) = f)"

fun count_unused :: "index_property list \<Rightarrow> string list \<Rightarrow> u64 \<Rightarrow> u64 option" where
  "count_unused reduced [] d = Some d"
| "count_unused reduced (search_name # names) d =
     (if search_name \<in> property_name ` set reduced then count_unused reduced names (d - 1) else None)"

definition matches :: "index \<Rightarrow> string list \<Rightarrow> string option \<Rightarrow> string list \<Rightarrow> u16 option" where
  "matches ix index_names in_field_name order_by =
     (let ps = index_properties ix
      in Option.bind (if order_by \<noteq> [] then reduce_properties (length ps) ps order_by else Some ps) (\<lambda>reduced.
           if ps = [] then None
           else if \<not> in_field_allowed ps in_field_name then None
           else map_option ucast (count_unused reduced index_names (word_of_nat (length ps)))))"

definition index_property_from_cbor_value :: "cbor_map \<Rightarrow> error + index_property" where
  "index_property_from_cbor_value m =
     (case m of
        [] \<Rightarrow> Inl (Panic ''index out of bounds'')
      | (k, v) # _ \<Rightarrow>
          rbind (ok_or (ContractErr (ContractKeyWrongType ''key should be of type string'')) (as_text k)) (\<lambda>k.
          rbind (ok_or (ContractErr (ContractValueWrongType ''value should be of type string'')) (as_text v)) (\<lambda>v.
            Inr \<lparr>property_name = k, ascending = (v = ''asc'')\<rparr>)))"

definition index_property_of_value :: "cbor \<Rightarrow> error + index_property" where
  "index_property_of_value v =
     rbind (ok_or (ContractErr (InvalidContractStructure ''table document is not a map as expected'')) (as_map v))
       index_property_from_cbor_value"

definition index_entry :: "index \<Rightarrow> cbor \<times> cbor \<Rightarrow> error + index" where
  "index_entry ix e =
     rbind (ok_or (ContractErr (ContractKeyWrongType ''key should be of type text'')) (as_text (fst e))) (\<lambda>k.
       if k = ''unique'' then
         Inr (case as_bool (snd e) of Some b \<Rightarrow> ix\<lparr>unique := b\<rparr> | None \<Rightarrow> ix)
       else if k = ''properties'' then
         rbind (ok_or (ContractErr (InvalidContractStructure ''property value should be an array'')) (as_array (snd e)))
           (\<lambda>properties. rbind (mapM index_property_of_value properties) (\<lambda>ps.
              Inr (ix\<lparr>index_properties := index_properties ix @ ps\<rparr>)))
       else Inr ix)"

definition index_from_cbor_value :: "cbor_map \<Rightarrow> error + index" where
  "index_from_cbor_value m = foldM index_entry \<lparr>index_properties = [], unique = False\<rparr> m"

section \<open>Document types\<close>

record document_type =
  type_name :: string
  indices :: "index list"
  properties :: "(string, document_field) btree"
  required_fields :: "string set"
  documents_keep_history :: bool
  documents_mutable :: bool

definition DEFAULT_HASH_SIZE :: nat where "DEFAULT_HASH_SIZE = 32"
definition MAX_INDEX_SIZE :: nat where "MAX_INDEX_SIZE = 255"

text \<open>The loop over the indexes with the best one so far.\<close>

fun best_index :: "(index \<Rightarrow> u16 option) \<Rightarrow> index list \<Rightarrow> (index \<times> u16) option \<Rightarrow> u16 \<Rightarrow> (index \<times> u16) option" where
  "best_index m [] best best_difference = best"
| "best_index m (ix # ixs) best best_difference =
     (case m ix of
        None \<Rightarrow> best_index m ixs best best_difference
      | Some difference \<Rightarrow>
          if difference = 0 then Some (ix, 0)
          else if difference < best_difference then best_index m ixs (Some (ix, difference)) difference
          else best_index m ixs best best_difference)"

definition index_for_types ::
    "document_type \<Rightarrow> string list \<Rightarrow> string option \<Rightarrow> string list \<Rightarrow> (index \<times> u16) option" where
  "index_for_types dt index_names in_field_name order_by =
     best_index (\<lambda>ix. matches ix index_names in_field_name order_by) (indices dt) None 65535"

definition serialize_value_for_key ::
    "(string \<Rightarrow> bytes option) \<Rightarrow> field_codecs \<Rightarrow> document_type \<Rightarrow> string \<Rightarrow> cbor \<Rightarrow> contract_error + bytes" where
  "serialize_value_for_key bs58_decode C dt k v =
     (if k = ''$ownerId'' \<or> k = ''$id'' then
        rbind (map_err ContractStructureError (bytes_for_system_value bs58_decode v)) (\<lambda>b.
        rbind (ok_or (ContractFieldRequirementUnmet ''expected system value to be deserialized'') b) (\<lambda>b.
          if length b \<noteq> DEFAULT_HASH_SIZE
          then Inl (ContractFieldRequirementUnmet ''expected system value to be 32 bytes long'')
          else Inr b))
      else
        rbind (ok_or (DocumentTypeFieldNotFound ''expected contract to have field'') (bt_get k (properties dt))) (\<lambda>f.
        rbind (encode_value_for_tree_keys C (field_document_type f) v) (\<lambda>b.
          if length b > MAX_INDEX_SIZE
          then Inl (ContractFieldRequirementUnmet ''value must be less than 256 bytes long'')
          else Inr b)))"

definition document_type_max_size :: "document_type \<Rightarrow> u16" where
  "document_type_max_size dt =
     (let sizes = List.map_filter (\<lambda>(_, f). max_byte_size (field_document_type f)) (properties dt)
      in case foldl (\<lambda>acc item. Option.bind acc (\<lambda>a. checked_add a item))
                (Some (case sizes of [] \<Rightarrow> 0 | n # _ \<Rightarrow> n)) (tl sizes) of
           Some n \<Rightarrow> n | None \<Rightarrow> 65535)"

definition top_level_indices :: "document_type \<Rightarrow> index_property list" where
  "top_level_indices dt =
     List.map_filter (\<lambda>ix. case index_properties ix of p # _ \<Rightarrow> Some p | [] \<Rightarrow> None) (indices dt)"

definition document_field_for_property :: "document_type \<Rightarrow> string \<Rightarrow> document_field option" where
  "document_field_for_property dt property = bt_get property (properties dt)"

definition document_field_type_for_property :: "document_type \<Rightarrow> string \<Rightarrow> document_field_type option" where
  "document_field_type_for_property dt property =
     (if property = ''$id'' \<or> property = ''$ownerId'' then Some (FByteArray (Some 32) (Some 32))
      else if property = ''$createdAt'' \<or> property = ''$updatedAt'' then Some FDate
      else map_option field_document_type (document_field_for_property dt property))"

definition string_to_field_type :: "string \<Rightarrow> document_field_type option" where
  "string_to_field_type n =
     (if n = ''integer'' then Some FInteger
      else if n = ''number'' then Some FNumber
      else if n = ''boolean'' then Some FBoolean
      else if n = ''date'' then Some FDate
      else None)"


section \<open>Reading document types from a contract\<close>

type_synonym definitions = "(string, cbor) btree"

definition invalid_structure :: "string \<Rightarrow> error" where
  "invalid_structure s = ContractErr (InvalidContractStructure s)"

definition ref_prefix :: string where "ref_prefix = ''#/$defs/''"

text \<open>The type of a property and the map it is described by, through a reference when it has no type.\<close>

definition property_type :: "definitions \<Rightarrow> cbor_map \<Rightarrow> error + (string \<times> (string, cbor) btree)" where
  "property_type defs inner =
     (let base_inner_properties = cbor_map_to_btree_map inner
      in case cbor_inner_text_value inner ''type'' of
           Some type_value \<Rightarrow> Inr (type_value, base_inner_properties)
         | None \<Rightarrow>
             rbind (ok_or (invalid_structure ''cannot find type property'')
                      (btree_map_inner_text_value base_inner_properties ''$ref'')) (\<lambda>ref_value.
             if take 8 ref_value \<noteq> ref_prefix then Inl (invalid_structure ''malformed reference'')
             else
               rbind (ok_or (ContractErr (ReferenceDefinitionNotFound ''document reference not found''))
                        (btree_map_inner_map_value defs (drop 8 ref_value))) (\<lambda>inner_properties_map.
               rbind (ok_or (invalid_structure ''cannot find type property on reference'')
                        (cbor_inner_text_value inner_properties_map ''type'')) (\<lambda>type_value.
                 Inr (type_value, cbor_map_to_btree_map inner_properties_map)))))"

text \<open>The field type of a property that is not an object.\<close>

definition leaf_field_type :: "string \<Rightarrow> (string, cbor) btree \<Rightarrow> error + document_field_type" where
  "leaf_field_type type_value inner =
     (if type_value = ''array'' then
        (case btree_map_inner_bool_value inner ''byteArray'' of
           Some True \<Rightarrow> Inr (FByteArray (btree_map_inner_u16_value inner ''minItems'') (btree_map_inner_u16_value inner ''maxItems''))
         | Some False \<Rightarrow> Inl (invalid_structure ''byteArray should always be true if defined'')
         | None \<Rightarrow> Inr (FArray ABoolean))
      else if type_value = ''string'' then
        Inr (FString (btree_map_inner_u16_value inner ''minLength'') (btree_map_inner_u16_value inner ''maxLength''))
      else ok_or (ContractErr (ContractValueWrongType ''invalid type'')) (string_to_field_type type_value))"

text \<open>
  \<open>insert_values\<close> descends into objects, whose properties may come from a reference. The fuel bounds
  the depth: \<open>None\<close> is a descent that does not return within it, as one through a reference to itself.
\<close>

fun insert_values :: "nat \<Rightarrow> definitions \<Rightarrow> string set \<Rightarrow> string option \<Rightarrow> string \<times> cbor \<Rightarrow>
    (string, document_field) btree \<Rightarrow> (error + (string, document_field) btree) option"
and insert_all_values :: "nat \<Rightarrow> definitions \<Rightarrow> string set \<Rightarrow> string option \<Rightarrow> (string \<times> cbor) list \<Rightarrow>
    (string, document_field) btree \<Rightarrow> (error + (string, document_field) btree) option" where
  "insert_values 0 defs known_required pre entry document_properties = None"
| "insert_values (Suc n) defs known_required pre (property_key, property_value) document_properties =
     (let prefixed_property_key = (case pre of None \<Rightarrow> property_key | Some p \<Rightarrow> p @ ''.'' @ property_key)
      in case as_map property_value of
           None \<Rightarrow> Some (Inl (invalid_structure ''document property is not a map as expected''))
         | Some inner \<Rightarrow>
             (case property_type defs inner of
                Inl e \<Rightarrow> Some (Inl e)
              | Inr (type_value, inner_properties) \<Rightarrow>
                  if type_value = ''object'' then
                    (case btree_map_inner_btree_map inner_properties ''properties'' of
                       None \<Rightarrow> Some (Inl (invalid_structure ''object must have properties''))
                     | Some sub \<Rightarrow>
                         insert_all_values n defs known_required (Some prefixed_property_key) sub document_properties)
                  else
                    Some (rmap (\<lambda>t. bt_insert prefixed_property_key
                            (DocumentField t (type_value \<in> known_required)) document_properties)
                      (leaf_field_type type_value inner_properties))))"
| "insert_all_values n defs known_required pre [] document_properties = Some (Inr document_properties)"
| "insert_all_values n defs known_required pre (entry # entries) document_properties =
     Option.bind (insert_values n defs known_required pre entry document_properties) (\<lambda>r.
       case r of
         Inl e \<Rightarrow> Some (Inl e)
       | Inr document_properties \<Rightarrow> insert_all_values n defs known_required pre entries document_properties)"

definition index_of_value :: "cbor \<Rightarrow> error + index" where
  "index_of_value v =
     rbind (ok_or (invalid_structure ''table document is not a map as expected'') (as_map v)) index_from_cbor_value"

definition add_system_property :: "string set \<Rightarrow> string \<Rightarrow> (string, document_field) btree \<Rightarrow> (string, document_field) btree" where
  "add_system_property required k ps = (if k \<in> required then bt_insert k (DocumentField FDate True) ps else ps)"

definition document_type_from_cbor_value ::
    "nat \<Rightarrow> string \<Rightarrow> cbor_map \<Rightarrow> definitions \<Rightarrow> bool \<Rightarrow> bool \<Rightarrow> (error + document_type) option" where
  "document_type_from_cbor_value n name m defs default_keeps_history default_mutability =
     (case mapM index_of_value (case cbor_inner_array_value m ''indices'' of None \<Rightarrow> [] | Some vs \<Rightarrow> vs) of
        Inl e \<Rightarrow> Some (Inl e)
      | Inr ixs \<Rightarrow>
          (case cbor_inner_btree_map m ''properties'' of
             None \<Rightarrow> Some (Inl (invalid_structure ''unable to get document properties from the contract''))
           | Some property_values \<Rightarrow>
               (let required = or_else (cbor_inner_array_of_strings m ''required'') {}
                in map_option (rmap (\<lambda>document_properties.
                     \<lparr>type_name = name, indices = ixs,
                      properties = add_system_property required ''$updatedAt''
                        (add_system_property required ''$createdAt'' document_properties),
                      required_fields = required,
                      documents_keep_history =
                        cbor_inner_bool_value_with_default m ''documentsKeepHistory'' default_keeps_history,
                      documents_mutable =
                        cbor_inner_bool_value_with_default m ''documentsMutable'' default_mutability\<rparr>))
                     (insert_all_values n defs required None property_values []))))"

section \<open>Contracts\<close>

record contract_config =
  can_be_deleted :: bool
  readonly :: bool
  keeps_history :: bool
  documents_keep_history_contract_default :: bool
  documents_mutable_contract_default :: bool

definition contract_config_default :: contract_config where
  "contract_config_default = \<lparr>can_be_deleted = False, readonly = False, keeps_history = False,
     documents_keep_history_contract_default = False, documents_mutable_contract_default = True\<rparr>"

definition get_mutability :: "(string, cbor) btree \<Rightarrow> contract_error + contract_config" where
  "get_mutability contract =
     map_err ContractStructureError (
       rbind (bool_for_system_value_from_tree_map contract ''keepsHistory'' False) (\<lambda>history.
       rbind (bool_for_system_value_from_tree_map contract ''canBeDeleted'' False) (\<lambda>deletable.
       rbind (bool_for_system_value_from_tree_map contract ''readonly'' False) (\<lambda>read_only.
       rbind (bool_for_system_value_from_tree_map contract ''documentsKeepHistoryContractDefault'' False) (\<lambda>keep.
       rbind (bool_for_system_value_from_tree_map contract ''documentsMutableContractDefault'' True) (\<lambda>mutable.
         Inr \<lparr>can_be_deleted = deletable, readonly = read_only, keeps_history = history,
              documents_keep_history_contract_default = keep,
              documents_mutable_contract_default = mutable\<rparr>))))))"

definition get_definitions :: "(string, cbor) btree \<Rightarrow> definitions" where
  "get_definitions contract =
     (case Option.bind (bt_get ''$defs'' contract) as_map of None \<Rightarrow> [] | Some m \<Rightarrow> cbor_map_to_btree_map m)"

fun add_document_types :: "nat \<Rightarrow> definitions \<Rightarrow> bool \<Rightarrow> bool \<Rightarrow> cbor_map \<Rightarrow> (string, document_type) btree \<Rightarrow>
    (error + (string, document_type) btree) option" where
  "add_document_types n defs keep mutable [] types = Some (Inr types)"
| "add_document_types n defs keep mutable ((k, v) # es) types =
     (case as_text k of
        None \<Rightarrow> Some (Inl (invalid_structure ''document type name is not a string as expected''))
      | Some name \<Rightarrow>
          (case as_map v of
             None \<Rightarrow> Some (Inl (invalid_structure ''document type data is not a map as expected''))
           | Some m \<Rightarrow>
               Option.bind (document_type_from_cbor_value n name m defs keep mutable) (\<lambda>r.
                 case r of
                   Inl e \<Rightarrow> Some (Inl e)
                 | Inr t \<Rightarrow> add_document_types n defs keep mutable es (bt_insert name t types))))"

definition get_document_types ::
    "nat \<Rightarrow> (string, cbor) btree \<Rightarrow> definitions \<Rightarrow> bool \<Rightarrow> bool \<Rightarrow> (error + (string, document_type) btree) option" where
  "get_document_types n contract defs keep mutable =
     (case bt_get ''documents'' contract of
        None \<Rightarrow> Some (Inl (ContractErr (ContractMissingRequiredKey ''unable to get documents'')))
      | Some v \<Rightarrow>
          (case as_map v of
             None \<Rightarrow> Some (Inl (invalid_structure ''documents must be a map''))
           | Some m \<Rightarrow> add_document_types n defs keep mutable m []))"

record 'j data_contract =
  protocol_version :: u32
  contract_id :: id32
  schema :: string
  version :: u32
  contract_owner_id :: id32
  documents :: "(string, 'j) btree"
  defs :: "(string, 'j) btree"
  metadata :: "(u64 \<times> u64) option"
  entropy :: id32
  binary_properties :: "(string, (string, 'j) btree) btree"
  contract_config :: contract_config
  document_types :: "(string, document_type) btree"

definition document_type_for_name :: "'j data_contract \<Rightarrow> string \<Rightarrow> contract_error + document_type" where
  "document_type_for_name c name =
     ok_or (DocumentTypeNotFound ''can not get document type from contract'') (bt_get name (document_types c))"

text \<open>The bytes of the root trees are those of Drive.\<close>

definition contract_root :: bytes where "contract_root = [1]"

definition root_path :: "'j data_contract \<Rightarrow> path" where
  "root_path c = [contract_root, contract_id c]"

definition documents_path :: "'j data_contract \<Rightarrow> path" where
  "documents_path c = [contract_root, contract_id c, [1]]"

definition document_type_path :: "'j data_contract \<Rightarrow> string \<Rightarrow> path" where
  "document_type_path c name = [contract_root, contract_id c, [1], string_bytes name]"

definition documents_primary_key_path :: "'j data_contract \<Rightarrow> string \<Rightarrow> path" where
  "documents_primary_key_path c name = [contract_root, contract_id c, [1], string_bytes name, [0]]"

definition documents_with_history_primary_key_path :: "'j data_contract \<Rightarrow> string \<Rightarrow> bytes \<Rightarrow> path" where
  "documents_with_history_primary_key_path c name i =
     [contract_root, contract_id c, [1], string_bytes name, [0], i]"

text \<open>The entries \<open>to_cbor\<close> adds to the canonical map for the configuration.\<close>

definition config_to_cbor :: "contract_config \<Rightarrow> (string, cbor) btree \<Rightarrow> (string, cbor) btree" where
  "config_to_cbor cfg m =
     bt_insert ''documentsMutableContractDefault'' (CBool (documents_mutable_contract_default cfg))
      (bt_insert ''documentsKeepHistoryContractDefault'' (CBool (documents_keep_history_contract_default cfg))
       (bt_insert ''keepsHistory'' (CBool (keeps_history cfg))
        (bt_insert ''readonly'' (CBool (readonly cfg)) m)))"

section \<open>The index a query uses\<close>

lemma best_index_spec:
  assumes "best_index m ixs best bd = r"
    and "case best of None \<Rightarrow> bd = 65535 | Some (ix, d) \<Rightarrow> d = bd \<and> d \<noteq> 0 \<and> d < 65535"
  shows "case r of
      None \<Rightarrow> best = None \<and> (\<forall>ix \<in> set ixs. \<forall>d. m ix = Some d \<longrightarrow> d = 65535)
    | Some (ix, d) \<Rightarrow> (best = Some (ix, d) \<or> ix \<in> set ixs \<and> m ix = Some d) \<and> d \<le> bd \<and> d < 65535 \<and>
        (\<forall>jx \<in> set ixs. \<forall>d'. m jx = Some d' \<longrightarrow> d \<le> d')"
  using assms
proof (induction ixs arbitrary: best bd)
  case Nil
  then show ?case by (auto split: option.splits prod.splits)
next
  case (Cons ix ixs)
  consider "m ix = None" | "m ix = Some 0" | d where "m ix = Some d" "d \<noteq> 0" by (cases "m ix") auto
  then show ?case
  proof cases
    case 1
    with Cons.IH[of best bd] Cons.prems show ?thesis by (auto split: option.splits)
  next
    case 2
    with Cons.prems show ?thesis by (auto split: option.splits prod.splits)
  next
    case 3
    show ?thesis
    proof (cases "d < bd")
      case True
      then have "d < 65535" using Cons.prems(2) by (auto split: option.splits)
      then have "case Some (ix, d) of None \<Rightarrow> d = 65535 | Some (ix, d') \<Rightarrow> d' = d \<and> d' \<noteq> 0 \<and> d' < 65535"
        using 3 by simp
      from Cons.IH[OF _ this] Cons.prems 3 True show ?thesis by (auto split: option.splits)
    next
      case False
      have "65535 \<le> d" if "bd = 65535" using False that by simp
      then have "d = 65535" if "bd = 65535" using that unat_width(2)[of d] by (simp add: word_le_nat_alt word_unat_eq_iff)
      with Cons.IH[OF _ Cons.prems(2)] Cons.prems 3 False show ?thesis
        by (auto split: option.splits)
    qed
  qed
qed


text \<open>C33: the index chosen for a query is one that matches it and leaves the fewest of its properties
  unused among all that match; no index is chosen only when none matches with fewer than 65535 of them.\<close>

theorem index_for_types_best:
  "case index_for_types dt index_names in_field_name order_by of
     None \<Rightarrow> (\<forall>ix \<in> set (indices dt). \<forall>d. matches ix index_names in_field_name order_by = Some d \<longrightarrow> d = 65535)
   | Some (ix, d) \<Rightarrow> ix \<in> set (indices dt) \<and> matches ix index_names in_field_name order_by = Some d \<and>
       (\<forall>jx \<in> set (indices dt). \<forall>d'. matches jx index_names in_field_name order_by = Some d' \<longrightarrow> d \<le> d')"
  using best_index_spec[of "\<lambda>ix. matches ix index_names in_field_name order_by" "indices dt" None 65535,
      OF index_for_types_def[symmetric]]
  by (auto split: option.splits)

definition example_index :: index where
  "example_index = \<lparr>index_properties = [\<lparr>property_name = ''owner'', ascending = True\<rparr>,
     \<lparr>property_name = ''name'', ascending = True\<rparr>, \<lparr>property_name = ''age'', ascending = True\<rparr>], unique = False\<rparr>"

definition example_document_type :: document_type where
  "example_document_type = \<lparr>type_name = ''person'', indices = [example_index, example_index\<lparr>index_properties := take 2 (index_properties example_index)\<rparr>],
     properties = [], required_fields = {}, documents_keep_history = False, documents_mutable = True\<rparr>"

theorem index_for_types_best_witness:
  "\<exists>ix d. index_for_types example_document_type [''owner''] None [] = Some (ix, d) \<and> ix \<in> set (indices example_document_type) \<and> d \<le> 2"
proof -
  have m: "matches example_index [''owner''] None [] = Some 2" "example_index \<in> set (indices example_document_type)"
    by (simp_all add: example_document_type_def example_index_def matches_def in_field_allowed_def)
  with index_for_types_best[of example_document_type "[''owner'']" None "[]"] show ?thesis
    by (fastforce split: option.splits)
qed

section \<open>What matching means\<close>

definition property_names :: "index_property list \<Rightarrow> string list" where
  "property_names ps = map property_name ps"

text \<open>The longest prefix of the properties that ends with the ordering.\<close>

definition ordered_prefix :: "index_property list \<Rightarrow> string list \<Rightarrow> index_property list \<Rightarrow> bool" where
  "ordered_prefix ps order_by q \<longleftrightarrow> prefix q ps \<and> suffix order_by (property_names q) \<and>
     (\<forall>q'. prefix q' ps \<longrightarrow> suffix order_by (property_names q') \<longrightarrow> length q' \<le> length q)"

lemma zip_names_prefix:
  "length ys \<le> length xs \<Longrightarrow> list_all (\<lambda>(p, sort). property_name p = sort) (zip xs ys) \<longleftrightarrow> prefix ys (property_names xs)"
  by (induction xs ys rule: list_induct2') (auto simp: property_names_def)

lemma ordering_matched:
  assumes "length order_by \<le> length reduced"
  shows "list_all (\<lambda>(p, sort). property_name p = sort) (zip (rev reduced) (rev order_by)) \<longleftrightarrow>
    suffix order_by (property_names reduced)"
  using zip_names_prefix[of "rev order_by" "rev reduced"] assms
  by (simp add: suffix_to_prefix property_names_def rev_map)

lemma reduce_properties_spec:
  assumes "order_by \<noteq> []"
  shows "case reduce_properties (length ps) ps order_by of
      None \<Rightarrow> \<forall>q. prefix q ps \<longrightarrow> \<not> suffix order_by (property_names q)
    | Some q \<Rightarrow> ordered_prefix ps order_by q \<or>
        q = [] \<and> (\<forall>q. prefix q ps \<longrightarrow> \<not> suffix order_by (property_names q)) \<and> (ps = [] \<or> length order_by = 1)"
proof (induction ps rule: rev_induct)
  case Nil
  then show ?case using assms by (simp add: property_names_def)
next
  case (snoc x ps)
  show ?case
  proof (cases "length (ps @ [x]) < length order_by")
    case True
    then have "\<not> suffix order_by (property_names q)" if "prefix q (ps @ [x])" for q
      using that by (auto simp: property_names_def dest!: prefix_length_le suffix_length_le)
    with True show ?thesis by simp
  next
    case False
    show ?thesis
    proof (cases "suffix order_by (property_names (ps @ [x]))")
      case True
      then have "reduce_properties (length (ps @ [x])) (ps @ [x]) order_by = Some (ps @ [x])"
        using False ordering_matched[of order_by "ps @ [x]"] by simp
      moreover have "ordered_prefix (ps @ [x]) order_by (ps @ [x])"
        using True prefix_length_le unfolding ordered_prefix_def by blast
      ultimately show ?thesis by (simp only: option.case) simp
    next
      case no: False
      have r: "reduce_properties (length (ps @ [x])) (ps @ [x]) order_by = reduce_properties (length ps) ps order_by"
        using False no ordering_matched[of order_by "ps @ [x]"] by simp
      have "length order_by = 1" if "ps = []" using that False assms by (cases order_by) auto
      with snoc no show ?thesis unfolding r ordered_prefix_def by (auto split: option.splits)
    qed
  qed
qed

lemma ucast_nat: "n < 2 ^ 16 \<Longrightarrow> unat (ucast (word_of_nat n :: u64) :: u16) = n"
  by (simp add: unsigned_ucast_eq unsigned_of_nat take_bit_nat_eq_self)

lemma count_unused_spec:
  "count_unused reduced ns d = (if set ns \<subseteq> set (property_names reduced) then Some (d - word_of_nat (length ns)) else None)"
  by (induction ns arbitrary: d) (auto simp: property_names_def algebra_simps)




text \<open>In the excluded case an index matches an ordering it does not have: an ordering by one
  property that is not among the index's, in a query without fields, leaves the search with no
  properties instead of failing.\<close>

theorem index_matches_foreign_ordering:
  assumes "index_properties ix \<noteq> []" "field \<notin> set (property_names (index_properties ix))" "length (index_properties ix) < 2 ^ 16"
  shows "\<exists>d. matches ix [] None [field] = Some d \<and> unat d = length (index_properties ix)"
proof -
  let ?ps = "index_properties ix"
  have no: "\<not> suffix [field] (property_names q)" if "prefix q ?ps" for q
    using set_mono_prefix[OF that] set_mono_suffix[of "[field]" "property_names q"] assms(2) by (auto simp: property_names_def)
  have "reduce_properties (length ?ps) ?ps [field] = Some []"
  proof (cases "reduce_properties (length ?ps) ?ps [field]")
    case None
    have "reduce_properties (length ps) ps [field] \<noteq> None" for ps
      by (induction ps rule: rev_induct) auto
    with None show ?thesis by blast
  next
    case (Some q)
    with reduce_properties_spec[of "[field]" ?ps] no show ?thesis by (auto simp: ordered_prefix_def)
  qed
  then show ?thesis using assms(1,3)
    by (simp add: matches_def in_field_allowed_def ucast_nat)
qed


theorem index_matches_foreign_ordering_witness:
  "\<exists>d. matches example_index [] None [''colour''] = Some d \<and> unat d = 3"
proof -
  have "index_properties example_index \<noteq> []" "length (index_properties example_index) = 3"
      "''colour'' \<notin> set (property_names (index_properties example_index))"
    by (simp_all add: example_index_def property_names_def)
  then show ?thesis using index_matches_foreign_ordering[of example_index "''colour''"] by simp
qed

section \<open>Reading a schema returns, unless a definition refers to itself\<close>

lemma bt_insert_set: "e \<in> set (bt_insert k v m) \<Longrightarrow> e = (k, v) \<or> e \<in> set m"
  by (induction m) (auto split: if_splits)

lemma bt_collect_set:
  "e \<in> set (foldl (\<lambda>acc e. bt_insert (fst e) (snd e) acc) acc es) \<Longrightarrow> e \<in> set es \<or> e \<in> set acc"
proof (induction es arbitrary: acc)
  case Nil
  then show ?case by simp
next
  case (Cons x es)
  then have "e \<in> set es \<or> e \<in> set (bt_insert (fst x) (snd x) acc)" by simp
  then show ?case using bt_insert_set[of e "fst x" "snd x" acc] by auto
qed

lemma cbor_entry_set:
  assumes "(k, v) \<in> set (cbor_map_to_btree_map m)"
  shows "(CText k, v) \<in> set m"
proof -
  from assms have "(k, v) \<in> set (List.map_filter text_entry m)"
    unfolding cbor_map_to_btree_map_def using bt_collect_set[of "(k, v)" "[]"] by auto
  then obtain e where "e \<in> set m" "text_entry e = Some (k, v)" by (auto simp: map_filter_def)
  then show ?thesis by (cases "fst e") (auto simp: text_entry_def, metis prod.collapse)
qed

lemma cbor_entry_size: "(k, v) \<in> set m \<Longrightarrow> size v < size (CMap m)"
  by (induction m) auto

lemma property_type_no_defs:
  "property_type [] inner = Inr (t, ps) \<Longrightarrow> ps = cbor_map_to_btree_map inner"
  by (auto simp: property_type_def Let_def btree_map_inner_map_value_def ok_or_def bt_get_def
      split: option.splits if_splits)

lemma sub_properties_smaller:
  assumes "btree_map_inner_btree_map (cbor_map_to_btree_map inner) k = Some sub" "e \<in> set sub"
  shows "size (snd e) < size (CMap inner)"
proof -
  from assms(1) obtain m where m: "bt_get k (cbor_map_to_btree_map inner) = Some (CMap m)" "sub = cbor_map_to_btree_map m"
    by (auto simp: btree_map_inner_btree_map_def bind_eq_Some_conv elim!: as_map.elims)
  then have "(CText k, CMap m) \<in> set inner" by (auto simp: bt_get_def dest: map_of_SomeD intro: cbor_entry_set)
  then have "size (CMap m) < size (CMap inner)" by (rule cbor_entry_size)
  moreover have "(CText (fst e), snd e) \<in> set m" using assms(2) m(2) cbor_entry_set[of "fst e" "snd e"] by simp
  ultimately show ?thesis using cbor_entry_size[of "CText (fst e)" "snd e" m] by linarith
qed

lemma insert_all_values_total:
  "(\<And>e ps. e \<in> set es \<Longrightarrow> insert_values n ds known pre e ps \<noteq> None) \<Longrightarrow> insert_all_values n ds known pre es ps \<noteq> None"
proof (induction es arbitrary: ps)
  case Nil
  then show ?case by simp
next
  case (Cons e es)
  from Cons.prems[of e ps] obtain r where r: "insert_values n ds known pre e ps = Some r" by auto
  have "insert_all_values n ds known pre es ps' \<noteq> None" for ps'
    by (rule Cons.IH) (rule Cons.prems, simp)
  with r show ?case by (cases r) (simp_all del: not_None_eq)
qed

lemma insert_values_total:
  "size (snd e) < n \<Longrightarrow> insert_values n [] known pre e ps \<noteq> None"
proof (induction n arbitrary: e pre ps)
  case 0
  then show ?case by simp
next
  case (Suc n)
  obtain k v where e: "e = (k, v)" by force
  show ?case
  proof (cases "\<exists>inner sub t ips. v = CMap inner \<and> property_type [] inner = Inr (''object'', ips) \<and>
      btree_map_inner_btree_map ips ''properties'' = Some sub")
    case False
    then show ?thesis by (cases v) (auto simp: e Let_def split: sum.splits option.splits)
  next
    case True
    then obtain inner sub ips where v: "v = CMap inner" and t: "property_type [] inner = Inr (''object'', ips)"
      and sub: "btree_map_inner_btree_map ips ''properties'' = Some sub" by blast
    have "size (snd e') < n" if "e' \<in> set sub" for e'
      using sub_properties_smaller[OF sub[unfolded property_type_no_defs[OF t]] that] Suc.prems v e by simp
    then have "insert_all_values n [] known (Some p) sub ps \<noteq> None" for p
      by (intro insert_all_values_total Suc.IH)
    with v t sub show ?thesis by (simp add: e Let_def del: not_None_eq)
  qed
qed

text \<open>C35: reading the properties of a document type of a contract without shared definitions
  returns: a depth beyond the size of the schema is never reached.\<close>

theorem document_type_read_returns:
  "\<exists>r. document_type_from_cbor_value (size (CMap m)) name m [] keep mutable = Some r"
proof -
  have "insert_all_values (size (CMap m)) [] known None sub [] \<noteq> None"
    if "cbor_inner_btree_map m ''properties'' = Some sub" for known sub
  proof (rule insert_all_values_total, rule insert_values_total)
    fix e assume "e \<in> set sub"
    moreover from that obtain m' where m': "get_key_from_cbor_map m ''properties'' = Some (CMap m')" "sub = cbor_map_to_btree_map m'"
      by (auto simp: cbor_inner_btree_map_def bind_eq_Some_conv elim!: as_map.elims)
    moreover have "\<exists>k. (k, CMap m') \<in> set m" using m'(1)
      by (induction m) (auto split: if_splits)
    ultimately show "size (snd e) < size (CMap m)"
      using cbor_entry_set[of "fst e" "snd e" m'] cbor_entry_size[of "CText (fst e)" "snd e" m'] cbor_entry_size[of _ "CMap m'" m]
      by fastforce
  qed
  then show ?thesis
    by (auto simp: document_type_from_cbor_value_def Let_def split: sum.splits option.splits simp del: not_None_eq)
qed

definition self_reference :: "string \<Rightarrow> cbor" where
  "self_reference d = CMap [(CText ''$ref'', CText (ref_prefix @ d))]"

definition recursive_definition :: "string \<Rightarrow> string \<Rightarrow> cbor" where
  "recursive_definition d k = CMap [(CText ''type'', CText ''object''), (CText ''properties'', CMap [(CText k, self_reference d)])]"

text \<open>A property that refers to an object definition having a property that refers to that
  definition again makes the reading never return.\<close>

theorem recursive_definition_diverges:
  assumes "bt_get d ds = Some (recursive_definition d k)"
  shows "insert_values n ds known pre (p, self_reference d) ps = None"
proof (induction n arbitrary: pre p)
  case 0
  then show ?case by simp
next
  case (Suc n)
  have "property_type ds [(CText ''$ref'', CText (ref_prefix @ d))] =
      Inr (''object'', cbor_map_to_btree_map [(CText ''type'', CText ''object''), (CText ''properties'', CMap [(CText k, self_reference d)])])"
    using assms
    by (simp add: property_type_def cbor_inner_text_value_def cbor_map_to_btree_map_def text_entry_def List.map_filter_def
        btree_map_inner_text_value_def btree_map_inner_map_value_def recursive_definition_def bt_get_def ok_or_def ref_prefix_def)
  with Suc show ?case
    by (simp add: self_reference_def Let_def cbor_map_to_btree_map_def text_entry_def List.map_filter_def
       btree_map_inner_btree_map_def bt_get_def)
qed

theorem recursive_definition_diverges_witness:
  "insert_values 7 [(''node'', recursive_definition ''node'' ''child'')] {} None (''root'', self_reference ''node'') [] = None"
  by (rule recursive_definition_diverges[of _ _ "''child''"]) (simp add: bt_get_def)

section \<open>Configuration and sizes\<close>

text \<open>C35: the configuration written by \<open>to_cbor\<close> is read back, except for the permission to delete the
  contract, which is not written and is lost.\<close>

theorem config_roundtrip:
  assumes "bt_get ''canBeDeleted'' m = None"
  shows "get_mutability (config_to_cbor cfg m) = Inr (cfg\<lparr>can_be_deleted := False\<rparr>)"
  using assms
  by (simp add: get_mutability_def config_to_cbor_def bool_for_system_value_from_tree_map_def bt_get_insert map_err_def)

theorem config_roundtrip_witness:
  "get_mutability (config_to_cbor (contract_config_default\<lparr>can_be_deleted := True\<rparr>) []) = Inr contract_config_default"
  using config_roundtrip[of "[]" "contract_config_default\<lparr>can_be_deleted := True\<rparr>"]
  by (simp add: contract_config_default_def)

lemma foldl_checked_add:
  "foldl (\<lambda>acc item. Option.bind acc (\<lambda>a. checked_add a item)) (Some a) ns =
     (if unat a + sum_list (map unat ns) < 2 ^ LENGTH('a) then Some (a + sum_list ns) else None)"
  for a :: "'a::len word"
proof (induction ns arbitrary: a)
  case Nil
  then show ?case by simp
next
  case (Cons n ns)
  have none: "foldl (\<lambda>acc item. Option.bind acc (\<lambda>a. checked_add a item)) None ns = None" by (induction ns) simp_all
  show ?case
  proof (cases "unat a + unat n < 2 ^ LENGTH('a)")
    case True
    then have "unat (a + n) = unat a + unat n" by (simp add: unat_word_ariths)
    with Cons[of "a + n"] True show ?thesis by (simp add: checked_add_def add.assoc)
  next
    case False
    then show ?thesis using none by (simp add: checked_add_def)
  qed
qed

lemma sum_list_unat:
  "sum_list (map unat ns) < 2 ^ LENGTH('a) \<Longrightarrow> unat (sum_list ns) = sum_list (map unat ns)" for ns :: "'a::len word list"
  by (induction ns) (simp_all add: unat_word_ariths)

text \<open>The maximal size of a document type is the sum of the maximal sizes of its fields that have
  one, and 65535 when the sum does not fit.\<close>

theorem document_type_max_size_sum:
  "unat (document_type_max_size dt) =
     (let s = (\<Sum>n \<leftarrow> List.map_filter (\<lambda>(_, f). max_byte_size (field_document_type f)) (properties dt). unat n)
      in if s < 65536 then s else 65535)"
proof -
  let ?ns = "List.map_filter (\<lambda>(_, f). max_byte_size (field_document_type f)) (properties dt)"
  have "document_type_max_size dt = (if sum_list (map unat ?ns) < 65536 then sum_list ?ns else 65535)"
    by (cases ?ns) (simp_all add: document_type_max_size_def Let_def foldl_checked_add)
  then show ?thesis using sum_list_unat[of ?ns] by (simp add: Let_def)
qed

end
