(* ===== verification/ContractCache.thy ===== *)
theory ContractCache
  imports DocTypes Fees "HOL-Library.AList"
begin

text \<open>
  The cache of data contracts: \<open>drive/src/drive/cache.rs\<close>. A transaction sees its own insertions over
  the global ones until they are merged or dropped. The concurrent cache of the crate \<open>moka\<close> is an
  argument: an entry may be evicted at any insertion, and the maps of the specification are refined
  exactly as long as none is.
\<close>

record 'j contract_fetch_info =
  fetched_contract :: "'j data_contract"
  fetched_storage_flags :: "storage_flags option"
  fetch_cost :: operation_cost
  fetch_fee :: "fee_result option"

text \<open>A bounded cache with keys, as documented by \<open>moka\<close>.\<close>

record ('c, 'v) cache_ops =
  new_cache :: "u64 \<Rightarrow> 'c"
  cache_insert :: "id32 \<Rightarrow> 'v \<Rightarrow> 'c \<Rightarrow> 'c"
  cache_lookup :: "id32 \<Rightarrow> 'c \<Rightarrow> 'v option"
  cache_entries :: "'c \<Rightarrow> (id32 \<times> 'v) list"

record 'c transactional_cache =
  cache_map :: "u64 \<rightharpoonup> 'c"
  max_capacity :: u64

record 'c data_contract_cache =
  global_cache :: 'c
  transactional :: "'c transactional_cache"

section \<open>Operations\<close>

text \<open>A transaction is the address of its object.\<close>

definition transactional_new :: "u64 \<Rightarrow> 'c transactional_cache" where
  "transactional_new capacity = \<lparr>cache_map = (\<lambda>_. None), max_capacity = capacity\<rparr>"

definition data_contract_cache_new :: "('c, 'v) cache_ops \<Rightarrow> u64 \<Rightarrow> u64 \<Rightarrow> 'c data_contract_cache" where
  "data_contract_cache_new C global_cache_max_capacity transactional_cache_max_capacity =
     \<lparr>global_cache = new_cache C global_cache_max_capacity,
      transactional = transactional_new transactional_cache_max_capacity\<rparr>"

definition get_cache :: "'c transactional_cache \<Rightarrow> u64 \<Rightarrow> 'c option" where
  "get_cache s tx = cache_map s tx"

definition transactional_insert ::
    "('c, 'j contract_fetch_info) cache_ops \<Rightarrow> 'c transactional_cache \<Rightarrow> u64 \<Rightarrow> 'j contract_fetch_info \<Rightarrow> 'c transactional_cache" where
  "transactional_insert C s tx fetch_info =
     (let cache = (case cache_map s tx of Some c \<Rightarrow> c | None \<Rightarrow> new_cache C (max_capacity s))
      in s\<lparr>cache_map := (cache_map s)(tx \<mapsto> cache_insert C (contract_id (fetched_contract fetch_info)) fetch_info cache)\<rparr>)"

definition transactional_get :: "('c, 'v) cache_ops \<Rightarrow> 'c transactional_cache \<Rightarrow> u64 \<Rightarrow> id32 \<Rightarrow> 'v option" where
  "transactional_get C s tx data_contract_id = Option.bind (get_cache s tx) (cache_lookup C data_contract_id)"

definition transactional_clear :: "'c transactional_cache \<Rightarrow> u64 \<Rightarrow> 'c transactional_cache" where
  "transactional_clear s tx = s\<lparr>cache_map := (cache_map s)(tx := None)\<rparr>"

definition transactional_clear_all :: "'c transactional_cache \<Rightarrow> 'c transactional_cache" where
  "transactional_clear_all s = s\<lparr>cache_map := (\<lambda>_. None)\<rparr>"

definition contract_cache_insert :: "('c, 'j contract_fetch_info) cache_ops \<Rightarrow> 'c data_contract_cache \<Rightarrow>
    'j contract_fetch_info \<Rightarrow> u64 option \<Rightarrow> 'c data_contract_cache" where
  "contract_cache_insert C s fetch_info transaction =
     (case transaction of
        Some tx \<Rightarrow> s\<lparr>transactional := transactional_insert C (transactional s) tx fetch_info\<rparr>
      | None \<Rightarrow> s\<lparr>global_cache :=
          cache_insert C (contract_id (fetched_contract fetch_info)) fetch_info (global_cache s)\<rparr>)"

definition contract_cache_get ::
    "('c, 'v) cache_ops \<Rightarrow> 'c data_contract_cache \<Rightarrow> id32 \<Rightarrow> u64 option \<Rightarrow> 'v option" where
  "contract_cache_get C s i transaction =
     (case Option.bind transaction (\<lambda>tx. transactional_get C (transactional s) tx i) of
        Some fetch_info \<Rightarrow> Some fetch_info
      | None \<Rightarrow> cache_lookup C i (global_cache s))"

definition merge_transactional_cache ::
    "('c, 'v) cache_ops \<Rightarrow> 'c data_contract_cache \<Rightarrow> u64 \<Rightarrow> 'c data_contract_cache" where
  "merge_transactional_cache C s tx =
     (case get_cache (transactional s) tx of
        Some cache \<Rightarrow> s\<lparr>global_cache := fold (\<lambda>(i, fetch_info). cache_insert C i fetch_info) (cache_entries C cache) (global_cache s)\<rparr>
      | None \<Rightarrow> s)"

definition clear_transactional_cache :: "'c data_contract_cache \<Rightarrow> u64 \<Rightarrow> 'c data_contract_cache" where
  "clear_transactional_cache s tx = s\<lparr>transactional := transactional_clear (transactional s) tx\<rparr>"

definition clear_all_transactional_cache :: "'c data_contract_cache \<Rightarrow> 'c data_contract_cache" where
  "clear_all_transactional_cache s = s\<lparr>transactional := transactional_clear_all (transactional s)\<rparr>"

section \<open>Contracts of the cache\<close>

locale cache_contract =
  fixes C :: "('c, 'v) cache_ops"
  assumes lookup_new [simp]: "cache_lookup C i (new_cache C n) = None"
    and lookup_inserted: "cache_lookup C i (cache_insert C i v c) \<in> {None, Some v}"
    and lookup_other: "j \<noteq> i \<Longrightarrow> cache_lookup C j (cache_insert C i v c) \<in> {None, cache_lookup C j c}"
    and entries: "map_of (cache_entries C c) i = cache_lookup C i c" "distinct (map fst (cache_entries C c))"

text \<open>A cache that is not full evicts nothing.\<close>

locale cache_without_eviction = cache_contract +
  assumes kept: "cache_lookup C j (cache_insert C i v c) = (if j = i then Some v else cache_lookup C j c)"

text \<open>The reference caches keep their last insertions, the capacity bounding how many or ignored.\<close>

definition bounded_cache_ops :: "(nat \<times> (id32 \<times> 'v) list, 'v) cache_ops" where
  "bounded_cache_ops = \<lparr>
     new_cache = (\<lambda>n. (unat n, [])),
     cache_insert = (\<lambda>i v (n, c). (n, take n ((i, v) # filter (\<lambda>e. fst e \<noteq> i) c))),
     cache_lookup = (\<lambda>i (n, c). map_of c i),
     cache_entries = (\<lambda>(n, c). AList.clearjunk c)\<rparr>"

definition unbounded_cache_ops :: "((id32 \<times> 'v) list, 'v) cache_ops" where
  "unbounded_cache_ops = \<lparr>
     new_cache = (\<lambda>n. []),
     cache_insert = (\<lambda>i v c. (i, v) # c),
     cache_lookup = (\<lambda>i c. map_of c i),
     cache_entries = AList.clearjunk\<rparr>"

lemma map_of_take: "map_of (take n c) j \<in> {None, map_of c j}"
  by (induction c arbitrary: n) (auto simp: take_Cons split: nat.splits)

interpretation bounded_cache: cache_contract bounded_cache_ops
proof
  fix i j :: id32 and v :: 'a and c :: "nat \<times> (id32 \<times> 'a) list" and n :: u64
  obtain m es where c: "c = (m, es)" by force
  have other: "map_of (filter (\<lambda>e. fst e \<noteq> i) es) j = map_of es j" if "j \<noteq> i" for j
    using that by (induction es) auto
  show "cache_lookup bounded_cache_ops i (new_cache bounded_cache_ops n) = (None :: 'a option)"
    by (simp add: bounded_cache_ops_def)
  show "cache_lookup bounded_cache_ops i (cache_insert bounded_cache_ops i v c) \<in> {None, Some v}"
    using map_of_take[of m "(i, v) # filter (\<lambda>e. fst e \<noteq> i) es" i] by (simp add: bounded_cache_ops_def c)
  show "cache_lookup bounded_cache_ops j (cache_insert bounded_cache_ops i v c) \<in> {None, cache_lookup bounded_cache_ops j c}" if "j \<noteq> i"
    using map_of_take[of m "(i, v) # filter (\<lambda>e. fst e \<noteq> i) es" j] that other[OF that] by (simp add: bounded_cache_ops_def c)
  show "map_of (cache_entries bounded_cache_ops c) i = cache_lookup bounded_cache_ops i c"
    by (simp add: bounded_cache_ops_def c map_of_clearjunk)
  show "distinct (map fst (cache_entries bounded_cache_ops c))"
    by (simp add: bounded_cache_ops_def c distinct_clearjunk)
qed

interpretation unbounded_cache: cache_without_eviction unbounded_cache_ops
  by unfold_locales (auto simp: unbounded_cache_ops_def map_of_clearjunk distinct_clearjunk)

section \<open>The specification: maps\<close>

record 'v contract_views =
  committed :: "id32 \<rightharpoonup> 'v"
  uncommitted :: "u64 \<Rightarrow> id32 \<rightharpoonup> 'v"

datatype 'v cache_op =
    InsertContract 'v "u64 option"
  | MergeTransaction u64
  | ClearTransaction u64
  | ClearAll

fun spec_op :: "('v \<Rightarrow> id32) \<Rightarrow> 'v cache_op \<Rightarrow> 'v contract_views \<Rightarrow> 'v contract_views" where
  "spec_op ident (InsertContract v None) s = s\<lparr>committed := (committed s)(ident v \<mapsto> v)\<rparr>"
| "spec_op ident (InsertContract v (Some tx)) s = s\<lparr>uncommitted := (uncommitted s)(tx := (uncommitted s tx)(ident v \<mapsto> v))\<rparr>"
| "spec_op ident (MergeTransaction tx) s = s\<lparr>committed := committed s ++ uncommitted s tx\<rparr>"
| "spec_op ident (ClearTransaction tx) s = s\<lparr>uncommitted := (uncommitted s)(tx := Map.empty)\<rparr>"
| "spec_op ident ClearAll s = s\<lparr>uncommitted := (\<lambda>_. Map.empty)\<rparr>"

definition spec_get :: "'v contract_views \<Rightarrow> id32 \<Rightarrow> u64 option \<Rightarrow> 'v option" where
  "spec_get s i transaction =
     (case transaction of None \<Rightarrow> committed s i | Some tx \<Rightarrow> (committed s ++ uncommitted s tx) i)"

fun run_op :: "('c, 'j contract_fetch_info) cache_ops \<Rightarrow> 'j contract_fetch_info cache_op \<Rightarrow> 'c data_contract_cache \<Rightarrow> 'c data_contract_cache" where
  "run_op C (InsertContract v tx) s = contract_cache_insert C s v tx"
| "run_op C (MergeTransaction tx) s = merge_transactional_cache C s tx"
| "run_op C (ClearTransaction tx) s = clear_transactional_cache s tx"
| "run_op C ClearAll s = clear_all_transactional_cache s"

definition views :: "('c, 'v) cache_ops \<Rightarrow> 'c data_contract_cache \<Rightarrow> 'v contract_views" where
  "views C s = \<lparr>committed = (\<lambda>i. cache_lookup C i (global_cache s)),
     uncommitted = (\<lambda>tx i. transactional_get C (transactional s) tx i)\<rparr>"

lemma contract_cache_get_views: "contract_cache_get C s i tx = spec_get (views C s) i tx"
  by (auto simp: contract_cache_get_def spec_get_def views_def map_add_def split: option.splits)

context cache_without_eviction
begin

lemma fold_insert:
  assumes "distinct (map fst es)"
  shows "cache_lookup C i (fold (\<lambda>(j, v). cache_insert C j v) es c) =
    (case map_of es i of Some v \<Rightarrow> Some v | None \<Rightarrow> cache_lookup C i c)"
  using assms by (induction es arbitrary: c) (auto simp: kept dest: map_of_SomeD intro: rev_image_eqI split: option.splits)

lemma merge_views:
  "views C (merge_transactional_cache C s tx) = (views C s)\<lparr>committed := committed (views C s) ++ uncommitted (views C s) tx\<rparr>"
  by (auto simp: merge_transactional_cache_def views_def transactional_get_def fold_insert entries map_add_def fun_eq_iff
      split: option.splits)

end

lemma run_op_views:
  assumes "cache_without_eviction C"
  shows "views C (run_op C op s) = spec_op (\<lambda>v. contract_id (fetched_contract v)) op (views C s)"
proof -
  note kept = cache_without_eviction.kept[OF assms]
  have new: "cache_lookup C i (new_cache C n) = None" for i n
    using assms cache_contract.lookup_new unfolding cache_without_eviction_def by blast
  show ?thesis
  proof (cases op)
    case (InsertContract v tx)
    then show ?thesis
      by (cases tx) (auto simp: contract_cache_insert_def views_def transactional_insert_def transactional_get_def
          get_cache_def Let_def kept new fun_eq_iff split: option.splits)
  next
    case (MergeTransaction tx)
    then show ?thesis using cache_without_eviction.merge_views[OF assms] by simp
  qed (auto simp: views_def clear_transactional_cache_def clear_all_transactional_cache_def transactional_clear_def
      transactional_clear_all_def transactional_get_def get_cache_def fun_eq_iff)
qed

text \<open>C36: as long as no entry is evicted the contract cache behaves as maps: after any sequence of
  insertions, merges and clears a transaction reads its own latest version of a contract and otherwise
  the latest global or merged one, and nothing of another transaction.\<close>

theorem contract_cache_refines:
  assumes "cache_without_eviction C"
  shows "contract_cache_get C (fold (run_op C) ops (data_contract_cache_new C m n)) i tx =
    spec_get (fold (spec_op (\<lambda>v. contract_id (fetched_contract v))) ops \<lparr>committed = Map.empty, uncommitted = (\<lambda>_. Map.empty)\<rparr>) i tx"
proof -
  have "views C (fold (run_op C) ops s) = fold (spec_op (\<lambda>v. contract_id (fetched_contract v))) ops (views C s)" for s
    by (induction ops arbitrary: s) (simp_all add: run_op_views[OF assms])
  moreover have "views C (data_contract_cache_new C m n) = \<lparr>committed = Map.empty, uncommitted = (\<lambda>_. Map.empty)\<rparr>"
    using assms cache_contract.lookup_new unfolding cache_without_eviction_def
    by (fastforce simp: views_def data_contract_cache_new_def transactional_new_def transactional_get_def get_cache_def)
  ultimately show ?thesis by (simp add: contract_cache_get_views)
qed

definition example_contract :: "id32 \<Rightarrow> u32 \<Rightarrow> unit data_contract" where
  "example_contract i v = \<lparr>protocol_version = 1, contract_id = i, schema = [], version = v, contract_owner_id = replicate 32 7,
     documents = [], defs = [], metadata = None, entropy = replicate 32 0, binary_properties = [],
     contract_config = contract_config_default, document_types = []\<rparr>"

definition example_fetch_info :: "id32 \<Rightarrow> u32 \<Rightarrow> unit contract_fetch_info" where
  "example_fetch_info i v = \<lparr>fetched_contract = example_contract i v, fetched_storage_flags = None,
     fetch_cost = no_cost, fetch_fee = None\<rparr>"

lemma example_fetch_info_id [simp]: "contract_id (fetched_contract (example_fetch_info i v)) = i"
  by (simp add: example_fetch_info_def example_contract_def)

theorem contract_cache_refines_witness:
  "contract_cache_get unbounded_cache_ops
     (fold (run_op unbounded_cache_ops) [InsertContract (example_fetch_info [1] 1) None, InsertContract (example_fetch_info [1] 2) (Some 7)]
       (data_contract_cache_new unbounded_cache_ops 500 200)) [1] (Some 7) = Some (example_fetch_info [1] 2)"
  using contract_cache_refines[OF unbounded_cache.cache_without_eviction_axioms,
      of "[InsertContract (example_fetch_info [1] 1) None, InsertContract (example_fetch_info [1] 2) (Some 7)]" 500 200 "[1]" "Some 7"]
  by (simp add: spec_get_def)

text \<open>Once the transactional cache evicts a contract the transaction updated, the transaction reads
  the version before its update, and that version stays in the global cache after the merge. Shown for a
  transactional cache of one entry that evicts what was inserted first.\<close>

theorem evicted_update_is_lost:
  assumes "contract_id (fetched_contract old) = i" "contract_id (fetched_contract updated) = i"
    and "contract_id (fetched_contract other) = j" "i \<noteq> j"
    and s: "s = fold (run_op bounded_cache_ops)
      [InsertContract old None, InsertContract updated (Some tx), InsertContract other (Some tx)]
      (data_contract_cache_new bounded_cache_ops 500 1)"
  shows "contract_cache_get bounded_cache_ops s i (Some tx) = Some old \<and>
    contract_cache_get bounded_cache_ops (merge_transactional_cache bounded_cache_ops s tx) i None = Some old"
  using assms(1-4) unfolding s
  by (simp add: bounded_cache_ops_def contract_cache_insert_def data_contract_cache_new_def transactional_new_def
      transactional_insert_def contract_cache_get_def transactional_get_def get_cache_def merge_transactional_cache_def)

theorem evicted_update_is_lost_witness:
  "contract_cache_get bounded_cache_ops
     (merge_transactional_cache bounded_cache_ops
       (fold (run_op bounded_cache_ops)
         [InsertContract (example_fetch_info [1] 1) None, InsertContract (example_fetch_info [1] 2) (Some 7),
          InsertContract (example_fetch_info [2] 5) (Some 7)]
         (data_contract_cache_new bounded_cache_ops 500 1)) 7) [1] None = Some (example_fetch_info [1] 1)"
  using evicted_update_is_lost[OF example_fetch_info_id example_fetch_info_id example_fetch_info_id _ refl, of "[1]" "[2]" 1 2 7 5]
  by simp

end
