(* ===== verification/Blocks.thy ===== *)
theory Blocks
  imports Payouts StoragePool Genesis Withdrawals ContractCache
begin

text \<open>
  Block processing of the ABCI application: \<open>process_block_fees.rs\<close>, \<open>identity_credit_withdrawal/mod.rs\<close>,
  \<open>abci/messages.rs\<close>, \<open>abci/handlers.rs\<close> and \<open>platform.rs\<close> of \<open>dash-abci/src\<close>. The handlers are total
  functions on the state of the application: a handler that fails returns the state it leaves behind.
\<close>

section \<open>Fees of a block\<close>

record processed_block_fees_result =
  result_fees_in_pools :: fees_in_pools
  result_payouts :: "proposers_payouts option"

definition init_thousandth_epoch :: "batch \<Rightarrow> nat \<Rightarrow> abci_error + batch" where
  "init_thousandth_epoch batch i =
     rbind (from_drive (epoch_new (word_of_nat i + PERPETUAL_STORAGE_EPOCHS))) (\<lambda>next_thousandth_epoch.
       Inr (add_init_empty_without_storage_operations next_thousandth_epoch batch))"

definition last_initiated_epoch_index :: "epoch_info \<Rightarrow> u16" where
  "last_initiated_epoch_index ei =
     (case previous_epoch_index ei of None \<Rightarrow> GENESIS_EPOCH_INDEX | Some i \<Rightarrow> i + 1)"

definition add_process_epoch_change_operations ::
    "('db, 'd, 'k) platform \<Rightarrow> 'db \<Rightarrow> block_info \<Rightarrow> epoch_info \<Rightarrow> batch \<Rightarrow> abci_error + (u64 option \<times> batch)" where
  "add_process_epoch_change_operations P db bi ei batch =
     rbind (foldM init_thousandth_epoch batch
              [unat (last_initiated_epoch_index ei) ..< Suc (unat (current_epoch_index ei))]) (\<lambda>batch.
     rbind (from_drive (epoch_new (current_epoch_index ei))) (\<lambda>current_epoch.
     let batch = add_init_current_operations current_epoch DEFAULT_ORIGINAL_FEE_MULTIPLIER
                   (block_height bi) (block_time_ms bi) batch
     in if index current_epoch = GENESIS_EPOCH_INDEX then Inr (None, batch)
        else
          rbind (add_distribute_storage_fee_distribution_pool_to_epochs_operations (decimal P) (grove (drive P)) db
                   (index current_epoch) batch) (\<lambda>(leftover, batch). Inr (Some leftover, batch))))"

definition process_block_fees ::
    "('db, 'd, 'k) platform \<Rightarrow> 'db \<Rightarrow> block_info \<Rightarrow> epoch_info \<Rightarrow> fees_aggregate \<Rightarrow>
     abci_error + ('db \<times> processed_block_fees_result)" where
  "process_block_fees P db bi ei block_fees =
     rbind (from_drive (epoch_new (current_epoch_index ei))) (\<lambda>current_epoch.
     rbind (if is_epoch_change ei then add_process_epoch_change_operations P db bi ei []
            else Inr (None, [])) (\<lambda>(storage_distribution_leftover_credits, batch).
     rbind (from_drive (increment_proposer_block_count_operation (grove (drive P)) db current_epoch
              (proposer_pro_tx_hash bi) (if is_epoch_change ei then Some 0 else None))) (\<lambda>op.
     rbind (add_distribute_fees_from_oldest_unpaid_epoch_pool_to_proposers_operations P db (current_epoch_index ei)
              (if is_epoch_change ei then Some (block_height bi) else None) (push op batch)) (\<lambda>(payouts, batch).
     rbind (add_distribute_block_fees_into_pools_operations P db current_epoch block_fees
              storage_distribution_leftover_credits batch) (\<lambda>(fees_in_pools, batch).
     rbind (from_drive (grove_apply_batch (drive P) db batch False)) (\<lambda>db'.
       Inr (db', \<lparr>result_fees_in_pools = fees_in_pools, result_payouts = payouts\<rparr>)))))))"

section \<open>Withdrawals of a block\<close>

definition WITHDRAWAL_TRANSACTIONS_QUERY_LIMIT :: u16 where "WITHDRAWAL_TRANSACTIONS_QUERY_LIMIT = 16"

text \<open>The dequeued transactions are gone from the queue also when one of them cannot be extended.\<close>

definition prepare_withdrawal :: "('db, 'd, 'k) platform \<Rightarrow> u32 \<Rightarrow> id32 \<Rightarrow> bytes \<times> bytes \<Rightarrow> abci_error + bytes" where
  "prepare_withdrawal P height quorum_hash w =
     ok_or (Execution (ExecCorruptedCodeExecution ''could not add aditional request info to asset unlock transaction''))
       (append_request_info P height quorum_hash (snd w))"

definition fetch_and_prepare_unsigned_withdrawal_transactions ::
    "('db, 'd, 'k) platform \<Rightarrow> 'db \<Rightarrow> u32 \<Rightarrow> id32 \<Rightarrow> 'db \<times> (abci_error + bytes list)" where
  "fetch_and_prepare_unsigned_withdrawal_transactions P db height quorum_hash =
     (case from_drive (dequeue_withdrawal_transactions (drive P) db WITHDRAWAL_TRANSACTIONS_QUERY_LIMIT) of
        Inl e \<Rightarrow> (db, Inl e)
      | Inr (db', withdrawals) \<Rightarrow> (db', mapM (prepare_withdrawal P height quorum_hash) withdrawals))"

section \<open>The application\<close>

record block_begin_response =
  response_epoch_info :: epoch_info
  unsigned_withdrawal_transactions :: "bytes list"

record block_end_response =
  response_proposers_paid_count :: "u16 option"
  response_paid_epoch_index :: "u16 option"

definition from_process_block_fees_result :: "processed_block_fees_result \<Rightarrow> block_end_response" where
  "from_process_block_fees_result r =
     (case result_payouts r of
        None \<Rightarrow> \<lparr>response_proposers_paid_count = None, response_paid_epoch_index = None\<rparr>
      | Some p \<Rightarrow> \<lparr>response_proposers_paid_count = Some (proposers_paid_count p),
                   response_paid_epoch_index = Some (paid_epoch_index p)\<rparr>)"

text \<open>The database is the one of the current transaction.\<close>

record ('db, 'c) application =
  app_db :: 'db
  genesis_time_ms :: genesis_cache
  cached_contracts :: "'c data_contract_cache"
  block_execution_context :: "block_execution_context option"

definition platform_open :: "'db \<Rightarrow> ('c, 'v) cache_ops \<Rightarrow> drive_config \<Rightarrow> ('db, 'c) application" where
  "platform_open db C cfg =
     \<lparr>app_db = db, genesis_time_ms = default_genesis_time cfg,
      cached_contracts = data_contract_cache_new C (data_contracts_global_cache_size cfg)
        (data_contracts_transactional_cache_size cfg),
      block_execution_context = None\<rparr>"

type_synonym ('db, 'c, 'r) handled = "('db, 'c) application \<times> (abci_error + 'r)"

definition init_chain :: "('db, 'd, 'k) platform \<Rightarrow> ('db, 'c) application \<Rightarrow> ('db, 'c, unit) handled" where
  "init_chain P s =
     (case from_drive (create_initial_state_structure (drive P) (app_db s)) of
        Inl e \<Rightarrow> (s, Inl e)
      | Inr db \<Rightarrow> (s\<lparr>app_db := db\<rparr>, Inr ()))"

definition block_begin_genesis ::
    "('db, 'd, 'k) platform \<Rightarrow> ('db, 'c) application \<Rightarrow> block_begin_request \<Rightarrow> ('db, 'c, u64) handled" where
  "block_begin_genesis P s request =
     (if req_block_height request = 1 then
        (case init_genesis_time (drive P) (app_db s) (req_block_time_ms request) of
           (cache, Inl e) \<Rightarrow> (s\<lparr>genesis_time_ms := cache\<rparr>, from_drive (Inl e))
         | (cache, Inr db) \<Rightarrow> (s\<lparr>genesis_time_ms := cache, app_db := db\<rparr>, Inr (req_block_time_ms request)))
      else
        (case from_drive (get_genesis_time (drive P) (app_db s) (genesis_time_ms s)) of
           Inl e \<Rightarrow> (s, Inl e)
         | Inr (time, cache) \<Rightarrow>
             (s\<lparr>genesis_time_ms := cache\<rparr>, ok_or (Execution (DriveIncoherence ''the genesis time must be set'')) time)))"

definition block_begin ::
    "('db, 'd, 'k) platform \<Rightarrow> ('db, 'c) application \<Rightarrow> block_begin_request \<Rightarrow> ('db, 'c, block_begin_response) handled" where
  "block_begin P s request =
     (case block_begin_genesis P s request of
        (s, Inl e) \<Rightarrow> (s, Inl e)
      | (s, Inr genesis_time) \<Rightarrow>
          (let bi = from_block_begin_request request
           in case from_genesis_time_and_block_info (decimal P) genesis_time bi of
                Inl e \<Rightarrow> (s, Inl e)
              | Inr ei \<Rightarrow>
                  (let s = s\<lparr>block_execution_context := Some \<lparr>ctx_block_info = bi, ctx_epoch_info = ei\<rparr>\<rparr>
                   in case fetch_and_prepare_unsigned_withdrawal_transactions P (app_db s)
                             (ucast (req_block_height request)) (req_validator_set_quorum_hash request) of
                        (db, r) \<Rightarrow>
                          (s\<lparr>app_db := db\<rparr>,
                           rmap (\<lambda>txs. \<lparr>response_epoch_info = ei, unsigned_withdrawal_transactions = txs\<rparr>) r))))"

definition block_end ::
    "('db, 'd, 'k) platform \<Rightarrow> ('db, 'c) application \<Rightarrow> fees_aggregate \<Rightarrow> ('db, 'c, block_end_response) handled" where
  "block_end P s fees =
     (case block_execution_context s of
        None \<Rightarrow>
          (s, Inl (Execution (ExecCorruptedCodeExecution ''block execution context must be set in block begin handler'')))
      | Some ctx \<Rightarrow>
          (case process_block_fees P (app_db s) (ctx_block_info ctx) (ctx_epoch_info ctx) fees of
             Inl e \<Rightarrow> (s, Inl e)
           | Inr (db, r) \<Rightarrow> (s\<lparr>app_db := db\<rparr>, Inr (from_process_block_fees_result r))))"

definition after_finalize_block :: "('db, 'c) application \<Rightarrow> ('db, 'c, unit) handled" where
  "after_finalize_block s =
     (s\<lparr>cached_contracts := clear_all_transactional_cache (cached_contracts s)\<rparr>, Inr ())"

section \<open>What a block adds to its batch\<close>

text \<open>Operations on the pool of one epoch, on identities, and on the unpaid epoch index.\<close>

definition of_epoch :: "u16 \<Rightarrow> grove_op \<Rightarrow> bool" where
  "of_epoch i o' \<longleftrightarrow> prefix (get_path (epoch_at i)) (op_path o')"

definition of_identities :: "grove_op \<Rightarrow> bool" where
  "of_identities o' \<longleftrightarrow> prefix identities_path (op_path o') \<and> \<not> deletes o'"

definition payout_op :: "u16 \<Rightarrow> u16 \<Rightarrow> grove_op \<Rightarrow> bool" where
  "payout_op i n o' \<longleftrightarrow> of_epoch i o' \<or> of_identities o' \<or> o' = update_unpaid_epoch_index_operation n"

lemma pay_reward_appends:
  "add_pay_reward_to_identity_operations P db i r b = Inr b' \<Longrightarrow> appends of_identities b b'"
  by (auto simp: add_pay_reward_to_identity_operations_def rbind_eq_Inr from_drive_eq_Inr split_beta
      add_insert_identity_operations_def add_insert_empty_tree_with_flags_def of_identities_def identity_path_def identities_path_def add_insert_def
      insert_run_op_def deletes_def appends_def push_def ok_or_eq_Inr)

lemma pay_share_appends: "pay_share P db (m, b) doc = Inr (m', b') \<Longrightarrow> appends of_identities b b'"
  by (auto simp: pay_share_def rbind_eq_Inr split_beta Let_def dest: pay_reward_appends)

lemma pay_proposer_appends:
  assumes "pay_proposer P db f c n (l, b) x = Inr (l', b')"
  shows "appends of_identities b b'"
proof -
  obtain i h p where x: "x = (i, h, p)" by (cases x)
  from assms obtain mr docs m1 b1 l1 w where
      "foldM (pay_share P db) (mr, b) docs = Inr (m1, b1)" "add_pay_reward_to_identity_operations P db h w b1 = Inr b'"
    by (auto simp: x pay_proposer_def rbind_eq_Inr)
  moreover from this(1) have "appends of_identities (snd (mr, b)) (snd (m1, b1))"
    by (rule foldM_appends) (metis pay_share_appends prod.collapse)
  ultimately show ?thesis using pay_reward_appends appends_trans by fastforce
qed

lemma delete_proposers_appends: "appends (of_epoch i) b (add_delete_proposers_operations (epoch_at i) hs b)"
proof (induction hs arbitrary: b)
  case Nil
  then show ?case by simp
next
  case (Cons h hs)
  have "appends (of_epoch i) b (add_delete (get_proposers_path (epoch_at i)) h b)"
    by (auto simp: add_delete_def of_epoch_def delete_run_op_def get_proposers_path_def get_path_def)
  with Cons show ?case by (auto intro: appends_trans)
qed

lemma pool_payout_appends:
  assumes "add_epoch_pool_to_proposers_payout_operations P db u limit b = Inr (n, b')"
  shows "appends (payout_op (epoch_index u) m) b b'"
proof -
  from assms obtain f c proposers k l b1 where
      f: "foldM (pay_proposer P db f c k) (dec_lit (decimal P) 0 1, b) (zip (map word_of_nat [0 ..< length proposers]) proposers) = Inr (l, b1)"
    and b': "b' = add_delete_proposers_operations (epoch_at (epoch_index u)) (map fst proposers) b1"
    by (auto simp: add_epoch_pool_to_proposers_payout_operations_def rbind_eq_Inr from_drive_eq_Inr epoch_new_storable
        Let_def split_beta split: if_splits)
  have "appends of_identities (snd (dec_lit (decimal P) 0 1, b)) (snd (l, b1))"
    by (rule foldM_appends[OF f]) (metis pay_proposer_appends prod.collapse)
  then have "appends (payout_op (epoch_index u) m) b b1" by (simp add: appends_mono payout_op_def)
  also have "appends (payout_op (epoch_index u) m) b1 b'"
    unfolding b' using delete_proposers_appends by (rule appends_mono) (simp add: payout_op_def)
  finally show ?thesis .
qed

text \<open>What paying adds: nothing, or operations on the oldest unpaid epoch and on identities, and the
  next unpaid epoch when the epoch is paid completely.\<close>

lemma payouts_append:
  assumes "grove_contract (grove (drive P))"
    and "add_distribute_fees_from_oldest_unpaid_epoch_pool_to_proposers_operations P db current cached b = Inr (r, b')"
    and "get_unpaid_epoch_index (grove (drive P)) db = Inr i" "i \<le> current"
  shows "b' = b \<or> (\<exists>n. i < n \<and> n \<le> current \<and> storable i \<and> appends (payout_op i n) b b')"
proof (cases "find_oldest_epoch_needing_payment P db current cached")
  case (Inl e)
  with assms(2) show ?thesis
    by (simp add: add_distribute_fees_from_oldest_unpaid_epoch_pool_to_proposers_operations_def)
next
  case (Inr u)
  show ?thesis
  proof (cases u)
    case None
    with Inr assms(2) show ?thesis
      by (simp add: add_distribute_fees_from_oldest_unpaid_epoch_pool_to_proposers_operations_def)
  next
    case (Some u)
    with Inr next_unpaid_epoch[OF assms(1) _ assms(3,4), of cached u]
    have u: "epoch_index u = i" "i < next_unpaid_epoch_index u" "next_unpaid_epoch_index u \<le> current" by simp_all
    let ?n = "next_unpaid_epoch_index u"
    from assms(2) Inr Some u(1) obtain k b1 where
        k: "add_epoch_pool_to_proposers_payout_operations P db u ((current - i) * 50) b = Inr (k, b1)"
      and b': "b' = b1 \<or> storable i \<and> b' = push (update_unpaid_epoch_index_operation ?n) (add_mark_as_paid_operations (epoch_at i) b1)"
      by (auto simp: add_distribute_fees_from_oldest_unpaid_epoch_pool_to_proposers_operations_def Let_def rbind_eq_Inr
          from_drive_eq_Inr epoch_new_storable split: if_splits)
    have st: "storable i" using k u(1)
      by (auto simp: add_epoch_pool_to_proposers_payout_operations_def rbind_eq_Inr from_drive_eq_Inr epoch_new_storable
          split: if_splits)
    have 1: "appends (payout_op i ?n) b b1" using pool_payout_appends[OF k] u(1) by simp
    have "appends (payout_op i ?n) b1 (push (update_unpaid_epoch_index_operation ?n) (add_mark_as_paid_operations (epoch_at i) b1))"
      unfolding add_mark_as_paid_operations_def
      by (intro appends_push) (auto simp: payout_op_def of_epoch_def delete_run_op_def delete_tree_run_op_def
          delete_processing_credits_for_distribution_operation_def delete_storage_credits_for_distribution_operation_def
          delete_proposers_tree_operation_def)
    with 1 b' u st show ?thesis by (blast intro: appends_trans)
  qed
qed

text \<open>What the change of an epoch adds: trees for later epochs, the values of the current one, and credits
  for storage pools.\<close>

definition epoch_tree_op :: "grove_op \<Rightarrow> bool" where
  "epoch_tree_op o' \<longleftrightarrow> (\<exists>j. o' = insert_run_op pools_path (key (epoch_at j)) empty_tree)"

definition storage_credit_op :: "grove_op \<Rightarrow> bool" where
  "storage_credit_op o' \<longleftrightarrow> (\<exists>j n. o' = update_storage_credits_for_distribution_operation (epoch_at j) n)"

definition current_epoch_ops :: "u16 \<Rightarrow> block_info \<Rightarrow> batch" where
  "current_epoch_ops c bi =
     add_init_current_operations (epoch_at c) DEFAULT_ORIGINAL_FEE_MULTIPLIER (block_height bi) (block_time_ms bi) []"

lemma distribute_to_epoch_appends:
  "distribute_to_epoch G db share (l, b) j = Inr (l', b') \<Longrightarrow> appends storage_credit_op b b'"
  by (auto simp: distribute_to_epoch_def rbind_eq_Inr from_drive_eq_Inr epoch_new_storable storage_credit_op_def split: if_splits) blast

lemma distribute_year_appends:
  assumes "distribute_year D G db f c (l, b) y = Inr (l', b')"
  shows "appends storage_credit_op b b'"
proof -
  from assms obtain share js where "foldM (distribute_to_epoch G db share) (l, b) js = Inr (l', b')"
    by (auto simp: distribute_year_def rbind_eq_Inr Let_def)
  then have "appends storage_credit_op (snd (l, b)) (snd (l', b'))"
    by (rule foldM_appends) (metis distribute_to_epoch_appends prod.collapse)
  then show ?thesis by simp
qed

lemma distribute_pool_appends:
  assumes "add_distribute_storage_fee_distribution_pool_to_epochs_operations D G db c b = Inr (l, b')"
  shows "appends storage_credit_op b b'"
proof -
  from assms consider "b' = b" | fees fd where "foldM (distribute_year D G db fd c) (fees, b) [0 ..< unat PERPETUAL_STORAGE_YEARS] = Inr (l, b')"
    by (auto simp: add_distribute_storage_fee_distribution_pool_to_epochs_operations_def rbind_eq_Inr split: if_splits)
  then show ?thesis
  proof cases
    case 2
    then have "appends storage_credit_op (snd (fees, b)) (snd (l, b'))"
      by (rule foldM_appends) (metis distribute_year_appends prod.collapse)
    then show ?thesis by simp
  qed simp
qed

lemma epoch_change_batch:
  assumes "add_process_epoch_change_operations P db bi ei [] = Inr (l, b)"
  obtains xs ys where "b = xs @ current_epoch_ops (current_epoch_index ei) bi @ ys"
    "list_all epoch_tree_op xs" "list_all storage_credit_op ys" "storable (current_epoch_index ei)"
    "current_epoch_index ei = 0 \<and> l = None \<or> (\<exists>b1 left. current_epoch_index ei \<noteq> 0 \<and> l = Some left \<and>
      add_distribute_storage_fee_distribution_pool_to_epochs_operations (decimal P) (grove (drive P)) db (current_epoch_index ei) b1 = Inr (left, b))"
proof -
  let ?c = "current_epoch_index ei"
  from assms obtain b1 where b1: "foldM init_thousandth_epoch [] [unat (last_initiated_epoch_index ei) ..< Suc (unat ?c)] = Inr b1"
    and c: "storable ?c"
    and l: "(if ?c = 0 then Inr (None, b1 @ current_epoch_ops ?c bi)
      else rbind (add_distribute_storage_fee_distribution_pool_to_epochs_operations (decimal P) (grove (drive P)) db ?c
        (b1 @ current_epoch_ops ?c bi)) (\<lambda>(leftover, batch). Inr (Some leftover, batch))) = Inr (l, b)"
    by (auto simp: add_process_epoch_change_operations_def rbind_eq_Inr from_drive_eq_Inr epoch_new_storable Let_def
        current_epoch_ops_def add_init_current_operations_def push_def GENESIS_EPOCH_INDEX_def simp del: upt_Suc split: if_splits)
  have "appends epoch_tree_op [] b1"
    by (rule foldM_appends[OF b1, where g = id, simplified])
      (auto simp: init_thousandth_epoch_def rbind_eq_Inr from_drive_eq_Inr epoch_new_storable add_insert_empty_tree_def
        add_init_empty_without_storage_operations_def epoch_tree_op_def split: if_splits)
  moreover have "appends storage_credit_op (b1 @ current_epoch_ops ?c bi) b"
    using l distribute_pool_appends by (fastforce simp: rbind_eq_Inr split: if_splits)
  ultimately show thesis using that[of b1] c l
    by (auto simp: appends_def rbind_eq_Inr split: if_splits)
qed

section \<open>What a block leaves in the pools\<close>

lemma epoch_paths_prefix:
  "storable i \<Longrightarrow> storable c \<Longrightarrow> i \<noteq> c \<Longrightarrow> prefix (get_path (epoch_at c)) p \<Longrightarrow> \<not> prefix (get_path (epoch_at i)) p"
  using epoch_at_inject[of i c] by (auto simp: get_path_def prefix_def)

lemma payout_op_elsewhere:
  assumes "payout_op i n o'" "storable i" "storable c" "i \<noteq> c" "prefix (get_path (epoch_at c)) p"
  shows "\<not> writes p k o' \<and> \<not> (deletes o' \<and> disturbs p o')"
proof -
  have "\<not> prefix (get_path (epoch_at i)) p" using epoch_paths_prefix assms(2-5) by blast
  moreover have "\<not> prefix identities_path p" "p \<noteq> pools_path" using assms(5)
    by (auto simp: get_path_def identities_path_def root_key_def prefix_def pools_path_def)
  ultimately show ?thesis using assms(1)
    by (auto simp: payout_op_def of_epoch_def of_identities_def writes_def disturbs_def deletes_def
        update_unpaid_epoch_index_operation_def insert_run_op_def dest: append_prefixD prefix_order.trans)
qed

lemma payout_op_pools:
  assumes "payout_op i n o'"
  shows "\<not> disturbs pools_path o'" "writes pools_path k o' \<Longrightarrow> o' = update_unpaid_epoch_index_operation n"
  using assms
  by (auto simp: payout_op_def of_epoch_def of_identities_def writes_def disturbs_def get_path_def pools_path_def
      update_unpaid_epoch_index_operation_def insert_run_op_def identities_path_def root_key_def prefix_def Cons_eq_append_conv)

text \<open>The block count of a proposer before a block: none in a new epoch.\<close>

definition blocks_proposed :: "'db grovedb \<Rightarrow> 'db \<Rightarrow> epoch \<Rightarrow> bytes \<Rightarrow> error + u64" where
  "blocks_proposed G db e h =
     (case get_epochs_proposer_block_count G db e h of Inl (GroveDB (PathKeyNotFound _)) \<Rightarrow> Inr 0 | r \<Rightarrow> r)"

text \<open>The credits of the storage pool a block adds to: what the distribution at the start of an epoch left
  over, or what the pool holds.\<close>

definition storage_pool_before :: "('db, 'd, 'k) platform \<Rightarrow> 'db \<Rightarrow> epoch_info \<Rightarrow> u64 \<Rightarrow> bool" where
  "storage_pool_before P db ei n \<longleftrightarrow>
     (if is_epoch_change ei \<and> current_epoch_index ei \<noteq> 0
      then \<exists>b b'. add_distribute_storage_fee_distribution_pool_to_epochs_operations (decimal P) (grove (drive P)) db
             (current_epoch_index ei) b = Inr (n, b')
      else get_aggregate_storage_fees_from_distribution_pool (grove (drive P)) db = Inr n)"

definition changes_of :: "epoch_info \<Rightarrow> block_info \<Rightarrow> batch \<Rightarrow> bool" where
  "changes_of ei bi b \<longleftrightarrow>
     (if is_epoch_change ei
      then \<exists>xs ys. b = xs @ current_epoch_ops (current_epoch_index ei) bi @ ys \<and>
             list_all epoch_tree_op xs \<and> list_all storage_credit_op ys
      else b = [])"

definition payouts_of :: "u16 \<Rightarrow> u16 \<Rightarrow> u16 \<Rightarrow> batch \<Rightarrow> bool" where
  "payouts_of i c n b \<longleftrightarrow> n = i \<and> b = [] \<or> i < n \<and> n \<le> c \<and> storable i \<and> list_all (payout_op i n) b"

lemma process_block_fees_batch:
  assumes "grove_contract (grove (drive P))" "process_block_fees P db bi ei fees = Inr (db', r)"
    and "get_unpaid_epoch_index (grove (drive P)) db = Inr i" "i \<le> current_epoch_index ei"
  obtains changes k n pay p s where "storable (current_epoch_index ei)" "changes_of ei bi changes"
    "if is_epoch_change ei then k = 0
     else blocks_proposed (grove (drive P)) db (epoch_at (current_epoch_index ei)) (proposer_pro_tx_hash bi) = Inr k"
    "payouts_of i (current_epoch_index ei) n pay"
    "processing_credits_or_zero (grove (drive P)) db (epoch_at (current_epoch_index ei)) = Inr p" "storage_pool_before P db ei s"
    "processing_fees_in_pool (result_fees_in_pools r) = p + block_processing_fees fees"
    "storage_fees_in_pool (result_fees_in_pools r) = s + block_storage_fees fees"
    "grove_apply_batch (drive P) db (changes @ update_proposer_block_count_operation (epoch_at (current_epoch_index ei))
       (proposer_pro_tx_hash bi) (k + 1) # pay @
       [update_processing_credits_for_distribution_operation (epoch_at (current_epoch_index ei)) (p + block_processing_fees fees),
        update_storage_fee_distribution_pool_operation (s + block_storage_fees fees)]) False = Inr db'"
proof -
  let ?c = "current_epoch_index ei" and ?G = "grove (drive P)" and ?h = "proposer_pro_tx_hash bi"
  from assms(2) obtain l b op py b1 fp b2 where st: "storable ?c"
    and ch: "(if is_epoch_change ei then add_process_epoch_change_operations P db bi ei [] else Inr (None, [])) = Inr (l, b)"
    and op: "increment_proposer_block_count_operation ?G db (epoch_at ?c) ?h (if is_epoch_change ei then Some 0 else None) = Inr op"
    and py: "add_distribute_fees_from_oldest_unpaid_epoch_pool_to_proposers_operations P db ?c
      (if is_epoch_change ei then Some (block_height bi) else None) (push op b) = Inr (py, b1)"
    and fp: "add_distribute_block_fees_into_pools_operations P db (epoch_at ?c) fees l b1 = Inr (fp, b2)"
    and db': "grove_apply_batch (drive P) db b2 False = Inr db'" and r: "result_fees_in_pools r = fp"
    unfolding process_block_fees_def
    by (auto simp: rbind_eq_Inr from_drive_eq_Inr epoch_new_storable simp del: if_split split: if_splits)
  obtain k where k: "if is_epoch_change ei then k = 0 else blocks_proposed ?G db (epoch_at ?c) ?h = Inr k"
    and op': "op = update_proposer_block_count_operation (epoch_at ?c) ?h (k + 1)"
    using op by (auto simp: increment_proposer_block_count_operation_def blocks_proposed_def rbind_eq_Inr split: if_splits)
  have changes: "changes_of ei bi b" and l: "l = None \<Longrightarrow> \<not> (is_epoch_change ei \<and> ?c \<noteq> 0)"
      "l = Some s \<Longrightarrow> storage_pool_before P db ei s" for s
    using ch by (auto simp: changes_of_def storage_pool_before_def split: if_splits elim!: epoch_change_batch)
  obtain p s where p: "processing_credits_or_zero ?G db (epoch_at ?c) = Inr p"
    and s: "storage_pool_before P db ei s"
    and fp': "fp = \<lparr>processing_fees_in_pool = p + block_processing_fees fees, storage_fees_in_pool = s + block_storage_fees fees\<rparr>"
      "b2 = b1 @ [update_processing_credits_for_distribution_operation (epoch_at ?c) (p + block_processing_fees fees),
        update_storage_fee_distribution_pool_operation (s + block_storage_fees fees)]"
  proof (cases l)
    case None
    with fp l(1) that show thesis
      by (auto simp: add_distribute_block_fees_into_pools_operations_def rbind_eq_Inr from_drive_eq_Inr Let_def push_def
          storage_pool_before_def)
  next
    case (Some s)
    with fp l(2) that show thesis
      by (auto simp: add_distribute_block_fees_into_pools_operations_def rbind_eq_Inr from_drive_eq_Inr Let_def push_def)
  qed
  obtain n pay where "payouts_of i ?c n pay" "b1 = push op b @ pay"
    using payouts_append[OF assms(1) py assms(3,4)] by (auto simp: payouts_of_def appends_def)
  then show thesis using that[of b k n pay p s] st changes k op' p s fp' r db' by (simp add: push_def)
qed

lemmas block_op_defs = insert_run_op_def update_proposer_block_count_operation_def
  update_processing_credits_for_distribution_operation_def update_storage_fee_distribution_pool_operation_def
  update_storage_credits_for_distribution_operation_def update_start_time_operation_def
  update_fee_multiplier_operation_def init_proposers_tree_operation_def update_start_block_height_operation_def

lemma changes_of_cases:
  assumes "changes_of ei bi b" "o' \<in> set b"
  shows "epoch_tree_op o' \<or> storage_credit_op o' \<or> o' \<in> set (current_epoch_ops (current_epoch_index ei) bi)"
  using assms by (auto simp: changes_of_def list_all_iff split: if_splits)

lemma changes_of_op:
  assumes "changes_of ei bi b" "o' \<in> set b"
  shows "\<not> deletes o'" "\<not> disturbs pools_path o'" "writes pools_path k o' \<Longrightarrow> length k = 2"
    "\<not> writes (get_proposers_path e) k o'" "\<not> writes (get_path e) KEY_POOL_PROCESSING_FEES o'"
  using changes_of_cases[OF assms]
  by (auto simp: epoch_tree_op_def storage_credit_op_def current_epoch_ops_def add_init_current_operations_def push_def
      block_op_defs deletes_def disturbs_def writes_def pools_path_def get_path_def get_proposers_path_def key_constants)

text \<open>The batch of a block whose proposer had proposed \<open>k\<close> blocks, with the totals \<open>p\<close> and \<open>s\<close> of the pools.\<close>

definition block_ops :: "epoch_info \<Rightarrow> block_info \<Rightarrow> batch \<Rightarrow> u64 \<Rightarrow> batch \<Rightarrow> u64 \<Rightarrow> u64 \<Rightarrow> batch" where
  "block_ops ei bi changes k pay p s =
     changes @ update_proposer_block_count_operation (epoch_at (current_epoch_index ei)) (proposer_pro_tx_hash bi) (k + 1) # pay @
       [update_processing_credits_for_distribution_operation (epoch_at (current_epoch_index ei)) p,
        update_storage_fee_distribution_pool_operation s]"

definition block_batch :: "epoch_info \<Rightarrow> block_info \<Rightarrow> u16 \<Rightarrow> batch \<Rightarrow> u16 \<Rightarrow> batch \<Rightarrow> bool" where
  "block_batch ei bi i changes n pay \<longleftrightarrow>
     storable (current_epoch_index ei) \<and> i \<le> current_epoch_index ei \<and> changes_of ei bi changes \<and>
     payouts_of i (current_epoch_index ei) n pay"

lemma block_batch_pay:
  assumes "block_batch ei bi i changes n pay" "o' \<in> set pay"
  shows "prefix (get_path (epoch_at (current_epoch_index ei))) q \<Longrightarrow> \<not> writes q x o' \<and> \<not> (deletes o' \<and> disturbs q o')"
    and "\<not> disturbs pools_path o'" "writes pools_path x o' \<Longrightarrow> o' = update_unpaid_epoch_index_operation n"
proof -
  have "payout_op i n o'" "storable i" "storable (current_epoch_index ei)" "i < n" "n \<le> current_epoch_index ei"
    using assms by (auto simp: block_batch_def payouts_of_def list_all_iff)
  moreover from this(4,5) have "i \<noteq> current_epoch_index ei" by auto
  ultimately show "prefix (get_path (epoch_at (current_epoch_index ei))) q \<Longrightarrow> \<not> writes q x o' \<and> \<not> (deletes o' \<and> disturbs q o')"
      and "\<not> disturbs pools_path o'" "writes pools_path x o' \<Longrightarrow> o' = update_unpaid_epoch_index_operation n"
    using payout_op_elsewhere payout_op_pools by blast+
qed

lemma last_write_Cons:
  "last_write (o' # ops) p k = (case last_write ops p k of None \<Rightarrow> if writes p k o' then Some (op_op o') else None | r \<Rightarrow> r)"
  using last_write_append[of "[o']" ops p k] by (simp split: option.splits)

lemma last_write_block_pay:
  assumes "block_batch ei bi i changes n pay" "prefix (get_path (epoch_at (current_epoch_index ei))) q"
  shows "last_write pay q x = None"
  using block_batch_pay(1)[OF assms(1) _ assms(2)] by (simp add: last_write_None)

lemma block_batch_read:
  assumes "grove_contract (grove d)" "batching_enabled (config d)" and b: "block_batch ei bi i changes n pay"
    and "grove_apply_batch d db (block_ops ei bi changes k pay p s) False = Inr db'"
    and "last_write (block_ops ei bi changes k pay p s) q x = Some (Insert (Item v None))"
    and "prefix (get_path (epoch_at (current_epoch_index ei))) q \<or> q = pools_path"
  shows "gdb_get (grove d) db' q x = Inr (Item v None)"
proof (rule applied_batch_read[OF assms(1,2,4,5)])
  fix o' assume o': "o' \<in> set (block_ops ei bi changes k pay p s)" "deletes o'"
  then have "o' \<in> set pay"
    using b changes_of_op(1)[of ei bi changes] by (auto simp: block_ops_def block_batch_def block_op_defs deletes_def)
  with block_batch_pay(1,2)[OF b] o'(2) assms(6) show "\<not> disturbs q o'" by blast
qed

lemma prefix_own [simp]: "prefix (get_path e) (get_path e)" "prefix (get_path e) (get_proposers_path e)"
  by (simp_all add: get_path_def get_proposers_path_def)

lemma block_writes:
  assumes b: "block_batch ei bi i changes n pay"
  shows "last_write (block_ops ei bi changes k pay p s) (get_path (epoch_at (current_epoch_index ei))) KEY_POOL_PROCESSING_FEES =
      Some (Insert (u64_item p))"
    and "last_write (block_ops ei bi changes k pay p s) pools_path KEY_STORAGE_FEE_POOL = Some (Insert (u64_item s))"
    and "last_write (block_ops ei bi changes k pay p s) (get_proposers_path (epoch_at (current_epoch_index ei))) (proposer_pro_tx_hash bi) =
      Some (Insert (u64_item (k + 1)))"
proof -
  show "last_write (block_ops ei bi changes k pay p s) (get_path (epoch_at (current_epoch_index ei))) KEY_POOL_PROCESSING_FEES =
      Some (Insert (u64_item p))"
    by (simp add: block_ops_def last_write_append last_write_Cons block_op_defs writes_def get_path_def pools_path_def)
  show "last_write (block_ops ei bi changes k pay p s) pools_path KEY_STORAGE_FEE_POOL = Some (Insert (u64_item s))"
    by (simp add: block_ops_def last_write_append last_write_Cons block_op_defs writes_def)
  have "last_write pay (get_proposers_path (epoch_at (current_epoch_index ei))) (proposer_pro_tx_hash bi) = None"
    by (rule last_write_block_pay[OF b]) simp
  then show "last_write (block_ops ei bi changes k pay p s) (get_proposers_path (epoch_at (current_epoch_index ei))) (proposer_pro_tx_hash bi) =
      Some (Insert (u64_item (k + 1)))"
    by (simp add: block_ops_def last_write_append last_write_Cons block_op_defs writes_def get_path_def pools_path_def
        get_proposers_path_def)
qed

lemma block_writes_start:
  assumes b: "block_batch ei bi i changes n pay" and "is_epoch_change ei"
  shows "last_write (block_ops ei bi changes k pay p s) (get_path (epoch_at (current_epoch_index ei))) KEY_START_BLOCK_HEIGHT =
      Some (Insert (u64_item (block_height bi)))"
    and "last_write (block_ops ei bi changes k pay p s) (get_path (epoch_at (current_epoch_index ei))) KEY_START_TIME =
      Some (Insert (u64_item (block_time_ms bi)))"
proof -
  obtain xs ys where ch: "changes = xs @ current_epoch_ops (current_epoch_index ei) bi @ ys" "list_all storage_credit_op ys"
    using assms by (auto simp: block_batch_def changes_of_def)
  have ys: "last_write ys q KEY_START_BLOCK_HEIGHT = None" "last_write ys q KEY_START_TIME = None" for q
    using ch(2) by (auto simp: key_constants last_write_None list_all_iff storage_credit_op_def writes_def block_op_defs)
  have pay: "last_write pay (get_path (epoch_at (current_epoch_index ei))) x = None" for x
    by (rule last_write_block_pay[OF b]) simp
  show "last_write (block_ops ei bi changes k pay p s) (get_path (epoch_at (current_epoch_index ei))) KEY_START_BLOCK_HEIGHT =
      Some (Insert (u64_item (block_height bi)))"
    "last_write (block_ops ei bi changes k pay p s) (get_path (epoch_at (current_epoch_index ei))) KEY_START_TIME =
      Some (Insert (u64_item (block_time_ms bi)))"
    using pay[of KEY_START_BLOCK_HEIGHT] pay[of KEY_START_TIME] ys[of "get_path (epoch_at (current_epoch_index ei))"]
    by (simp_all add: block_ops_def ch(1) last_write_append last_write_Cons block_op_defs writes_def get_path_def
        pools_path_def get_proposers_path_def current_epoch_ops_def add_init_current_operations_def push_def key_constants)
qed

lemma block_pools_frame:
  assumes "grove_contract (grove d)" "batching_enabled (config d)" and b: "block_batch ei bi i changes n pay"
    and ap: "grove_apply_batch d db (block_ops ei bi changes k pay p s) False = Inr db'"
    and x: "x \<noteq> KEY_STORAGE_FEE_POOL" "length x \<noteq> 2" "\<not> (\<exists>o' \<in> set pay. writes pools_path x o')"
  shows "gdb_get (grove d) db' pools_path x = gdb_get (grove d) db pools_path x"
proof (rule applied_batch_frame[OF assms(1,2) ap])
  show "outside_documents pools_path" by simp
  fix o' assume "o' \<in> set (block_ops ei bi changes k pay p s)"
  then consider "o' \<in> set changes" | "o' \<in> set pay" | "o' \<in> set (block_ops ei bi [] k [] p s)" by (auto simp: block_ops_def)
  then show "\<not> writes pools_path x o' \<and> \<not> disturbs pools_path o'"
  proof cases
    case 1
    with b x(2) changes_of_op(2)[of ei bi changes o'] changes_of_op(3)[of ei bi changes o' x]
    show ?thesis by (auto simp: block_batch_def)
  next
    case 2
    with x(3) block_batch_pay(2)[OF b] show ?thesis by blast
  next
    case 3
    with x(1) show ?thesis
      by (auto simp: block_ops_def block_op_defs writes_def disturbs_def get_path_def get_proposers_path_def pools_path_def)
  qed
qed

lemma block_unpaid_index:
  assumes "grove_contract (grove d)" "batching_enabled (config d)" and b: "block_batch ei bi i changes n pay"
    and ap: "grove_apply_batch d db (block_ops ei bi changes k pay p s) False = Inr db'"
    and "get_unpaid_epoch_index (grove d) db = Inr i"
  shows "\<exists>j. get_unpaid_epoch_index (grove d) db' = Inr j \<and> i \<le> j \<and> j \<le> current_epoch_index ei"
proof (cases "\<exists>o' \<in> set pay. writes pools_path KEY_UNPAID_EPOCH_INDEX o'")
  case True
  then have "last_write pay pools_path KEY_UNPAID_EPOCH_INDEX = Some (Insert (Item (u16_to_be n) None))"
    by (rule last_write_unique)
      (auto dest!: block_batch_pay(3)[OF b] simp: update_unpaid_epoch_index_operation_def insert_run_op_def)
  then have "last_write (block_ops ei bi changes k pay p s) pools_path KEY_UNPAID_EPOCH_INDEX = Some (Insert (Item (u16_to_be n) None))"
    by (simp add: block_ops_def last_write_append last_write_Cons block_op_defs writes_def get_path_def pools_path_def key_constants)
  from block_batch_read[OF assms(1,2) b ap this] have "get_unpaid_epoch_index (grove d) db' = Inr n"
    by (simp add: get_unpaid_epoch_index_def read_item_def)
  moreover have "i \<le> n \<and> n \<le> current_epoch_index ei" using b by (auto simp: block_batch_def payouts_of_def)
  ultimately show ?thesis by blast
next
  case False
  then have "gdb_get (grove d) db' pools_path KEY_UNPAID_EPOCH_INDEX = gdb_get (grove d) db pools_path KEY_UNPAID_EPOCH_INDEX"
    by (intro block_pools_frame[OF assms(1,2) b ap]) (auto simp: key_constants)
  with assms(5) b show ?thesis by (auto simp: get_unpaid_epoch_index_def read_item_def block_batch_def)
qed

text \<open>What later blocks rely on: the oldest unpaid epoch and the genesis time.\<close>

lemma process_block_fees_keeps:
  assumes "grove_contract (grove (drive P))" "batching_enabled (config (drive P))"
    and "process_block_fees P db bi ei fees = Inr (db', r)"
    and "get_unpaid_epoch_index (grove (drive P)) db = Inr i" "i \<le> current_epoch_index ei"
  shows "\<exists>j. get_unpaid_epoch_index (grove (drive P)) db' = Inr j \<and> i \<le> j \<and> j \<le> current_epoch_index ei"
    and "fetch_genesis_time (drive P) db' = fetch_genesis_time (drive P) db"
proof -
  obtain changes k n pay p s where b: "block_batch ei bi i changes n pay"
    and ap: "grove_apply_batch (drive P) db (block_ops ei bi changes k pay p s) False = Inr db'"
    by (rule process_block_fees_batch[OF assms(1,3-5)]) (use assms(5) in \<open>simp add: block_batch_def block_ops_def\<close>)
  show "\<exists>j. get_unpaid_epoch_index (grove (drive P)) db' = Inr j \<and> i \<le> j \<and> j \<le> current_epoch_index ei"
    by (rule block_unpaid_index[OF assms(1,2) b ap assms(4)])
  have "gdb_get (grove (drive P)) db' pools_path KEY_GENESIS_TIME = gdb_get (grove (drive P)) db pools_path KEY_GENESIS_TIME"
    by (rule block_pools_frame[OF assms(1,2) b ap])
      (auto dest!: block_batch_pay(3)[OF b] simp: key_constants KEY_GENESIS_TIME_def writes_def
        update_unpaid_epoch_index_operation_def insert_run_op_def
        dest: block_batch_pay(3)[OF b, of _ KEY_GENESIS_TIME])
  then show "fetch_genesis_time (drive P) db' = fetch_genesis_time (drive P) db" by (simp add: fetch_genesis_time_def)
qed


definition unpaid_store :: store where
  "unpaid_store = [((pools_path, KEY_UNPAID_EPOCH_INDEX), Item [0, 0] None)]"

definition first_block :: block_info where
  "first_block = \<lparr>block_height = 1, block_time_ms = 77, previous_block_time_ms = None, proposer_pro_tx_hash = replicate 32 9\<rparr>"

lemma reference_apply_batch:
  "b \<noteq> [] \<Longrightarrow> grove_apply_batch reference_drive db b False = Inr (foldl store_write db b)"
  by (simp add: grove_apply_batch_def grove_apply_batch_with_add_costs_def push_drive_operation_result_def
      reference_drive_def reference_grove_def drive_config_default_def)


end
