(* ===== verification/Chain.thy ===== *)
theory Chain
  imports Blocks
begin

text \<open>
  The application driven by consensus: chains of ABCI calls as a transition system. Initialization,
  then per block its begin, the execution of its state transitions (which may change everything but the
  fee pools), its end and its finalization; between blocks a node may restart with an empty cache. In
  every reachable state fee processing finds what it relies on.
\<close>

datatype phase = Uninitialized | Finalized | Begun | Ended

record ('db, 'c) chain =
  chain_app :: "('db, 'c) application"
  chain_phase :: phase
  last_height :: nat
  last_time :: u64

text \<open>Execution of state transitions leaves the pools alone.\<close>

definition pools_kept :: "'db grovedb \<Rightarrow> 'db \<Rightarrow> 'db \<Rightarrow> bool" where
  "pools_kept G db db' \<longleftrightarrow> (\<forall>p k. prefix pools_path p \<longrightarrow> gdb_get G db' p k = gdb_get G db p k)"

definition request_follows :: "('db, 'c) chain \<Rightarrow> block_begin_request \<Rightarrow> bool" where
  "request_follows s request \<longleftrightarrow>
     unat (req_block_height request) = Suc (last_height s) \<and>
     (if last_height s = 0 then req_previous_block_time_ms request = None
      else req_previous_block_time_ms request = Some (last_time s) \<and> last_time s \<le> req_block_time_ms request)"

inductive chain_step :: "('db, 'd, 'k) platform \<Rightarrow> ('c, 'v) cache_ops \<Rightarrow> ('db, 'c) chain \<Rightarrow> ('db, 'c) chain \<Rightarrow> bool"
  for P :: "('db, 'd, 'k) platform" and C :: "('c, 'v) cache_ops" where
  initialize: "chain_phase s = Uninitialized \<Longrightarrow> init_chain P (chain_app s) = (a, Inr ()) \<Longrightarrow>
    chain_step P C s (s\<lparr>chain_app := a, chain_phase := Finalized\<rparr>)"
| begin_block: "chain_phase s = Finalized \<Longrightarrow> request_follows s request \<Longrightarrow> block_begin P (chain_app s) request = (a, Inr resp) \<Longrightarrow>
    chain_step P C s \<lparr>chain_app = a, chain_phase = Begun, last_height = Suc (last_height s), last_time = req_block_time_ms request\<rparr>"
| execute: "chain_phase s = Begun \<Longrightarrow> pools_kept (grove (drive P)) (app_db (chain_app s)) db \<Longrightarrow>
    chain_step P C s (s\<lparr>chain_app := (chain_app s)\<lparr>app_db := db\<rparr>\<rparr>)"
| end_block: "chain_phase s = Begun \<Longrightarrow> block_end P (chain_app s) fees = (a, Inr resp) \<Longrightarrow>
    chain_step P C s (s\<lparr>chain_app := a, chain_phase := Ended\<rparr>)"
| finalize: "chain_phase s = Ended \<Longrightarrow> after_finalize_block (chain_app s) = (a, Inr ()) \<Longrightarrow>
    chain_step P C s (s\<lparr>chain_app := a, chain_phase := Finalized\<rparr>)"
| restart: "chain_phase s = Finalized \<Longrightarrow> default_genesis_time cfg = None \<Longrightarrow>
    chain_step P C s (s\<lparr>chain_app := platform_open (app_db (chain_app s)) C cfg\<rparr>)"

definition initial_chain :: "'db \<Rightarrow> ('c, 'v) cache_ops \<Rightarrow> drive_config \<Rightarrow> ('db, 'c) chain" where
  "initial_chain db C cfg =
     \<lparr>chain_app = platform_open db C cfg, chain_phase = Uninitialized, last_height = 0, last_time = 0\<rparr>"

inductive reachable_chain :: "('db, 'd, 'k) platform \<Rightarrow> ('c, 'v) cache_ops \<Rightarrow> ('db, 'c) chain \<Rightarrow> bool"
  for P :: "('db, 'd, 'k) platform" and C :: "('c, 'v) cache_ops" where
  start: "reachable_chain P C (initial_chain db C cfg)"
| continue: "reachable_chain P C s \<Longrightarrow> chain_step P C s s' \<Longrightarrow> reachable_chain P C s'"

section \<open>The invariant\<close>

definition genesis_known :: "('db, 'd, 'k) platform \<Rightarrow> ('db, 'c) application \<Rightarrow> u64 \<Rightarrow> bool" where
  "genesis_known P a t \<longleftrightarrow> fetch_genesis_time (drive P) (app_db a) = Inr (Some t) \<and> genesis_time_ms a \<in> {None, Some t}"

definition in_epoch :: "('db, 'c) application \<Rightarrow> int \<Rightarrow> bool" where
  "in_epoch a c \<longleftrightarrow> (\<exists>ctx. block_execution_context a = Some ctx \<and> uint (current_epoch_index (ctx_epoch_info ctx)) = c)"

definition chain_ok :: "('db, 'd, 'k) platform \<Rightarrow> ('db, 'c) chain \<Rightarrow> bool" where
  "chain_ok P s \<longleftrightarrow> chain_phase s = Uninitialized \<and> last_height s = 0 \<or> chain_phase s \<noteq> Uninitialized \<and>
     (\<exists>i. get_unpaid_epoch_index (grove (drive P)) (app_db (chain_app s)) = Inr i \<and>
       (if last_height s = 0 then chain_phase s = Finalized \<and> i = 0
        else \<exists>t. genesis_known P (chain_app s) t \<and> uint i \<le> epoch_of t (last_time s) \<and>
          (chain_phase s \<noteq> Finalized \<longrightarrow> in_epoch (chain_app s) (epoch_of t (last_time s)))))"

lemma get_genesis_time_known:
  assumes "genesis_known P a t" "get_genesis_time (drive P) (app_db a) (genesis_time_ms a) = Inr (r, cache)"
  shows "r = Some t \<and> cache = Some t"
  using assms by (auto simp: genesis_known_def get_genesis_time_def)

lemma epoch_of_mono: "s \<le> t \<Longrightarrow> epoch_of g s \<le> epoch_of g t"
  unfolding epoch_of_def by (intro zdiv_mono1) (simp_all add: word_le_def)

lemma epoch_info_current:
  assumes "decimal_arith D val" "from_genesis_time_and_block_info D g b = Inr ei" "previous_block_time_ms b = Some t"
  shows "uint (current_epoch_index ei) = epoch_of g (block_time_ms b)"
  using assms(2,3) unfolding from_genesis_time_and_block_info_def decimal_arith.calculate_spec[OF assms(1)]
  by (auto simp: epoch_info_spec_def Let_def uint_word_of_int take_bit_int_eq_self split: if_splits)

lemma epoch_info_first:
  "from_genesis_time_and_block_info D g b = Inr ei \<Longrightarrow> previous_block_time_ms b = None \<Longrightarrow> current_epoch_index ei = 0"
  by (auto simp: from_genesis_time_and_block_info_def calculate_def epoch_info_default_def)

text \<open>Preparing withdrawals leaves the pools alone.\<close>

lemma withdrawals_keep_pools:
  assumes "grove_contract (grove (drive P))" "batching_enabled (config (drive P))"
    and "fetch_and_prepare_unsigned_withdrawal_transactions P db h q = (db', r)"
  shows "pools_kept (grove (drive P)) db db'"
  unfolding pools_kept_def
proof (intro allI impI)
  fix p k assume "prefix pools_path p"
  then have np: "\<not> prefix withdrawals_path p" by (auto simp: pools_path_def withdrawals_path_def root_key_def prefix_def)
  show "gdb_get (grove (drive P)) db' p k = gdb_get (grove (drive P)) db p k"
    using assms(3) dequeue_frame[OF assms(1,2) _ np] \<open>prefix pools_path p\<close> outside_below_pools
    by (auto simp: fetch_and_prepare_unsigned_withdrawal_transactions_def from_drive_eq_Inr split: sum.splits)
qed

lemma pools_kept_reads:
  assumes "pools_kept (grove d) db db'"
  shows "get_unpaid_epoch_index (grove d) db' = get_unpaid_epoch_index (grove d) db"
    "fetch_genesis_time d db' = fetch_genesis_time d db"
  using assms by (simp_all add: pools_kept_def get_unpaid_epoch_index_def read_item_def fetch_genesis_time_def)

lemma block_begin_parts:
  assumes "block_begin P a request = (a', Inr resp)"
  obtains a1 g ei db r where "block_begin_genesis P a request = (a1, Inr g)"
    "from_genesis_time_and_block_info (decimal P) g (from_block_begin_request request) = Inr ei"
    "fetch_and_prepare_unsigned_withdrawal_transactions P (app_db a1) (ucast (req_block_height request))
       (req_validator_set_quorum_hash request) = (db, r)"
    "a' = a1\<lparr>block_execution_context := Some \<lparr>ctx_block_info = from_block_begin_request request, ctx_epoch_info = ei\<rparr>, app_db := db\<rparr>"
  using assms by (auto simp: block_begin_def Let_def split: prod.splits sum.splits)

text \<open>The genesis time and the oldest unpaid epoch after the first part of a block's begin.\<close>

lemma first_block_genesis:
  assumes "grove_contract (grove (drive P))" "batching_enabled (config (drive P))"
    and "block_begin_genesis P a request = (a1, Inr g)" "req_block_height request = 1"
  shows "g = req_block_time_ms request \<and> genesis_known P a1 g \<and>
    get_unpaid_epoch_index (grove (drive P)) (app_db a1) = get_unpaid_epoch_index (grove (drive P)) (app_db a)"
proof -
  obtain cache db where i: "init_genesis_time (drive P) (app_db a) (req_block_time_ms request) = (cache, Inr db)"
    and a1: "a1 = a\<lparr>genesis_time_ms := cache, app_db := db\<rparr>" "g = req_block_time_ms request"
    using assms(3,4) by (auto simp: block_begin_genesis_def from_drive_def split: prod.splits sum.splits)
  show ?thesis using genesis_time_written[OF assms(1,2) i] genesis_time_frame[OF assms(1,2) i, of KEY_UNPAID_EPOCH_INDEX]
    by (simp add: a1 genesis_known_def get_unpaid_epoch_index_def read_item_def key_constants KEY_GENESIS_TIME_def)
qed

lemma later_block_genesis:
  assumes "block_begin_genesis P a request = (a1, Inr g)" "req_block_height request \<noteq> 1" "genesis_known P a t"
  shows "g = t \<and> genesis_known P a1 t \<and> app_db a1 = app_db a"
proof -
  obtain time cache where i: "get_genesis_time (drive P) (app_db a) (genesis_time_ms a) = Inr (time, cache)"
    and a1: "a1 = a\<lparr>genesis_time_ms := cache\<rparr>" "time = Some g"
    using assms(1,2) by (auto simp: block_begin_genesis_def from_drive_eq_Inr ok_or_eq_Inr split: prod.splits sum.splits)
  show ?thesis using get_genesis_time_known[OF assms(3) i] assms(3) by (auto simp: a1 genesis_known_def)
qed

lemma chain_begin_ok:
  assumes D: "decimal_arith (decimal P) val" and G: "grove_contract (grove (drive P))" "batching_enabled (config (drive P))"
    and ok: "chain_ok P s" "chain_phase s = Finalized" and rq: "request_follows s request"
    and bb: "block_begin P (chain_app s) request = (a', Inr resp)"
  shows "chain_ok P \<lparr>chain_app = a', chain_phase = Begun, last_height = Suc (last_height s), last_time = req_block_time_ms request\<rparr>"
proof -
  let ?b = "from_block_begin_request request"
  from bb obtain a1 g ei db r where a1: "block_begin_genesis P (chain_app s) request = (a1, Inr g)"
    and ei: "from_genesis_time_and_block_info (decimal P) g ?b = Inr ei"
    and w: "fetch_and_prepare_unsigned_withdrawal_transactions P (app_db a1) (ucast (req_block_height request))
       (req_validator_set_quorum_hash request) = (db, r)"
    and a': "a' = a1\<lparr>block_execution_context := Some \<lparr>ctx_block_info = ?b, ctx_epoch_info = ei\<rparr>, app_db := db\<rparr>"
    by (rule block_begin_parts)
  note kept = pools_kept_reads[OF withdrawals_keep_pools[OF G w]]
  from ok obtain i where i: "get_unpaid_epoch_index (grove (drive P)) (app_db (chain_app s)) = Inr i"
    and rest: "last_height s = 0 \<and> i = 0 \<or>
        last_height s \<noteq> 0 \<and> (\<exists>t. genesis_known P (chain_app s) t \<and> uint i \<le> epoch_of t (last_time s))"
    by (cases "last_height s = 0") (auto simp: chain_ok_def)
  have "genesis_known P a1 g \<and> get_unpaid_epoch_index (grove (drive P)) (app_db a1) = Inr i \<and>
      uint i \<le> epoch_of g (req_block_time_ms request) \<and> uint (current_epoch_index ei) = epoch_of g (req_block_time_ms request)"
  proof (cases "last_height s = 0")
    case True
    then have h: "req_block_height request = 1" "previous_block_time_ms ?b = None"
      using rq by (auto simp: request_follows_def from_block_begin_request_def word_unat_eq_iff)
    then show ?thesis
      using first_block_genesis[OF G a1 h(1)] epoch_info_first[OF ei h(2)] i rest True by (auto simp: epoch_of_def)
  next
    case False
    then have h: "req_block_height request \<noteq> 1" "previous_block_time_ms ?b = Some (last_time s)" "last_time s \<le> req_block_time_ms request"
      using rq by (auto simp: request_follows_def from_block_begin_request_def)
    from False rest obtain t where t: "genesis_known P (chain_app s) t" "uint i \<le> epoch_of t (last_time s)" by auto
    show ?thesis
      using later_block_genesis[OF a1 h(1) t(1)] epoch_info_current[OF D ei h(2)] i t(2) epoch_of_mono[OF h(3), of t]
      by (auto simp: from_block_begin_request_def)
  qed
  then show ?thesis using kept by (auto simp: chain_ok_def genesis_known_def in_epoch_def a')
qed

lemma chain_end_ok:
  assumes G: "grove_contract (grove (drive P))" "batching_enabled (config (drive P))"
    and ok: "chain_ok P s" "chain_phase s = Begun" and be: "block_end P (chain_app s) fees = (a', Inr resp)"
  shows "chain_ok P (s\<lparr>chain_app := a', chain_phase := Ended\<rparr>)"
proof -
  from ok obtain i t ctx where i: "get_unpaid_epoch_index (grove (drive P)) (app_db (chain_app s)) = Inr i"
    and t: "genesis_known P (chain_app s) t" "uint i \<le> epoch_of t (last_time s)" "last_height s \<noteq> 0"
    and ctx: "block_execution_context (chain_app s) = Some ctx" "uint (current_epoch_index (ctx_epoch_info ctx)) = epoch_of t (last_time s)"
    by (auto simp: chain_ok_def in_epoch_def split: if_splits)
  obtain db r where pf: "process_block_fees P (app_db (chain_app s)) (ctx_block_info ctx) (ctx_epoch_info ctx) fees = Inr (db, r)"
    and a': "a' = (chain_app s)\<lparr>app_db := db\<rparr>"
    using be ctx(1) by (auto simp: block_end_def split: sum.splits)
  have "i \<le> current_epoch_index (ctx_epoch_info ctx)" using t(2) ctx(2) by (simp add: word_le_def)
  note keeps = process_block_fees_keeps[OF G pf i this]
  from keeps(1) obtain j where "get_unpaid_epoch_index (grove (drive P)) db = Inr j" "uint j \<le> epoch_of t (last_time s)"
    using ctx(2) by (auto simp: word_le_def)
  then show ?thesis using t ctx keeps(2) by (auto simp: chain_ok_def genesis_known_def in_epoch_def a')
qed

lemma chain_step_ok:
  assumes "decimal_arith (decimal P) val" "grove_contract (grove (drive P))" "batching_enabled (config (drive P))"
    and "chain_step P C s s'" "chain_ok P s"
  shows "chain_ok P s'"
  using assms(4)
proof (cases rule: chain_step.cases)
  case (initialize a)
  then obtain db where "create_initial_state_structure (drive P) (app_db (chain_app s)) = Inr db" "a = (chain_app s)\<lparr>app_db := db\<rparr>"
    by (auto simp: init_chain_def from_drive_eq_Inr split: sum.splits)
  moreover have "last_height s = 0" using assms(5) initialize(2) by (auto simp: chain_ok_def in_epoch_def split: if_splits)
  ultimately show ?thesis using initial_unpaid_index[OF assms(2,3)] initialize(1) by (simp add: chain_ok_def)
next
  case (begin_block request a resp)
  then show ?thesis using chain_begin_ok[OF assms(1-3,5)] by simp
next
  case (execute db)
  then show ?thesis using assms(5) pools_kept_reads[OF execute(3)]
    by (auto simp: chain_ok_def genesis_known_def in_epoch_def split: if_splits)
next
  case (end_block fees a resp)
  then show ?thesis using chain_end_ok[OF assms(2,3,5)] by simp
next
  case (finalize a)
  then show ?thesis using assms(5)
    by (auto simp: chain_ok_def genesis_known_def after_finalize_block_def split: if_splits)
next
  case (restart cfg)
  then show ?thesis using assms(5)
    by (auto simp: chain_ok_def genesis_known_def platform_open_def split: if_splits)
qed

lemma reachable_chain_ok:
  assumes "decimal_arith (decimal P) val" "grove_contract (grove (drive P))" "batching_enabled (config (drive P))"
    and "reachable_chain P C s"
  shows "chain_ok P s"
  using assms(4)
proof (induction rule: reachable_chain.induct)
  case (start db cfg)
  then show ?case by (simp add: chain_ok_def initial_chain_def)
next
  case (continue s s')
  then show ?case using chain_step_ok[OF assms(1-3)] by blast
qed

text \<open>C2: in every state a chain of ABCI calls can reach, restarts of the node included, a block that has
  begun has its execution context, its epoch is the one of its time since the genesis time that is
  stored, and the oldest unpaid epoch is stored and not past it: what fee processing relies on.\<close>

theorem chain_blocks_well_prepared:
  assumes "decimal_arith (decimal P) val" "grove_contract (grove (drive P))" "batching_enabled (config (drive P))"
    and "reachable_chain P C s" "chain_phase s = Begun"
  shows "\<exists>ctx t i. block_execution_context (chain_app s) = Some ctx \<and>
    fetch_genesis_time (drive P) (app_db (chain_app s)) = Inr (Some t) \<and>
    uint (current_epoch_index (ctx_epoch_info ctx)) = epoch_of t (last_time s) \<and>
    get_unpaid_epoch_index (grove (drive P)) (app_db (chain_app s)) = Inr i \<and> i \<le> current_epoch_index (ctx_epoch_info ctx)"
  using reachable_chain_ok[OF assms(1-4)] assms(5)
  by (fastforce simp: chain_ok_def in_epoch_def genesis_known_def word_le_def split: if_splits)

text \<open>A chain that has begun its first block.\<close>

definition first_request :: block_begin_request where
  "first_request = \<lparr>req_block_height = 1, req_block_time_ms = 77, req_previous_block_time_ms = None,
     req_proposer_pro_tx_hash = replicate 32 9, req_validator_set_quorum_hash = replicate 32 5\<rparr>"

lemma store_without_withdrawals:
  assumes "\<And>k. map_of st (withdrawals_path, k) = None"
  shows "fetch_and_prepare_unsigned_withdrawal_transactions payout_platform st h q = (st, Inr [])"
proof -
  have "r \<notin> set (store_query st (withdrawals_query WITHDRAWAL_TRANSACTIONS_QUERY_LIMIT))" for r
    using assms store_query_plain_subset[of "withdrawals_query WITHDRAWAL_TRANSACTIONS_QUERY_LIMIT" r st]
    by (cases r) (auto simp: store_rows_iff)
  then have "store_query st (withdrawals_query WITHDRAWAL_TRANSACTIONS_QUERY_LIMIT) = []"
    by (metis list.set_intros(1) neq_Nil_conv)
  then show ?thesis
    by (simp add: fetch_and_prepare_unsigned_withdrawal_transactions_def dequeue_withdrawal_transactions_def reference_grove_def)
qed

lemma map_of_inserts_elsewhere:
  "(\<And>o'. o' \<in> set ops \<Longrightarrow> \<not> writes p k o') \<Longrightarrow> (\<And>o'. o' \<in> set ops \<Longrightarrow> \<not> deletes o') \<Longrightarrow>
   map_of (foldl store_write st ops) (p, k) = map_of st (p, k)"
  by (induction ops arbitrary: st) (simp_all add: map_of_store_write_other)

lemma chain_can_begin:
  "\<exists>s. reachable_chain payout_platform (unbounded_cache_ops :: ((id32 \<times> unit) list, unit) cache_ops) s \<and> chain_phase s = Begun \<and> last_time s = 77"
proof -
  let ?P = payout_platform and ?C = "unbounded_cache_ops :: ((id32 \<times> unit) list, unit) cache_ops"
  let ?s = "initial_chain [] ?C drive_config_default"
  define ops where "ops = structure_ops @ concat (map empty_epoch_ops initial_epochs)"
  define db where "db = foldl store_write [] ops"
  have ne: "ops \<noteq> []" by (simp add: ops_def structure_ops_def)
  have init: "init_chain ?P (chain_app ?s) = ((chain_app ?s)\<lparr>app_db := db\<rparr>, Inr ())"
    using reference_apply_batch[OF ne]
    by (simp add: init_chain_def create_initial_state_structure_def initial_state_batch_eq initial_chain_def platform_open_def
        db_def flip: ops_def)
  let ?s1 = "?s\<lparr>chain_app := (chain_app ?s)\<lparr>app_db := db\<rparr>, chain_phase := Finalized\<rparr>"
  have r1: "reachable_chain ?P ?C ?s1"
    by (rule reachable_chain.continue[OF reachable_chain.start chain_step.initialize[OF _ init]]) (simp add: initial_chain_def)
  have none: "map_of db (withdrawals_path, k) = None" for k
    unfolding db_def
  proof (subst map_of_inserts_elsewhere[of ops])
    fix o' assume o': "o' \<in> set ops"
    from initial_batch_cases[OF o'[unfolded ops_def]] show "\<not> writes withdrawals_path k o'"
      by (auto simp: structure_ops_def empty_epoch_ops_def op_defs writes_def withdrawals_path_def withdrawals_root_def
          pools_path_def get_path_def root_key_def)
    show "\<not> deletes o'" using initial_batch_inserts o' by (simp add: ops_def)
  qed simp
  define db1 where "db1 = store_write db (update_genesis_time_operation 77)"
  have init1: "init_genesis_time reference_drive db 77 = (Some 77, Inr db1)"
    using reference_apply_batch[of "[update_genesis_time_operation 77]" db]
    by (simp add: init_genesis_time_def grove_apply_operation_def grove_apply_batch_def db1_def)
  have "map_of db1 (withdrawals_path, k) = None" for k
    using none by (simp add: db1_def store_write_def update_genesis_time_operation_def insert_run_op_def pools_path_def
        withdrawals_path_def root_key_def)
  note w = store_without_withdrawals[OF this]
  obtain a resp where bb: "block_begin ?P (chain_app ?s1) first_request = (a, Inr resp)"
    using init1 by (simp add: block_begin_def block_begin_genesis_def first_request_def from_block_begin_request_def w
        from_genesis_time_and_block_info_def calculate_def Let_def)
  have "chain_step ?P ?C ?s1 \<lparr>chain_app = a, chain_phase = Begun, last_height = Suc (last_height ?s1),
      last_time = req_block_time_ms first_request\<rparr>"
    by (rule chain_step.begin_block[OF _ _ bb]) (simp_all add: request_follows_def initial_chain_def first_request_def)
  from reachable_chain.continue[OF r1 this] show ?thesis by (fastforce simp: first_request_def)
qed

theorem chain_blocks_well_prepared_witness:
  "\<exists>s ctx t i. reachable_chain payout_platform (unbounded_cache_ops :: ((id32 \<times> unit) list, unit) cache_ops) s \<and>
    block_execution_context (chain_app s) = Some ctx \<and>
    uint (current_epoch_index (ctx_epoch_info ctx)) = epoch_of t 77 \<and>
    get_unpaid_epoch_index reference_grove (app_db (chain_app s)) = Inr i \<and> i \<le> current_epoch_index (ctx_epoch_info ctx)"
proof -
  obtain s where s: "reachable_chain payout_platform (unbounded_cache_ops :: ((id32 \<times> unit) list, unit) cache_ops) s"
      "chain_phase s = Begun" "last_time s = 77"
    using chain_can_begin by blast
  from chain_blocks_well_prepared[OF _ _ _ s(1,2), of id] s ref_dec.decimal_arith_axioms ref_grove.grove_contract_axioms
  show ?thesis by auto
qed

end
