(* ===== verification/Documents.thy ===== *)
theory Documents
  imports DocTypes GroveOps
begin

text \<open>
  Documents: \<open>drive/src/contract/document.rs\<close>. A document is written field by field in the order of its
  type's properties and read back the same way; a raw value is looked up through a dotted path and
  encoded as a key. CBOR decoding of a whole document (\<open>ciborium\<close>) and base58 are arguments.
\<close>

record document =
  doc_id :: id32
  doc_properties :: "(string, cbor) btree"
  doc_owner_id :: id32

section \<open>Serialization\<close>

definition missing_field :: error where
  "missing_field = ContractErr (ContractMissingRequiredKey ''a required field is not present'')"

definition serialize_field :: "field_codecs \<Rightarrow> (string, cbor) btree \<Rightarrow> bytes \<Rightarrow> string \<times> document_field \<Rightarrow> error + bytes" where
  "serialize_field C props buffer e =
     (case bt_get (fst e) props of
        Some value \<Rightarrow>
          rmap (\<lambda>bs. buffer @ bs) (map_err ContractErr
            (encode_value_ref_with_size C (field_document_type (snd e)) value (field_required (snd e))))
      | None \<Rightarrow> if field_required (snd e) then Inl missing_field else Inr (buffer @ [0]))"

definition document_serialize :: "field_codecs \<Rightarrow> document \<Rightarrow> document_type \<Rightarrow> error + bytes" where
  "document_serialize C d dt = foldM (serialize_field C (doc_properties d)) (doc_id d @ doc_owner_id d) (properties dt)"

definition serialize_consume_field ::
    "field_codecs \<Rightarrow> (string, cbor) btree \<times> bytes \<Rightarrow> string \<times> document_field \<Rightarrow> error + ((string, cbor) btree \<times> bytes)" where
  "serialize_consume_field C st e =
     (case st of (props, buffer) \<Rightarrow>
        (case bt_get (fst e) props of
           Some value \<Rightarrow>
             rmap (\<lambda>bs. (bt_remove (fst e) props, buffer @ bs)) (map_err ContractErr
               (encode_value_with_size C (field_document_type (snd e)) value (field_required (snd e))))
         | None \<Rightarrow> if field_required (snd e) then Inl missing_field else Inr (props, buffer @ [0])))"

definition document_serialize_consume :: "field_codecs \<Rightarrow> document \<Rightarrow> document_type \<Rightarrow> error + bytes" where
  "document_serialize_consume C d dt =
     rmap snd (foldM (serialize_consume_field C) (doc_properties d, doc_id d @ doc_owner_id d) (properties dt))"

text \<open>The fields are read in order; collecting stops at the first error.\<close>

fun read_document_fields ::
    "field_codecs \<Rightarrow> (string, document_field) btree \<Rightarrow> bytes \<Rightarrow> contract_error + (string \<times> cbor) list" where
  "read_document_fields C [] buf = Inr []"
| "read_document_fields C ((k, field) # fs) buf =
     rbind (read_from C (field_document_type field) (field_required field) buf) (\<lambda>(value, buf).
     rbind (read_document_fields C fs buf) (\<lambda>rest.
       Inr (case value of Some v \<Rightarrow> (k, v) # rest | None \<Rightarrow> rest)))"

definition document_from_bytes :: "field_codecs \<Rightarrow> bytes \<Rightarrow> document_type \<Rightarrow> error + document" where
  "document_from_bytes C serialized dt =
     (if length serialized < 64
      then Inl (DriveErr (DriveCorruptedSerialization ''serialized document is too small, must have id and owner id''))
      else
        rbind (map_err ContractErr (read_document_fields C (properties dt) (drop 64 serialized))) (\<lambda>entries.
          Inr \<lparr>doc_id = take 32 serialized,
               doc_properties = foldl (\<lambda>acc e. bt_insert (fst e) (snd e) acc) [] entries,
               doc_owner_id = take 32 (drop 32 serialized)\<rparr>))"

section \<open>CBOR documents\<close>

definition check_protocol_version_bytes :: "bytes \<Rightarrow> bool" where
  "check_protocol_version_bytes version_bytes \<longleftrightarrow> length version_bytes = 4"

text \<open>The four bytes of the version, then the map; fewer than four bytes panic.\<close>

definition decode_versioned :: "(bytes \<Rightarrow> (string, cbor) btree option) \<Rightarrow> bytes \<Rightarrow> error + (string, cbor) btree" where
  "decode_versioned cbor_decode document_cbor =
     (if length document_cbor < 4 then Inl (Panic ''mid > len'')
      else if \<not> check_protocol_version_bytes (take 4 document_cbor)
      then Inl (StructureErr (InvalidProtocolVersion ''invalid protocol version''))
      else ok_or (StructureErr (InvalidCBOR ''unable to decode contract'')) (cbor_decode (drop 4 document_cbor)))"

definition take_system_id :: "(string \<Rightarrow> bytes option) \<Rightarrow> string \<Rightarrow> contract_error \<Rightarrow> string \<Rightarrow> (string, cbor) btree \<Rightarrow>
    error + (id32 \<times> (string, cbor) btree)" where
  "take_system_id bs58_decode k missing invalid document =
     rbind (map_err StructureErr (bytes_for_system_value_from_tree_map bs58_decode document k)) (\<lambda>b.
     rbind (ok_or (ContractErr missing) b) (\<lambda>i.
       if length i \<noteq> 32 then Inl (ContractErr (ContractFieldRequirementUnmet invalid))
       else Inr (i, bt_remove k document)))"

definition document_from_cbor ::
    "(bytes \<Rightarrow> (string, cbor) btree option) \<Rightarrow> (string \<Rightarrow> bytes option) \<Rightarrow> bytes \<Rightarrow> id32 option \<Rightarrow> id32 option \<Rightarrow> error + document" where
  "document_from_cbor cbor_decode bs58_decode document_cbor document_id owner =
     rbind (decode_versioned cbor_decode document_cbor) (\<lambda>document.
     rbind (case owner of
              None \<Rightarrow> take_system_id bs58_decode ''$ownerId'' (DocumentOwnerIdMissing ''unable to get document $ownerId'')
                        ''invalid owner id'' document
            | Some i \<Rightarrow> Inr (i, document)) (\<lambda>(owner, document).
     rbind (case document_id of
              None \<Rightarrow> take_system_id bs58_decode ''$id'' (DocumentIdMissing ''unable to get document $id'')
                        ''invalid document id'' document
            | Some i \<Rightarrow> Inr (i, document)) (\<lambda>(document_id, document).
       Inr \<lparr>doc_id = document_id, doc_properties = document, doc_owner_id = owner\<rparr>)))"

definition document_from_cbor_with_id ::
    "(bytes \<Rightarrow> (string, cbor) btree option) \<Rightarrow> bytes \<Rightarrow> bytes \<Rightarrow> bytes \<Rightarrow> error + document" where
  "document_from_cbor_with_id cbor_decode document_cbor document_id owner =
     (if length owner \<noteq> 32 then Inl (ContractErr (ContractFieldRequirementUnmet ''invalid owner id''))
      else if length document_id \<noteq> 32 then Inl (ContractErr (ContractFieldRequirementUnmet ''invalid document id''))
      else
        rbind (decode_versioned cbor_decode document_cbor) (\<lambda>properties.
          Inr \<lparr>doc_id = document_id, doc_properties = properties, doc_owner_id = owner\<rparr>))"

section \<open>Raw values\<close>

text \<open>\<open>str::split('.')\<close>: never empty.\<close>

fun split_dots :: "string \<Rightarrow> string list" where
  "split_dots [] = [[]]"
| "split_dots (c # s) =
     (if c = CHR ''.'' then [] # split_dots s
      else case split_dots s of [] \<Rightarrow> [[c]] | p # ps \<Rightarrow> (c # p) # ps)"

fun get_value_at_path :: "cbor \<Rightarrow> string list \<Rightarrow> error + cbor option" where
  "get_value_at_path value [] = Inr (Some value)"
| "get_value_at_path value (k # rest_key_paths) =
     rbind (ok_or (ContractErr (ContractValueWrongType ''inner key must refer to a value map'')) (as_map value)) (\<lambda>map_values.
       case get_key_from_cbor_map map_values k of
         None \<Rightarrow> Inr None
       | Some value \<Rightarrow> get_value_at_path value rest_key_paths)"

definition get_raw_for_document_type ::
    "(string \<Rightarrow> bytes option) \<Rightarrow> field_codecs \<Rightarrow> document \<Rightarrow> string \<Rightarrow> document_type \<Rightarrow> id32 option \<Rightarrow> error + bytes option" where
  "get_raw_for_document_type bs58_decode C d key_path dt owner =
     (if key_path = ''$ownerId'' \<and> owner \<noteq> None then Inr owner
      else if key_path = ''$id'' then Inr (Some (doc_id d))
      else if key_path = ''$ownerId'' then Inr (Some (doc_owner_id d))
      else
        (case split_dots key_path of
           [] \<Rightarrow> Inl (ContractErr (ContractMissingRequiredKey ''key must not be null when getting from document''))
         | k # rest_key_paths \<Rightarrow>
             (case bt_get k (doc_properties d) of
                None \<Rightarrow> Inr None
              | Some value \<Rightarrow>
                  rbind (get_value_at_path value rest_key_paths) (\<lambda>r.
                    case r of
                      None \<Rightarrow> Inr None
                    | Some path_value \<Rightarrow>
                        rmap Some (map_err ContractErr (serialize_value_for_key bs58_decode C dt key_path path_value))))))"

definition get_raw_for_contract ::
    "(string \<Rightarrow> bytes option) \<Rightarrow> field_codecs \<Rightarrow> document \<Rightarrow> string \<Rightarrow> string \<Rightarrow> 'j data_contract \<Rightarrow> id32 option \<Rightarrow> error + bytes option" where
  "get_raw_for_contract bs58_decode C d k document_type_name contract owner =
     rbind (ok_or (ContractErr (DocumentTypeNotFound ''document type should exist for name''))
              (bt_get document_type_name (document_types contract))) (\<lambda>dt.
       get_raw_for_document_type bs58_decode C d k dt owner)"

section \<open>Both serializers agree\<close>

text \<open>The serializers of a field differ only in the message of an unsupported type.\<close>

lemma encode_sized_message:
  "encode_sized m1 C t v r = Inr bs \<Longrightarrow> encode_sized m2 C t v r = Inr bs"
  "encode_fields m1 C fs m acc = Inr bs \<Longrightarrow> encode_fields m2 C fs m acc = Inr bs"
proof (induction m1 C t v r and m1 C fs m acc arbitrary: bs and bs rule: encode_sized_encode_fields.induct)
  case (1 msg C t v required)
  show ?case
  proof (cases "\<exists>fs. t = FObject fs \<and> v \<noteq> CNull")
    case True
    then obtain fs where t: "t = FObject fs" "v \<noteq> CNull" by blast
    with 1(2) obtain x where x: "as_map v = Some x" "encode_fields msg C fs (cbor_map_to_btree_map x) [] = Inr bs"
      by (auto simp: rbind_eq_Inr ok_or_eq_Inr)
    from 1(1)[OF t(2,1) _ x(2)] x(1) t show ?thesis by simp
  next
    case False
    with 1(2) show ?thesis by (cases t) (auto split: if_splits)
  qed
next
  case (3 msg C k t r fs m acc)
  from 3(3) obtain y where y: "encode_fields msg C fs m y = Inr bs"
    and e: "case bt_get k m of
        Some v \<Rightarrow> \<exists>x. encode_sized msg C t v r = Inr x \<and> y = acc @ x | None \<Rightarrow> \<not> r \<and> y = acc @ [0]"
    by (auto simp: rbind_eq_Inr rmap_eq_Inr split: option.splits if_splits simp del: encode_sized.simps)
  have c: "(case bt_get k m of
              Some v \<Rightarrow> rmap (\<lambda>bs. acc @ bs) (encode_sized msg C t v r)
            | None \<Rightarrow> if r then Inl (ContractMissingRequiredKey ''a required field is not present'')
                      else Inr (acc @ [0])) = Inr y"
    using e by (auto split: option.splits simp del: encode_sized.simps)
  have "(case bt_get k m of
              Some v \<Rightarrow> rmap (\<lambda>bs. acc @ bs) (encode_sized m2 C t v r)
            | None \<Rightarrow> if r then Inl (ContractMissingRequiredKey ''a required field is not present'')
                      else Inr (acc @ [0])) = Inr y"
    using e 3(1) by (auto split: option.splits simp del: encode_sized.simps)
  with 3(2)[OF c y] show ?case by (simp del: encode_sized.simps)
qed simp

lemma encode_value_agree:
  "encode_value_with_size C t v r = Inr bs \<longleftrightarrow> encode_value_ref_with_size C t v r = Inr bs"
  unfolding encode_value_with_size_def encode_value_ref_with_size_def using encode_sized_message(1) by blast

lemma bt_wf_keys: "bt_wf (e # m) \<Longrightarrow> bt_wf m \<and> fst e \<notin> fst ` set m"
  using bt_wf_distinct[of "e # m"] by simp

lemma serialize_consume_agree:
  assumes "bt_wf fs" "\<forall>e \<in> set fs. bt_get (fst e) props' = bt_get (fst e) props"
  shows "rmap snd (foldM (serialize_consume_field C) (props', buffer) fs) = Inr bs \<longleftrightarrow>
    foldM (serialize_field C props) buffer fs = Inr bs"
  using assms
proof (induction fs arbitrary: buffer props')
  case Nil
  then show ?case by simp
next
  case (Cons e fs)
  have wf: "bt_wf fs" "fst e \<notin> fst ` set fs" using bt_wf_keys[OF Cons.prems(1)] by auto
  have g: "bt_get (fst e) props' = bt_get (fst e) props" using Cons.prems(2) by simp
  have rest: "\<forall>x \<in> set fs. bt_get (fst x) (bt_remove (fst e) props') = bt_get (fst x) props"
      "\<forall>x \<in> set fs. bt_get (fst x) props' = bt_get (fst x) props"
    using Cons.prems(2) wf(2) by (auto simp: bt_get_remove image_iff)
  show ?case
  proof (cases "bt_get (fst e) props")
    case None
    then show ?thesis using Cons.IH[OF wf(1) rest(2)] g
      by (simp add: serialize_consume_field_def serialize_field_def)
  next
    case (Some v)
    show ?thesis
    proof (cases "encode_value_with_size C (field_document_type (snd e)) v (field_required (snd e))")
      case (Inl err)
      then obtain err' where "encode_value_ref_with_size C (field_document_type (snd e)) v (field_required (snd e)) = Inl err'"
        using encode_value_agree by (metis sum.distinct(1) sum.exhaust)
      with Inl Some g show ?thesis by (simp add: serialize_consume_field_def serialize_field_def)
    next
      case (Inr x)
      then have "encode_value_ref_with_size C (field_document_type (snd e)) v (field_required (snd e)) = Inr x"
        by (simp add: encode_value_agree)
      with Inr Some g Cons.IH[OF wf(1) rest(1)] show ?thesis
        by (simp add: serialize_consume_field_def[of C _ e] serialize_field_def[of C props _ e])
    qed
  qed
qed

text \<open>Serializing a document by reference and by consuming it give the same bytes.\<close>

theorem document_serializers_agree:
  assumes "bt_wf (properties dt)"
  shows "document_serialize_consume C d dt = Inr bs \<longleftrightarrow> document_serialize C d dt = Inr bs"
  unfolding document_serialize_consume_def document_serialize_def by (rule serialize_consume_agree[OF assms]) simp

section \<open>A document is read back\<close>

text \<open>A document fits its type: its values are readable values of leaf fields, no required one is
  missing, and it has no other properties.\<close>

definition document_fits :: "document_type \<Rightarrow> document \<Rightarrow> bool" where
  "document_fits dt d \<longleftrightarrow>
     length (doc_id d) = 32 \<and> length (doc_owner_id d) = 32 \<and> bt_wf (doc_properties d) \<and> bt_wf (properties dt) \<and>
     fst ` set (doc_properties d) \<subseteq> fst ` set (properties dt) \<and>
     (\<forall>(k, f) \<in> set (properties dt).
        case bt_get k (doc_properties d) of
          None \<Rightarrow> is_leaf (field_document_type f) \<and> \<not> field_required f
        | Some v \<Rightarrow> readable_value (field_document_type f) v)"

lemma fields_read_back:
  assumes "field_codecs_contract C"
    and "\<forall>(k, f) \<in> set fs. case bt_get k props of
        None \<Rightarrow> is_leaf (field_document_type f) \<and> \<not> field_required f
      | Some v \<Rightarrow> readable_value (field_document_type f) v"
  shows "\<exists>bs. foldM (serialize_field C props) buffer fs = Inr (buffer @ bs) \<and>
    read_document_fields C fs bs = Inr (List.map_filter (\<lambda>(k, f). map_option (Pair k) (bt_get k props)) fs)"
  using assms(2)
proof (induction fs arbitrary: buffer)
  case Nil
  then show ?case by (simp add: map_filter_def)
next
  case (Cons e fs)
  obtain k f where e: "e = (k, f)" by force
  show ?case
  proof (cases "bt_get k props")
    case None
    then have l: "is_leaf (field_document_type f)" "\<not> field_required f" using Cons.prems e by auto
    obtain bs where "foldM (serialize_field C props) (buffer @ [0]) fs = Inr ((buffer @ [0]) @ bs)"
        "read_document_fields C fs bs = Inr (List.map_filter (\<lambda>(k, f). map_option (Pair k) (bt_get k props)) fs)"
      using Cons.IH[of "buffer @ [0]"] Cons.prems by auto
    then show ?thesis using None l field_codecs_contract.leaf_read_absent[OF assms(1) l(1)]
      by (intro exI[of _ "0 # bs"]) (simp add: e serialize_field_def[of C props buffer] List.map_filter_simps del: read_from.simps)
  next
    case (Some v)
    then have "readable_value (field_document_type f) v" using Cons.prems e by auto
    note rb = field_codecs_contract.leaf_read_back[OF assms(1) this, of _ "field_required f"]
    then obtain b where b: "encode_value_ref_with_size C (field_document_type f) v (field_required f) = Inr b"
      unfolding encode_value_ref_with_size_def by blast
    obtain bs where bs: "foldM (serialize_field C props) (buffer @ b) fs = Inr ((buffer @ b) @ bs)"
        "read_document_fields C fs bs = Inr (List.map_filter (\<lambda>(k, f). map_option (Pair k) (bt_get k props)) fs)"
      using Cons.IH[of "buffer @ b"] Cons.prems by auto
    have "read_from C (field_document_type f) (field_required f) (b @ bs) = Inr (Some v, bs)"
      using rb[of "''serialization of arrays not yet supported''" bs] b unfolding encode_value_ref_with_size_def by (auto simp del: encode_sized.simps read_from.simps)
    with Some b bs show ?thesis
      by (intro exI[of _ "b @ bs"]) (simp add: e serialize_field_def[of C props buffer] List.map_filter_simps del: read_from.simps)
  qed
qed

text \<open>Ordered maps with the same lookups are equal.\<close>

lemma bt_get_eqI:
  fixes a b :: "('a::linorder, 'b) btree"
  assumes "bt_wf a" "bt_wf b" "\<And>k. bt_get k a = bt_get k b"
  shows "a = b"
proof -
  have eta: "map (\<lambda>k. (k, the (bt_get k m))) (map fst m) = m" if "bt_wf m" for m :: "('a, 'b) btree"
    using bt_wf_distinct[OF that] by (auto simp: bt_get_def intro!: map_idI)
  have "fst ` set a = fst ` set b"
    using assms(3) by (metis bt_get_def dom_map_of_conv_image_fst ext)
  then have "map fst a = map fst b"
    using assms(1,2) by (simp add: bt_wf_def strict_sorted_equal)
  then show ?thesis using eta[OF assms(1)] eta[OF assms(2)] assms(3) by simp
qed

lemma bt_wf_map_filter:
  assumes "bt_wf fs"
  shows "bt_wf (List.map_filter (\<lambda>(k, f). map_option (Pair k) (g k)) fs)"
  using assms
  by (induction fs) (auto simp: List.map_filter_simps List.map_filter_def split: option.splits)

lemma bt_get_map_filter:
  "bt_get x (List.map_filter (\<lambda>(k, f). map_option (Pair k) (g k)) fs) = (if x \<in> fst ` set fs then g x else None)"
  by (induction fs) (auto simp: List.map_filter_simps bt_get_def split: option.splits)

text \<open>C38: a document whose values fit its type is read back from its serialization unchanged.\<close>

theorem document_roundtrip:
  assumes "field_codecs_contract C" "document_fits dt d"
  shows "\<exists>bs. document_serialize C d dt = Inr bs \<and> document_from_bytes C bs dt = Inr d"
proof -
  let ?head = "doc_id d @ doc_owner_id d" and ?es = "List.map_filter (\<lambda>(k, f). map_option (Pair k) (bt_get k (doc_properties d))) (properties dt)"
  have fits: "length (doc_id d) = 32" "length (doc_owner_id d) = 32" "bt_wf (doc_properties d)" "bt_wf (properties dt)"
      "fst ` set (doc_properties d) \<subseteq> fst ` set (properties dt)"
    using assms(2) by (simp_all add: document_fits_def)
  obtain bs where bs: "foldM (serialize_field C (doc_properties d)) ?head (properties dt) = Inr (?head @ bs)"
      "read_document_fields C (properties dt) bs = Inr ?es"
    using fields_read_back[OF assms(1), of "properties dt" "doc_properties d" ?head] assms(2) by (auto simp: document_fits_def)
  have wf: "bt_wf ?es" by (rule bt_wf_map_filter[OF fits(4)])
  have "?es = doc_properties d"
  proof (rule bt_get_eqI[OF wf fits(3)])
    fix k
    have "bt_get k (doc_properties d) = None" if "k \<notin> fst ` set (properties dt)"
      using that fits(5) by (auto simp: bt_get_def map_of_eq_None_iff)
    then show "bt_get k ?es = bt_get k (doc_properties d)" by (auto simp: bt_get_map_filter)
  qed
  then have "document_from_bytes C (?head @ bs) dt = Inr d"
    using fits(1,2) bs(2) foldl_bt_insert_append[of "[]" ?es] wf by (simp add: document_from_bytes_def)
  with bs(1) show ?thesis by (auto simp: document_serialize_def)
qed

definition example_document :: document where
  "example_document = \<lparr>doc_id = replicate 32 1, doc_properties = [(''age'', CInteger 30)], doc_owner_id = replicate 32 2\<rparr>"

definition person_type :: document_type where
  "person_type = example_document_type\<lparr>properties := [(''age'', DocumentField FInteger True), (''name'', DocumentField (FString None None) False)]\<rparr>"

theorem document_roundtrip_witness:
  "\<exists>bs. document_serialize reference_codecs example_document person_type = Inr bs \<and>
     document_from_bytes reference_codecs bs person_type = Inr example_document"
  by (rule document_roundtrip[OF ref_codecs.field_codecs_contract_axioms])
    (simp add: document_fits_def example_document_def person_type_def example_document_type_def bt_get_def is_leaf_def bt_wf_def)

theorem document_serializers_agree_witness:
  "\<forall>bs. document_serialize_consume reference_codecs example_document person_type = Inr bs \<longleftrightarrow>
    document_serialize reference_codecs example_document person_type = Inr bs"
  by (intro allI document_serializers_agree) (simp add: person_type_def example_document_type_def bt_wf_def)

section \<open>Types of values\<close>

text \<open>The values a field type admits. An object holds at least one of its fields, each under its name.\<close>

fun has_type :: "document_field_type \<Rightarrow> cbor \<Rightarrow> bool"
and fields_have_types :: "(string \<times> document_field) list \<Rightarrow> cbor_map \<Rightarrow> bool" where
  "has_type t v \<longleftrightarrow>
     (case t of
        FString _ _ \<Rightarrow> (case v of CText _ \<Rightarrow> True | _ \<Rightarrow> False)
      | FInteger \<Rightarrow> (case v of CInteger n \<Rightarrow> - (2 ^ 63) \<le> n \<and> n < 2 ^ 63 | _ \<Rightarrow> False)
      | FNumber \<Rightarrow> (case v of CFloat _ \<Rightarrow> True | _ \<Rightarrow> False)
      | FDate \<Rightarrow> (case v of CFloat _ \<Rightarrow> True | _ \<Rightarrow> False)
      | FBoolean \<Rightarrow> (case v of CBool _ \<Rightarrow> True | _ \<Rightarrow> False)
      | FByteArray _ _ \<Rightarrow> (case v of CBytes _ \<Rightarrow> True | _ \<Rightarrow> False)
      | FObject fs \<Rightarrow> (case v of CMap m \<Rightarrow> m \<noteq> [] \<and> fields_have_types fs m | _ \<Rightarrow> False)
      | FArray _ \<Rightarrow> False
      | FVariableTypeArray _ \<Rightarrow> False)"
| "fields_have_types [] m \<longleftrightarrow> m = []"
| "fields_have_types ((k, DocumentField t r) # fs) m \<longleftrightarrow>
     fields_have_types fs m \<or>
     (case m of (CText k', v) # m' \<Rightarrow> k' = k \<and> has_type t v \<and> fields_have_types fs m' | _ \<Rightarrow> False)"

lemma read_marked_Some:
  "read_marked r f buf = Inr (Some v, rest) \<Longrightarrow> \<exists>w. v = f w"
  by (auto simp: read_marked_def rbind_eq_Inr split: if_splits prod.splits)

lemma i64_range: "- 9223372036854775808 \<le> sint (w :: u64)" "sint (w :: u64) < 9223372036854775808"
  using sint_ge[of w] sint_lt[of w] by simp_all

lemma read_typed:
  "read_from C t r buf = Inr (Some v, rest) \<Longrightarrow> has_type t v"
  "read_fields C fs buf = Inr (m, rest) \<Longrightarrow> fields_have_types fs m"
proof (induction C t r buf and C fs buf arbitrary: v rest and m rest rule: read_from_read_fields.induct)
  case (1 C t required buf)
  show ?case
  proof (cases t)
    case (FObject fs)
    with 1 show ?thesis by (auto simp: rbind_eq_Inr split: if_splits)
  qed (use "1.prems" in \<open>auto simp: rbind_eq_Inr i64_range dest!: read_marked_Some split: option.splits if_splits\<close>)
next
  case (3 C k t r fs buf)
  then show ?case by (fastforce simp: rbind_eq_Inr simp del: read_from.simps has_type.simps split: option.splits)
qed simp

lemma read_fields_typed:
  assumes "read_document_fields C fs buf = Inr entries" "(k, v) \<in> set entries"
  shows "\<exists>f. (k, f) \<in> set fs \<and> has_type (field_document_type f) v"
  using assms
proof (induction C fs buf arbitrary: entries rule: read_document_fields.induct)
  case (2 C k' f fs buf)
  then obtain w buf' rest where "read_from C (field_document_type f) (field_required f) buf = Inr (w, buf')"
      "read_document_fields C fs buf' = Inr rest" "entries = (case w of Some v \<Rightarrow> (k', v) # rest | None \<Rightarrow> rest)"
    by (auto simp: rbind_eq_Inr simp del: read_from.simps)
  with 2 show ?case by (fastforce simp del: has_type.simps read_from.simps dest: read_typed(1) split: option.splits)
qed simp

text \<open>C37: every document that is read from bytes is well typed: its identifiers have 32 bytes, its properties are a sorted
  map, and each is a property of the document type with a value the type of the field admits.\<close>

theorem document_read_typed:
  assumes "document_from_bytes C bs dt = Inr doc"
  shows "length (doc_id doc) = 32 \<and> length (doc_owner_id doc) = 32 \<and> bt_wf (doc_properties doc) \<and>
    (\<forall>(k, v) \<in> set (doc_properties doc). \<exists>f. (k, f) \<in> set (properties dt) \<and> has_type (field_document_type f) v)"
proof -
  obtain entries where len: "64 \<le> length bs" and r: "read_document_fields C (properties dt) (drop 64 bs) = Inr entries"
    and doc: "doc = \<lparr>doc_id = take 32 bs, doc_properties = foldl (\<lambda>acc e. bt_insert (fst e) (snd e) acc) [] entries,
         doc_owner_id = take 32 (drop 32 bs)\<rparr>"
    using assms by (auto simp: document_from_bytes_def rbind_eq_Inr map_err_def split: if_splits sum.splits)
  have "\<exists>f. (k, f) \<in> set (properties dt) \<and> has_type (field_document_type f) v" if "(k, v) \<in> set (doc_properties doc)" for k v
    using read_fields_typed[OF r] bt_collect_set[of "(k, v)" "[]" entries] that doc by auto
  with len doc show ?thesis using bt_collect_wf[of "[]" entries] by auto
qed

theorem document_read_typed_witness:
  "\<exists>doc. document_from_bytes reference_codecs (replicate 64 0 @ u64_to_be 30 @ [0]) person_type = Inr doc \<and>
    length (doc_id doc) = 32 \<and> length (doc_owner_id doc) = 32"
proof -
  obtain doc where r: "document_from_bytes reference_codecs (replicate 64 0 @ u64_to_be 30 @ [0]) person_type = Inr doc"
    by (simp add: document_from_bytes_def person_type_def example_document_type_def read_marked_def read_u64_def ref_codecs.read_absent_bytes)
  from document_read_typed[OF this] r show ?thesis by blast
qed

end
