(* ===== verification/DocStore.thy ===== *)
theory DocStore
  imports Documents
begin

text \<open>
  Document storage: \<open>drive/src/drive/document\<close> with the descriptions of documents of
  \<open>object_size_info.rs\<close>. A document is stored under its id, with its history where the type keeps it, and
  every index holds a reference to it under the names and values of the indexed properties. The
  operations of an insertion, an update or a deletion are gathered first and applied as one batch.
\<close>

section \<open>Constants and paths\<close>

definition CONTRACT_DOCUMENTS_PATH_HEIGHT :: u16 where "CONTRACT_DOCUMENTS_PATH_HEIGHT = 4"
definition BASE_CONTRACT_ROOT_PATH_SIZE :: u32 where "BASE_CONTRACT_ROOT_PATH_SIZE = 33"
definition BASE_CONTRACT_KEEPING_HISTORY_STORAGE_PATH_SIZE :: u32 where
  "BASE_CONTRACT_KEEPING_HISTORY_STORAGE_PATH_SIZE = 34"
definition BASE_CONTRACT_DOCUMENTS_KEEPING_HISTORY_STORAGE_TIME_REFERENCE_PATH :: u32 where
  "BASE_CONTRACT_DOCUMENTS_KEEPING_HISTORY_STORAGE_TIME_REFERENCE_PATH = 75"
definition BASE_CONTRACT_DOCUMENTS_KEEPING_HISTORY_PRIMARY_KEY_PATH_FOR_DOCUMENT_ID_SIZE :: u32 where
  "BASE_CONTRACT_DOCUMENTS_KEEPING_HISTORY_PRIMARY_KEY_PATH_FOR_DOCUMENT_ID_SIZE = 67"
definition BASE_CONTRACT_DOCUMENTS_PRIMARY_KEY_PATH :: u32 where
  "BASE_CONTRACT_DOCUMENTS_PRIMARY_KEY_PATH = 35"
definition DEFAULT_HASH_SIZE_U32 :: u32 where "DEFAULT_HASH_SIZE_U32 = 32"
definition SOME_OPTIMIZED_DOCUMENT_REFERENCE :: "u16 option" where "SOME_OPTIMIZED_DOCUMENT_REFERENCE = Some 34"
definition DEFAULT_FLOAT_SIZE :: u32 where "DEFAULT_FLOAT_SIZE = 8"
definition STORAGE_FLAGS_SIZE :: u32 where "STORAGE_FLAGS_SIZE = 2"
definition CONTRACT_MAX_SERIALIZED_SIZE :: u16 where "CONTRACT_MAX_SERIALIZED_SIZE = 16384"

definition contract_document_type_path :: "bytes \<Rightarrow> string \<Rightarrow> path" where
  "contract_document_type_path i document_type_name =
     [root_key ContractDocuments, i, [1], string_bytes document_type_name]"

definition contract_documents_primary_key_path :: "bytes \<Rightarrow> string \<Rightarrow> path" where
  "contract_documents_primary_key_path i document_type_name =
     [root_key ContractDocuments, i, [1], string_bytes document_type_name, [0]]"

definition contract_documents_keeping_history_primary_key_path_for_document_id ::
    "bytes \<Rightarrow> string \<Rightarrow> bytes \<Rightarrow> path" where
  "contract_documents_keeping_history_primary_key_path_for_document_id i document_type_name document_id =
     [root_key ContractDocuments, i, [1], string_bytes document_type_name, [0], document_id]"

definition contract_documents_keeping_history_primary_key_path_for_document_id_size :: "u32 \<Rightarrow> u32" where
  "contract_documents_keeping_history_primary_key_path_for_document_id_size document_type_name_len =
     BASE_CONTRACT_DOCUMENTS_KEEPING_HISTORY_PRIMARY_KEY_PATH_FOR_DOCUMENT_ID_SIZE + document_type_name_len"

definition contract_documents_keeping_history_storage_time_reference_path_size :: "u32 \<Rightarrow> u32" where
  "contract_documents_keeping_history_storage_time_reference_path_size document_type_name_len =
     BASE_CONTRACT_DOCUMENTS_KEEPING_HISTORY_STORAGE_TIME_REFERENCE_PATH + document_type_name_len"

definition make_document_reference :: "varint_ops \<Rightarrow> document \<Rightarrow> document_type \<Rightarrow> storage_flags option \<Rightarrow> element" where
  "make_document_reference V doc dt flags =
     (let reference_path = [[0], doc_id doc] @ (if documents_keep_history dt then [[0]] else []);
          max_reference_hops = (if documents_keep_history dt then 2 else 1)
      in Reference (UpstreamRootHeightReference 4 reference_path) (Some max_reference_hops)
           (map_to_some_element_flags V flags))"

definition type_name_len :: "document_type \<Rightarrow> u32" where
  "type_name_len dt = len_u32 (string_bytes (type_name dt))"

section \<open>Documents to store\<close>

text \<open>A document with its bytes, without them (borrowed or owned), or only its greatest size.\<close>

datatype document_info =
    DocumentRefAndSerialization document bytes "storage_flags option"
  | DocumentRefWithoutSerialization document "storage_flags option"
  | DocumentWithoutSerialization document "storage_flags option"
  | DocumentSize u32

record 'j document_and_contract_info =
  document_info :: document_info
  info_contract :: "'j data_contract"
  info_document_type :: document_type
  info_owner_id :: "id32 option"

record storage_block_info =
  time_ms :: u64
  height :: u64
  block_epoch :: epoch

fun is_document_and_serialization :: "document_info \<Rightarrow> bool" where
  "is_document_and_serialization (DocumentRefAndSerialization _ _ _) = True"
| "is_document_and_serialization _ = False"

fun id_key_value_info :: "document_info \<Rightarrow> key_value_info" where
  "id_key_value_info (DocumentRefAndSerialization doc _ _) = KeyRefRequest (doc_id doc)"
| "id_key_value_info (DocumentRefWithoutSerialization doc _) = KeyRefRequest (doc_id doc)"
| "id_key_value_info (DocumentWithoutSerialization doc _) = KeyRefRequest (doc_id doc)"
| "id_key_value_info (DocumentSize n) = KeyValueMaxSize 32 n"

definition raw_key :: "(string \<Rightarrow> bytes option) \<Rightarrow> field_codecs \<Rightarrow> document \<Rightarrow> string \<Rightarrow> document_type \<Rightarrow> id32 option \<Rightarrow>
    error + drive_key_info option" where
  "raw_key b58 C doc key_path dt owner = rmap (map_option KeyOwned) (get_raw_for_document_type b58 C doc key_path dt owner)"

fun info_get_raw_for_document_type :: "(string \<Rightarrow> bytes option) \<Rightarrow> field_codecs \<Rightarrow> document_info \<Rightarrow> string \<Rightarrow>
    document_type \<Rightarrow> id32 option \<Rightarrow> error + drive_key_info option" where
  "info_get_raw_for_document_type b58 C (DocumentRefAndSerialization doc _ _) key_path dt owner =
     raw_key b58 C doc key_path dt owner"
| "info_get_raw_for_document_type b58 C (DocumentRefWithoutSerialization doc _) key_path dt owner =
     raw_key b58 C doc key_path dt owner"
| "info_get_raw_for_document_type b58 C (DocumentWithoutSerialization doc _) key_path dt owner =
     raw_key b58 C doc key_path dt owner"
| "info_get_raw_for_document_type b58 C (DocumentSize _) key_path dt owner =
     (if key_path = ''$ownerId'' \<or> key_path = ''$id'' then Inr (Some (KeySize DEFAULT_HASH_SIZE_U32))
      else
        rbind (ok_or (ContractErr (DocumentTypeFieldNotFound ''incorrect key path for document type''))
                 (bt_get key_path (properties dt))) (\<lambda>f.
        rbind (ok_or (corrupted ''document type must have a max size'') (max_byte_size (field_document_type f))) (\<lambda>n.
          Inr (Some (KeySize (ucast n))))))"

definition drive_key_info_default :: drive_key_info where
  "drive_key_info_default = KeyOwned []"

definition info_field :: "(string \<Rightarrow> bytes option) \<Rightarrow> field_codecs \<Rightarrow> document_info \<Rightarrow> document_type \<Rightarrow> id32 option \<Rightarrow> string \<Rightarrow>
    error + drive_key_info" where
  "info_field b58 C info dt owner key_path =
     rmap (\<lambda>r. case r of Some k \<Rightarrow> k | None \<Rightarrow> drive_key_info_default)
       (info_get_raw_for_document_type b58 C info key_path dt owner)"

definition document_field_or_empty :: "(string \<Rightarrow> bytes option) \<Rightarrow> field_codecs \<Rightarrow> document \<Rightarrow> document_type \<Rightarrow> id32 option \<Rightarrow>
    string \<Rightarrow> error + bytes" where
  "document_field_or_empty b58 C doc dt owner key_path =
     rmap (\<lambda>r. case r of Some v \<Rightarrow> v | None \<Rightarrow> []) (get_raw_for_document_type b58 C doc key_path dt owner)"

fun get_storage_flags_ref :: "document_info \<Rightarrow> storage_flags option" where
  "get_storage_flags_ref (DocumentRefAndSerialization _ _ flags) = flags"
| "get_storage_flags_ref (DocumentRefWithoutSerialization _ flags) = flags"
| "get_storage_flags_ref (DocumentWithoutSerialization _ flags) = flags"
| "get_storage_flags_ref (DocumentSize _) = optional_default"

section \<open>Primary storage\<close>

text \<open>The item of a document, serialized when its bytes are not given, or the space one takes.\<close>

fun document_item :: "field_codecs \<Rightarrow> 'db drive \<Rightarrow> document_type \<Rightarrow> (bytes \<Rightarrow> element \<Rightarrow> path_key_element_info) \<Rightarrow>
    (u32 \<Rightarrow> path_key_element_info) \<Rightarrow> document_info \<Rightarrow> error + path_key_element_info" where
  "document_item C d dt known sized (DocumentRefAndSerialization doc bs flags) =
     Inr (known (doc_id doc) (Item bs (map_to_some_element_flags (varint d) flags)))"
| "document_item C d dt known sized (DocumentWithoutSerialization doc flags) =
     rbind (document_serialize C doc dt) (\<lambda>bs. Inr (known (doc_id doc) (Item bs (map_to_some_element_flags (varint d) flags))))"
| "document_item C d dt known sized (DocumentRefWithoutSerialization doc flags) =
     rbind (document_serialize C doc dt) (\<lambda>bs. Inr (known (doc_id doc) (Item bs (map_to_some_element_flags (varint d) flags))))"
| "document_item C d dt known sized (DocumentSize n) =
     Inr (sized (gdb_required_item_space (grove d) n STORAGE_FLAGS_SIZE))"

text \<open>Where the type keeps history: the tree of the document, the version at the block's time, the reference to it.\<close>

definition add_history_operations :: "field_codecs \<Rightarrow> 'db drive \<Rightarrow> 'db \<Rightarrow> 'j document_and_contract_info \<Rightarrow>
    storage_block_info \<Rightarrow> bool \<Rightarrow> drive_ops \<Rightarrow> error + drive_ops" where
  "add_history_operations C d db i block apply ops =
     (let dt = info_document_type i; cid = contract_id (info_contract i); info = document_info i;
          primary_key_path = contract_documents_primary_key_path cid (type_name dt);
          history_path = contract_documents_keeping_history_primary_key_path_for_document_id cid (type_name dt);
          path_max_length = contract_documents_keeping_history_primary_key_path_for_document_id_size (type_name_len dt);
          reference_max_size = contract_documents_keeping_history_storage_time_reference_path_size (type_name_len dt);
          encoded_time = encode_unsigned_integer (time_ms block);
          (path_key_info, flags) =
            (case info of
               DocumentRefAndSerialization doc _ flags \<Rightarrow> (PathFixedSizeKeyRef primary_key_path (doc_id doc), flags)
             | _ \<Rightarrow> (PathKeySize (BASE_CONTRACT_DOCUMENTS_PRIMARY_KEY_PATH + type_name_len dt) DEFAULT_HASH_SIZE_U32,
                     optional_default))
      in rbind (batch_insert_empty_tree_if_not_exists d db path_key_info flags apply ops) (\<lambda>(_, ops).
         rbind (document_item C d dt (\<lambda>document_id e. PathFixedSizeKeyElement (history_path document_id) encoded_time e)
                  (\<lambda>n. PathKeyElementSize path_max_length 8 n) info) (\<lambda>version.
         rbind (batch_insert version ops) (\<lambda>ops.
           batch_insert
             (case info of
                DocumentRefAndSerialization doc _ flags \<Rightarrow>
                  PathFixedSizeKeyElement (history_path (doc_id doc)) [0]
                    (Reference (SiblingReference encoded_time) (Some 1) (map_to_some_element_flags (varint d) flags))
              | _ \<Rightarrow> PathKeyElementSize path_max_length 1
                       (gdb_required_item_space (grove d) reference_max_size STORAGE_FLAGS_SIZE)) ops))))"

definition primary_item :: "field_codecs \<Rightarrow> 'db drive \<Rightarrow> 'j document_and_contract_info \<Rightarrow> error + path_key_element_info" where
  "primary_item C d i =
     (let dt = info_document_type i
      in document_item C d dt
           (PathFixedSizeKeyElement (contract_documents_primary_key_path (contract_id (info_contract i)) (type_name dt)))
           (PathKeyElementSize (BASE_CONTRACT_DOCUMENTS_PRIMARY_KEY_PATH + type_name_len dt) DEFAULT_HASH_SIZE_U32)
           (document_info i))"

definition stateless_size :: "document_type \<Rightarrow> bool \<Rightarrow> u16 option" where
  "stateless_size dt apply = (if apply then None else Some (document_type_max_size dt))"

definition add_document_to_primary_storage :: "field_codecs \<Rightarrow> 'db drive \<Rightarrow> 'db \<Rightarrow> 'j document_and_contract_info \<Rightarrow>
    storage_block_info \<Rightarrow> bool \<Rightarrow> bool \<Rightarrow> drive_ops \<Rightarrow> error + drive_ops" where
  "add_document_to_primary_storage C d db i block insert_without_check apply ops =
     (if documents_keep_history (info_document_type i) then add_history_operations C d db i block apply ops
      else if insert_without_check then rbind (primary_item C d i) (\<lambda>item. batch_insert item ops)
      else
        rbind (primary_item C d i) (\<lambda>item.
        rbind (batch_insert_if_not_exists d db item (stateless_size (info_document_type i) apply) ops) (\<lambda>(inserted, ops).
          if inserted then Inr ops
          else Inl (DriveErr (CorruptedDocumentAlreadyExists ''item already exists'')))))"

section \<open>Insertion into the indexes\<close>

definition invalid_indices :: error where
  "invalid_indices = DriveErr (CorruptedContractIndexes ''invalid contract indices'')"

definition index_exists :: error where
  "index_exists = DriveErr (CorruptedContractIndexes ''index already exists'')"

text \<open>A tree that was inserted in this batch is not looked up again.\<close>

definition insert_tree_once :: "'db drive \<Rightarrow> 'db \<Rightarrow> storage_flags option \<Rightarrow> bool \<Rightarrow> path_key_info \<Rightarrow> path set \<times> drive_ops \<Rightarrow>
    error + (path set \<times> drive_ops)" where
  "insert_tree_once d db flags apply info st =
     (case st of (cache, ops) \<Rightarrow>
        if is_contained_in_cache info cache then Inr (cache, ops)
        else
          rbind (batch_insert_empty_tree_if_not_exists d db info flags apply ops) (\<lambda>(inserted, ops).
            Inr (if inserted then snd (add_to_cache info cache) else cache, ops)))"

definition insert_index_level :: "'db drive \<Rightarrow> 'db \<Rightarrow> storage_flags option \<Rightarrow> bool \<Rightarrow> (string \<Rightarrow> error + drive_key_info) \<Rightarrow>
    path_info \<times> bool \<times> path set \<times> drive_ops \<Rightarrow> index_property \<Rightarrow> error + (path_info \<times> bool \<times> path set \<times> drive_ops)" where
  "insert_index_level d db flags apply field_of st p =
     (case st of (index_path_info, any_fields_null, cache, ops) \<Rightarrow>
        (let index_property_key = KeyRef (string_bytes (property_name p))
         in rbind (field_of (property_name p)) (\<lambda>document_index_field.
            rbind (insert_tree_once d db flags apply (add_path_info index_property_key index_path_info) (cache, ops)) (\<lambda>st.
            rbind (path_info_push index_path_info index_property_key) (\<lambda>index_path_info.
            rbind (insert_tree_once d db flags apply (add_path_info document_index_field index_path_info) st) (\<lambda>(cache, ops).
            rbind (path_info_push index_path_info document_index_field) (\<lambda>index_path_info.
              Inr (index_path_info, any_fields_null \<or> drive_key_info_is_empty document_index_field, cache, ops))))))))"

fun reference_element_info :: "'db drive \<Rightarrow> document_type \<Rightarrow> (bytes \<Rightarrow> bytes) \<Rightarrow> u32 \<Rightarrow> document_info \<Rightarrow> key_element_info" where
  "reference_element_info d dt k n (DocumentRefAndSerialization doc _ flags) =
     KeyElement (k (doc_id doc)) (make_document_reference (varint d) doc dt flags)"
| "reference_element_info d dt k n (DocumentRefWithoutSerialization doc flags) =
     KeyElement (k (doc_id doc)) (make_document_reference (varint d) doc dt flags)"
| "reference_element_info d dt k n (DocumentWithoutSerialization doc flags) =
     KeyElement (k (doc_id doc)) (make_document_reference (varint d) doc dt flags)"
| "reference_element_info d dt k n (DocumentSize m) =
     KeyElementSize n (gdb_required_item_space (grove d) m STORAGE_FLAGS_SIZE)"

definition insert_reference :: "'db drive \<Rightarrow> 'db \<Rightarrow> document_info \<Rightarrow> document_type \<Rightarrow> bool \<Rightarrow> index \<Rightarrow> path_info \<Rightarrow> bool \<Rightarrow>
    drive_ops \<Rightarrow> error + drive_ops" where
  "insert_reference d db info dt apply ix index_path_info any_fields_null ops =
     (if \<not> unique ix \<or> any_fields_null
      then
        rbind (batch_insert_empty_tree_if_not_exists d db (add_path_info (KeyRef [0]) index_path_info)
                 (get_storage_flags_ref info) apply ops) (\<lambda>(_, ops).
        rbind (path_info_push index_path_info (KeyOwned [0])) (\<lambda>index_path_info.
        rbind (from_path_info_and_key_element d index_path_info
                 (reference_element_info d dt (\<lambda>i. i) DEFAULT_HASH_SIZE_U32 info)) (\<lambda>e.
          batch_insert e ops)))
      else
        rbind (from_path_info_and_key_element d index_path_info (reference_element_info d dt (\<lambda>_. [0]) 1 info)) (\<lambda>e.
        rbind (batch_insert_if_not_exists d db e (stateless_size dt apply) ops) (\<lambda>(inserted, ops).
          if inserted then Inr ops else Inl index_exists)))"

definition insert_index :: "(string \<Rightarrow> bytes option) \<Rightarrow> field_codecs \<Rightarrow> 'db drive \<Rightarrow> 'db \<Rightarrow> 'j document_and_contract_info \<Rightarrow>
    bool \<Rightarrow> path set \<times> drive_ops \<Rightarrow> index \<Rightarrow> error + (path set \<times> drive_ops)" where
  "insert_index b58 C d db i apply st ix =
     (let dt = info_document_type i; info = document_info i; flags = get_storage_flags_ref info;
          field_of = info_field b58 C info dt (info_owner_id i)
      in case index_properties ix of
           [] \<Rightarrow> Inl invalid_indices
         | p0 # rest \<Rightarrow>
             (let index_path = contract_document_type_path (contract_id (info_contract i)) (type_name dt) @
                    [string_bytes (property_name p0)]
              in rbind (field_of (property_name p0)) (\<lambda>document_top_field.
                 rbind (insert_tree_once d db flags apply (add_path document_top_field index_path) st) (\<lambda>(cache, ops).
                 rbind (path_info_push (if is_document_and_serialization info then PathIterator index_path
                                        else PathSize (path_len index_path)) document_top_field) (\<lambda>index_path_info.
                 rbind (foldM (insert_index_level d db flags apply field_of)
                          (index_path_info, drive_key_info_is_empty document_top_field, cache, ops) rest)
                   (\<lambda>(index_path_info, any_fields_null, cache, ops).
                 rbind (insert_reference d db info dt apply ix index_path_info any_fields_null ops) (\<lambda>ops.
                   Inr (cache, ops))))))))"

definition insert_indices :: "(string \<Rightarrow> bytes option) \<Rightarrow> field_codecs \<Rightarrow> 'db drive \<Rightarrow> 'db \<Rightarrow> 'j document_and_contract_info \<Rightarrow>
    bool \<Rightarrow> drive_ops \<Rightarrow> error + drive_ops" where
  "insert_indices b58 C d db i apply ops =
     rmap snd (foldM (insert_index b58 C d db i apply) ({}, ops) (indices (info_document_type i)))"

text \<open>The operations of \<open>add_document_for_contract_operations\<close> when the document is not updated instead.\<close>

definition insert_document_operations :: "(string \<Rightarrow> bytes option) \<Rightarrow> field_codecs \<Rightarrow> 'db drive \<Rightarrow> 'db \<Rightarrow>
    'j document_and_contract_info \<Rightarrow> bool \<Rightarrow> storage_block_info \<Rightarrow> bool \<Rightarrow> drive_ops \<Rightarrow> error + drive_ops" where
  "insert_document_operations b58 C d db i override_document block apply ops =
     rbind (add_document_to_primary_storage C d db i block override_document apply ops)
       (insert_indices b58 C d db i apply)"

section \<open>Update\<close>

fun differs :: "bytes \<Rightarrow> drive_key_info \<Rightarrow> bool" where
  "differs v (KeyOwned k) \<longleftrightarrow> v \<noteq> k"
| "differs v (KeyRef k) \<longleftrightarrow> v \<noteq> k"
| "differs v (KeySize _) \<longleftrightarrow> True"

text \<open>Trees are inserted only from the first property on that changed.\<close>

definition insert_tree_if_changed :: "'db drive \<Rightarrow> 'db \<Rightarrow> storage_flags option \<Rightarrow> bool \<Rightarrow> bool \<Rightarrow> path \<Rightarrow> bytes \<Rightarrow>
    path set \<times> drive_ops \<Rightarrow> error + (path set \<times> drive_ops)" where
  "insert_tree_if_changed d db flags apply changed p k st =
     (if changed then insert_tree_once d db flags apply (PathKeyRef p k) st else Inr st)"

record update_state =
  us_changed :: bool
  us_all_null :: bool
  us_path :: path
  us_old_path :: "drive_key_info list"

definition update_index_level :: "'db drive \<Rightarrow> 'db \<Rightarrow> storage_flags option \<Rightarrow> bool \<Rightarrow> (string \<Rightarrow> error + bytes) \<Rightarrow>
    (string \<Rightarrow> error + drive_key_info) \<Rightarrow> update_state \<times> path set \<times> drive_ops \<Rightarrow> index_property \<Rightarrow>
    error + (update_state \<times> path set \<times> drive_ops)" where
  "update_index_level d db flags apply field_of old_field_of st p =
     (case st of (u, st) \<Rightarrow>
        (let name = string_bytes (property_name p)
         in rbind (field_of (property_name p)) (\<lambda>document_index_field.
            rbind (old_field_of (property_name p)) (\<lambda>old_document_index_field.
              let changed = us_changed u \<or> differs document_index_field old_document_index_field
              in rbind (insert_tree_if_changed d db flags apply changed (us_path u) name st) (\<lambda>st.
                 rbind (insert_tree_if_changed d db flags apply changed (us_path u @ [name]) document_index_field st) (\<lambda>st.
                   Inr (\<lparr>us_changed = changed, us_all_null = us_all_null u \<and> document_index_field = [],
                         us_path = us_path u @ [name, document_index_field],
                         us_old_path = us_old_path u @ [KeyOwned name, old_document_index_field]\<rparr>, st)))))))"

text \<open>The old reference is deleted with the trees it leaves empty, then the new one is inserted.\<close>

definition move_reference :: "'db drive \<Rightarrow> 'db \<Rightarrow> storage_flags option \<Rightarrow> bool \<Rightarrow> bytes \<Rightarrow> element \<Rightarrow> index \<Rightarrow> update_state \<Rightarrow>
    drive_ops \<Rightarrow> error + drive_ops" where
  "move_reference d db flags apply document_id document_reference ix u ops =
     rbind (if \<not> unique ix
            then batch_delete_up_tree_while_empty d db (us_old_path u @ [KeyOwned [0]]) document_id
                   (Some CONTRACT_DOCUMENTS_PATH_HEIGHT) apply ops
            else batch_delete_up_tree_while_empty d db (us_old_path u) [0]
                   (Some CONTRACT_DOCUMENTS_PATH_HEIGHT) apply ops) (\<lambda>ops.
       if \<not> unique ix \<or> us_all_null u
       then
         rbind (batch_insert_empty_tree_if_not_exists d db (PathKeyRef (us_path u) [0]) flags apply ops) (\<lambda>(_, ops).
           batch_insert (PathKeyElement (us_path u @ [[0]]) document_id document_reference) ops)
       else
         rbind (batch_insert_if_not_exists d db (PathKeyElement (us_path u) [0] document_reference)
                  (if apply then None else SOME_OPTIMIZED_DOCUMENT_REFERENCE) ops) (\<lambda>(inserted, ops).
           if inserted then Inr ops else Inl index_exists))"

definition update_index :: "'db drive \<Rightarrow> 'db \<Rightarrow> storage_flags option \<Rightarrow> bool \<Rightarrow> path \<Rightarrow> bytes \<Rightarrow> element \<Rightarrow>
    (string \<Rightarrow> error + bytes) \<Rightarrow> (string \<Rightarrow> error + drive_key_info) \<Rightarrow> path set \<times> drive_ops \<Rightarrow> index \<Rightarrow>
    error + (path set \<times> drive_ops)" where
  "update_index d db flags apply dt_path document_id document_reference field_of old_field_of st ix =
     (case index_properties ix of
        [] \<Rightarrow> Inl invalid_indices
      | p0 # rest \<Rightarrow>
          (let index_path = dt_path @ [string_bytes (property_name p0)]
           in rbind (field_of (property_name p0)) (\<lambda>document_top_field.
              rbind (old_field_of (property_name p0)) (\<lambda>old_document_top_field.
                let changed = differs document_top_field old_document_top_field
                in rbind (insert_tree_if_changed d db flags apply changed index_path document_top_field st) (\<lambda>st.
                   rbind (foldM (update_index_level d db flags apply field_of old_field_of)
                            (\<lparr>us_changed = changed, us_all_null = (document_top_field = []),
                              us_path = index_path @ [document_top_field],
                              us_old_path = map KeyOwned index_path @ [old_document_top_field]\<rparr>, st) rest)
                     (\<lambda>(u, cache, ops).
                       if us_changed u
                       then rbind (move_reference d db flags apply document_id document_reference ix u ops) (\<lambda>ops.
                              Inr (cache, ops))
                       else Inr (cache, ops)))))))"

text \<open>The stored document, or its greatest size when the update is only estimated.\<close>

definition old_document_info :: "(bytes \<Rightarrow> (string, cbor) btree option) \<Rightarrow> (string \<Rightarrow> bytes option) \<Rightarrow> 'db drive \<Rightarrow>
    id32 option \<Rightarrow> u16 option \<Rightarrow> element option \<Rightarrow> error + document_info" where
  "old_document_info cbor_decode b58 d owner stateless old_document_element =
     (case old_document_element of
        Some (Item old_serialized_document element_flags) \<Rightarrow>
          rbind (document_from_cbor cbor_decode b58 old_serialized_document None owner) (\<lambda>doc.
          rbind (from_some_element_flags_ref (varint d) element_flags) (\<lambda>flags.
            Inr (DocumentWithoutSerialization doc flags)))
      | Some _ \<Rightarrow> Inl (DriveErr (CorruptedDocumentNotItem ''old document is not an item''))
      | None \<Rightarrow>
          (case stateless of
             Some max_value_size \<Rightarrow> Inr (DocumentSize (ucast max_value_size))
           | None \<Rightarrow> Inl (DriveErr (UpdatingDocumentThatDoesNotExist ''document being updated does not exist''))))"

definition get_old_document :: "'db drive \<Rightarrow> 'db \<Rightarrow> document_type \<Rightarrow> bytes \<Rightarrow> bytes \<Rightarrow> u16 option \<Rightarrow> drive_ops \<Rightarrow>
    error + (element option \<times> drive_ops)" where
  "get_old_document d db dt cid document_id stateless ops =
     (if documents_keep_history dt
      then grove_get d db (contract_documents_keeping_history_primary_key_path_for_document_id cid (type_name dt) document_id)
             (KeyRefRequest [0]) (map_option (\<lambda>vs. (vs, [1])) stateless) ops
      else grove_get_direct d db (contract_documents_primary_key_path cid (type_name dt)) (KeyRefRequest document_id)
             stateless ops)"

definition update_document_for_contract_operations :: "(bytes \<Rightarrow> (string, cbor) btree option) \<Rightarrow> (string \<Rightarrow> bytes option) \<Rightarrow>
    field_codecs \<Rightarrow> 'db drive \<Rightarrow> 'db \<Rightarrow> 'j document_and_contract_info \<Rightarrow> storage_block_info \<Rightarrow> bool \<Rightarrow> error + drive_ops" where
  "update_document_for_contract_operations cbor_decode b58 C d db i block apply =
     (let dt = info_document_type i; cid = contract_id (info_contract i); owner = info_owner_id i
      in if \<not> documents_mutable dt
         then Inl (DriveErr (UpdatingReadOnlyImmutableDocument ''documents for this contract are not mutable''))
         else
           case document_info i of
             DocumentRefAndSerialization doc _ flags \<Rightarrow>
               (let document_reference = make_document_reference (varint d) doc dt flags;
                    stateless = stateless_size dt apply
                in rbind (get_old_document d db dt cid (doc_id doc) stateless []) (\<lambda>(old_document_element, ops).
                   rbind (add_document_to_primary_storage C d db i block True apply ops) (\<lambda>ops.
                   rbind (old_document_info cbor_decode b58 d owner stateless old_document_element) (\<lambda>old.
                     rmap snd (foldM (update_index d db flags apply (contract_document_type_path cid (type_name dt))
                         (doc_id doc) document_reference (document_field_or_empty b58 C doc dt owner)
                         (info_field b58 C old dt owner)) ({}, ops) (indices dt))))))
           | _ \<Rightarrow> insert_document_operations b58 C d db i False block apply [])"

section \<open>Insertion\<close>

text \<open>With \<open>override_document\<close> an existing document is updated.\<close>

definition add_document_for_contract_operations :: "(bytes \<Rightarrow> (string, cbor) btree option) \<Rightarrow> (string \<Rightarrow> bytes option) \<Rightarrow>
    field_codecs \<Rightarrow> 'db drive \<Rightarrow> 'db \<Rightarrow> 'j document_and_contract_info \<Rightarrow> bool \<Rightarrow> storage_block_info \<Rightarrow> bool \<Rightarrow> error + drive_ops" where
  "add_document_for_contract_operations cbor_decode b58 C d db i override_document block apply =
     (let dt = info_document_type i
      in if override_document \<and> is_document_and_serialization (document_info i)
         then
           rbind (as_key_ref_request (id_key_value_info (document_info i))) (\<lambda>document_id.
           rbind (grove_has_raw d db (contract_documents_primary_key_path (contract_id (info_contract i)) (type_name dt))
                    document_id (stateless_size dt apply) []) (\<lambda>(exists, ops).
             if exists
             then rmap (\<lambda>update_operations. ops @ update_operations)
                    (update_document_for_contract_operations cbor_decode b58 C d db i block apply)
             else insert_document_operations b58 C d db i override_document block apply ops))
         else insert_document_operations b58 C d db i override_document block apply [])"

definition add_document_for_contract_apply_and_add_to_operations :: "(bytes \<Rightarrow> (string, cbor) btree option) \<Rightarrow>
    (string \<Rightarrow> bytes option) \<Rightarrow> field_codecs \<Rightarrow> 'db drive \<Rightarrow> 'db \<Rightarrow> 'j document_and_contract_info \<Rightarrow> bool \<Rightarrow>
    storage_block_info \<Rightarrow> bool \<Rightarrow> drive_ops \<Rightarrow> error + ('db \<times> drive_ops)" where
  "add_document_for_contract_apply_and_add_to_operations cbor_decode b58 C d db i override_document block apply ops =
     rbind (add_document_for_contract_operations cbor_decode b58 C d db i override_document block apply) (\<lambda>batch_operations.
       apply_batch_drive_operations d db apply batch_operations ops)"

definition drive_fee :: "'db drive \<Rightarrow> drive_ops \<Rightarrow> storage_block_info \<Rightarrow> error + fee_result" where
  "drive_fee d ops block =
     calculate_fee (im_insert d) (im_remove d) (GroveOps.total_removed_bytes d) None (Some ops) (block_epoch block)"

definition add_document_for_contract :: "(bytes \<Rightarrow> (string, cbor) btree option) \<Rightarrow> (string \<Rightarrow> bytes option) \<Rightarrow> field_codecs \<Rightarrow>
    'db drive \<Rightarrow> 'db \<Rightarrow> 'j document_and_contract_info \<Rightarrow> bool \<Rightarrow> storage_block_info \<Rightarrow> bool \<Rightarrow> error + ('db \<times> fee_result)" where
  "add_document_for_contract cbor_decode b58 C d db i override_document block apply =
     rbind (add_document_for_contract_apply_and_add_to_operations cbor_decode b58 C d db i override_document block apply [])
       (\<lambda>(db, ops). rbind (drive_fee d ops block) (\<lambda>fee. Inr (db, fee)))"

definition update_document_for_contract_apply_and_add_to_operations :: "(bytes \<Rightarrow> (string, cbor) btree option) \<Rightarrow>
    (string \<Rightarrow> bytes option) \<Rightarrow> field_codecs \<Rightarrow> 'db drive \<Rightarrow> 'db \<Rightarrow> 'j document_and_contract_info \<Rightarrow>
    storage_block_info \<Rightarrow> bool \<Rightarrow> drive_ops \<Rightarrow> error + ('db \<times> drive_ops)" where
  "update_document_for_contract_apply_and_add_to_operations cbor_decode b58 C d db i block apply ops =
     rbind (update_document_for_contract_operations cbor_decode b58 C d db i block apply) (\<lambda>batch_operations.
       apply_batch_drive_operations d db apply batch_operations ops)"

definition update_document_for_contract :: "(bytes \<Rightarrow> (string, cbor) btree option) \<Rightarrow> (string \<Rightarrow> bytes option) \<Rightarrow>
    field_codecs \<Rightarrow> 'db drive \<Rightarrow> 'db \<Rightarrow> document \<Rightarrow> bytes \<Rightarrow> 'j data_contract \<Rightarrow> string \<Rightarrow> id32 option \<Rightarrow> storage_block_info \<Rightarrow>
    bool \<Rightarrow> storage_flags option \<Rightarrow> error + ('db \<times> fee_result)" where
  "update_document_for_contract cbor_decode b58 C d db doc serialized contract document_type_name owner block apply flags =
     rbind (map_err ContractErr (document_type_for_name contract document_type_name)) (\<lambda>dt.
     rbind (update_document_for_contract_apply_and_add_to_operations cbor_decode b58 C d db
              \<lparr>document_info = DocumentRefAndSerialization doc serialized flags, info_contract = contract,
               info_document_type = dt, info_owner_id = owner\<rparr> block apply []) (\<lambda>(db, ops).
     rbind (drive_fee d ops block) (\<lambda>fee. Inr (db, fee))))"

section \<open>Deletion\<close>

definition delete_index_path :: "(string \<Rightarrow> error + drive_key_info) \<Rightarrow> index_property list \<Rightarrow> error + drive_key_info list" where
  "delete_index_path field_of ps =
     rmap concat (mapM (\<lambda>p. rmap (\<lambda>v. [KeyOwned (string_bytes (property_name p)), v]) (field_of (property_name p))) ps)"

definition delete_reference :: "'db drive \<Rightarrow> 'db \<Rightarrow> path \<Rightarrow> bytes \<Rightarrow> (string \<Rightarrow> error + drive_key_info) \<Rightarrow> bool \<Rightarrow> drive_ops \<Rightarrow> index \<Rightarrow>
    error + drive_ops" where
  "delete_reference d db dt_path document_id field_of apply ops ix =
     (if index_properties ix = [] then Inl invalid_indices
      else
        rbind (delete_index_path field_of (index_properties ix)) (\<lambda>values.
          let index_path = map KeyOwned dt_path @ values
          in if \<not> unique ix
             then batch_delete_up_tree_while_empty d db (index_path @ [KeyOwned [0]]) document_id
                    (Some CONTRACT_DOCUMENTS_PATH_HEIGHT) apply ops
             else batch_delete_up_tree_while_empty d db index_path [0] (Some CONTRACT_DOCUMENTS_PATH_HEIGHT) apply ops))"

text \<open>The document to delete; an estimate takes the greatest size of its type.\<close>

definition deleted_document_info :: "(bytes \<Rightarrow> (string, cbor) btree option) \<Rightarrow> (string \<Rightarrow> bytes option) \<Rightarrow> 'db drive \<Rightarrow>
    id32 option \<Rightarrow> u16 option \<Rightarrow> element option \<Rightarrow> error + document_info" where
  "deleted_document_info cbor_decode b58 d owner stateless document_element =
     (case stateless of
        Some max_value_size \<Rightarrow> Inr (DocumentSize (ucast max_value_size))
      | None \<Rightarrow>
          (case document_element of
             Some (Item data element_flags) \<Rightarrow>
               rbind (document_from_cbor cbor_decode b58 data None owner) (\<lambda>doc.
               rbind (from_some_element_flags_ref (varint d) element_flags) (\<lambda>flags.
                 Inr (DocumentWithoutSerialization doc flags)))
           | Some _ \<Rightarrow> Inl (DriveErr (CorruptedDocumentNotItem ''document being deleted is not an item''))
           | None \<Rightarrow> Inl (DriveErr (DeletingDocumentThatDoesNotExist ''document being deleted does not exist''))))"

text \<open>The primary key is deleted for real even when the deletion is only estimated.\<close>

definition delete_document_for_contract_operations :: "(bytes \<Rightarrow> (string, cbor) btree option) \<Rightarrow> (string \<Rightarrow> bytes option) \<Rightarrow>
    field_codecs \<Rightarrow> 'db drive \<Rightarrow> 'db \<Rightarrow> bytes \<Rightarrow> 'j data_contract \<Rightarrow> string \<Rightarrow> id32 option \<Rightarrow> bool \<Rightarrow> error + drive_ops" where
  "delete_document_for_contract_operations cbor_decode b58 C d db document_id contract document_type_name owner apply =
     rbind (map_err ContractErr (document_type_for_name contract document_type_name)) (\<lambda>dt.
       if \<not> documents_mutable dt
       then Inl (DriveErr (UpdatingReadOnlyImmutableDocument ''this document type is not mutable and can not be deleted''))
       else if documents_keep_history dt
       then Inl (DriveErr (InvalidDeletionOfDocumentThatKeepsHistory
              ''this document type keeps history and therefore can not be deleted''))
       else
         (let primary_key_path = contract_documents_primary_key_path (contract_id contract) document_type_name;
              stateless = stateless_size dt apply
          in rbind (grove_get_direct d db primary_key_path (KeyRefRequest document_id) stateless []) (\<lambda>(document_element, ops).
             rbind (deleted_document_info cbor_decode b58 d owner stateless document_element) (\<lambda>info.
             rbind (batch_delete d db primary_key_path document_id True True ops) (\<lambda>ops.
               foldM (delete_reference d db (contract_document_type_path (contract_id contract) document_type_name)
                   document_id (info_field b58 C info dt owner) apply) ops (indices dt))))))"

definition delete_document_for_contract_apply_and_add_to_operations :: "(bytes \<Rightarrow> (string, cbor) btree option) \<Rightarrow>
    (string \<Rightarrow> bytes option) \<Rightarrow> field_codecs \<Rightarrow> 'db drive \<Rightarrow> 'db \<Rightarrow> bytes \<Rightarrow> 'j data_contract \<Rightarrow> string \<Rightarrow> id32 option \<Rightarrow>
    bool \<Rightarrow> drive_ops \<Rightarrow> error + ('db \<times> drive_ops)" where
  "delete_document_for_contract_apply_and_add_to_operations cbor_decode b58 C d db document_id contract document_type_name owner apply ops =
     rbind (delete_document_for_contract_operations cbor_decode b58 C d db document_id contract document_type_name owner apply)
       (\<lambda>batch_operations. apply_batch_drive_operations d db apply batch_operations ops)"

definition delete_document_for_contract :: "(bytes \<Rightarrow> (string, cbor) btree option) \<Rightarrow> (string \<Rightarrow> bytes option) \<Rightarrow>
    field_codecs \<Rightarrow> 'db drive \<Rightarrow> 'db \<Rightarrow> bytes \<Rightarrow> 'j data_contract \<Rightarrow> string \<Rightarrow> id32 option \<Rightarrow> storage_block_info \<Rightarrow> bool \<Rightarrow>
    error + ('db \<times> fee_result)" where
  "delete_document_for_contract cbor_decode b58 C d db document_id contract document_type_name owner block apply =
     rbind (delete_document_for_contract_apply_and_add_to_operations cbor_decode b58 C d db document_id contract
              document_type_name owner apply []) (\<lambda>(db, ops).
     rbind (drive_fee d ops block) (\<lambda>fee. Inr (db, fee)))"

end
