(* ===== verification/ContractData.thy ===== *)
theory ContractData
  imports DocTypes "HOL-Library.AList"
begin

text \<open>
  Reading a data contract: \<open>DataContract::from_cbor\<close> of \<open>dpp/src/data_contract/data_contract.rs\<close> with the
  conversions of \<open>dpp/src/util/cbor_value.rs\<close> and the binary properties of
  \<open>get_binary_properties_from_schema.rs\<close>. The decoder of CBOR maps (\<open>ciborium\<close>) and base58 are
  arguments. A protocol error is carried as its message.
\<close>

section \<open>JSON\<close>

text \<open>
  A value of \<open>serde_json\<close>. With \<open>preserve_order\<close> an object keeps its keys in the order of their first
  insertion; a float that is not finite becomes null.
\<close>

datatype json =
    JNull
  | JBool bool
  | JInteger int
  | JFloat f64
  | JString string
  | JArray "json list"
  | JObject "(string \<times> json) list"

definition f64_is_finite :: "f64 \<Rightarrow> bool" where
  "f64_is_finite w \<longleftrightarrow> unat w mod 2 ^ 63 < 0x7FF0000000000000"

definition json_of_f64 :: "f64 \<Rightarrow> json" where
  "json_of_f64 f = (if f64_is_finite f then JFloat f else JNull)"

definition json_map_of_entries :: "(string \<times> json) list \<Rightarrow> (string \<times> json) list" where
  "json_map_of_entries es = foldl (\<lambda>m e. AList.update (fst e) (snd e) m) [] es"

fun cbor_value_to_json_value :: "cbor \<Rightarrow> string + json"
and cbor_values_to_json_values :: "cbor list \<Rightarrow> string + json list"
and cbor_entries_to_json_entries :: "cbor_map \<Rightarrow> string + (string \<times> json) list" where
  "cbor_value_to_json_value v =
     (case v of
        CInteger n \<Rightarrow> Inr (JInteger (sint (word_of_int n :: u64)))
      | CBytes bs \<Rightarrow> Inr (JArray (map (\<lambda>b. JInteger (uint b)) bs))
      | CFloat f \<Rightarrow> Inr (json_of_f64 f)
      | CText s \<Rightarrow> Inr (JString s)
      | CBool b \<Rightarrow> Inr (JBool b)
      | CNull \<Rightarrow> Inr JNull
      | CArray vs \<Rightarrow> rmap JArray (cbor_values_to_json_values vs)
      | CMap m \<Rightarrow> rmap (\<lambda>es. JObject (json_map_of_entries es)) (cbor_entries_to_json_entries m)
      | CTag _ _ \<Rightarrow> Inl ''Can't convert CBOR to JSON: unknown type'')"
| "cbor_values_to_json_values [] = Inr []"
| "cbor_values_to_json_values (v # vs) =
     rbind (cbor_value_to_json_value v) (\<lambda>j. rmap ((#) j) (cbor_values_to_json_values vs))"
| "cbor_entries_to_json_entries [] = Inr []"
| "cbor_entries_to_json_entries ((k, v) # es) =
     rbind (ok_or ''Expect key to be a string'' (as_text k)) (\<lambda>s.
     rbind (cbor_value_to_json_value v) (\<lambda>j. rmap ((#) (s, j)) (cbor_entries_to_json_entries es)))"

definition cbor_map_to_json_map :: "cbor_map \<Rightarrow> string + json" where
  "cbor_map_to_json_map m = rmap (\<lambda>es. JObject (json_map_of_entries es)) (cbor_entries_to_json_entries m)"

section \<open>Messages of errors\<close>

fun structure_error_display :: "structure_error \<Rightarrow> string" where
  "structure_error_display (InvalidProtocolVersion s) = ''invalid protocol version error: '' @ s"
| "structure_error_display (InvalidCBOR s) = ''invalid cbor error: '' @ s"
| "structure_error_display (KeyWrongType s) = ''key wrong type error: '' @ s"
| "structure_error_display (KeyWrongBounds s) = ''key out of bounds error: '' @ s"
| "structure_error_display (ValueWrongType s) = ''value wrong type error: '' @ s"

fun contract_error_display :: "contract_error \<Rightarrow> string" where
  "contract_error_display (ContractMissingRequiredKey s) = ''missing required key: '' @ s"
| "contract_error_display (ContractFieldRequirementUnmet s) = ''field requirement unmet: '' @ s"
| "contract_error_display (ContractKeyWrongType s) = ''key wrong type error: '' @ s"
| "contract_error_display (ContractValueWrongType s) = ''value wrong type error: '' @ s"
| "contract_error_display (ValueDecodingError s) = ''value decoding error: '' @ s"
| "contract_error_display (EncodingDataStructureNotSupported s) = ''encoding data structure not supported error: '' @ s"
| "contract_error_display (InvalidContractStructure s) = ''invalid contract structure: '' @ s"
| "contract_error_display (DocumentTypeNotFound s) = ''document type not found: '' @ s"
| "contract_error_display (DocumentTypeFieldNotFound s) = ''document type field not found: '' @ s"
| "contract_error_display (ReferenceDefinitionNotFound s) = ''reference definition not found error: '' @ s"
| "contract_error_display (DocumentOwnerIdMissing s) = ''document owner id missing error: '' @ s"
| "contract_error_display (DocumentIdMissing s) = ''document id missing error: '' @ s"
| "contract_error_display (ContractUnsupported s) = ''Operation not supported: '' @ s"
| "contract_error_display (ContractCorruptedSerialization s) = ''Corrupted Serialization: '' @ s"
| "contract_error_display (ContractStructureError e) = structure_error_display e"
| "contract_error_display (ContractProtocolError s) = ''Protocol Error: '' @ s"

definition decoding_error :: "string \<Rightarrow> error" where
  "decoding_error s = ContractErr (ContractProtocolError (''Decoding Error - '' @ s))"

text \<open>\<open>map_err(|e| ProtocolError::ParsingError(e.to_string()))\<close>; a panic is not an error value.\<close>

fun parsing_error :: "error \<Rightarrow> error" where
  "parsing_error (ContractErr e) = ContractErr (ContractProtocolError (''Parsing error: '' @ contract_error_display e))"
| "parsing_error e = e"

section \<open>Entries of the decoded map\<close>

definition value_to_bytes :: "(string \<Rightarrow> bytes option) \<Rightarrow> cbor \<Rightarrow> error + bytes option" where
  "value_to_bytes bs58_decode v =
     (case v of
        CBytes b \<Rightarrow> Inr (Some b)
      | CText t \<Rightarrow> Inr (bs58_decode t)
      | CArray a \<Rightarrow> rmap Some (mapM (byte_of_cbor (decoding_error ''expected u8 value'') (decoding_error ''not an array of integers'')) a)
      | _ \<Rightarrow> Inl (decoding_error ''system value is incorrect type''))"

definition map_values_to_bytes :: "(string \<Rightarrow> bytes option) \<Rightarrow> (string, cbor) btree \<Rightarrow> string \<Rightarrow> error + bytes option" where
  "map_values_to_bytes bs58_decode document key =
     (case bt_get key document of Some v \<Rightarrow> value_to_bytes bs58_decode v | None \<Rightarrow> Inr None)"

definition get_identifier :: "(string \<Rightarrow> bytes option) \<Rightarrow> (string, cbor) btree \<Rightarrow> string \<Rightarrow> error + id32" where
  "get_identifier bs58_decode m key =
     rbind (map_values_to_bytes bs58_decode m key) (\<lambda>b.
     rbind (ok_or (decoding_error (''unable to get '' @ key)) b) (\<lambda>bs.
       if length bs = 32 then Inr bs else Inl (decoding_error (key @ '' must be 32 bytes''))))"

definition get_string :: "(string, cbor) btree \<Rightarrow> string \<Rightarrow> error + string" where
  "get_string m key =
     rbind (ok_or (decoding_error (''unable to get '' @ key)) (bt_get key m)) (\<lambda>v.
       ok_or (decoding_error (''expect '' @ key @ '' to be a string'')) (as_text v))"

text \<open>The cast \<open>as u32\<close> keeps the low bits.\<close>

definition get_u32 :: "(string, cbor) btree \<Rightarrow> string \<Rightarrow> error + u32" where
  "get_u32 m key =
     rbind (ok_or (decoding_error (''unable to get '' @ key)) (bt_get key m)) (\<lambda>v.
     rbind (ok_or (decoding_error (''expect '' @ key @ '' to be an integer'')) (as_integer v)) (\<lambda>n.
       Inr (word_of_int n)))"

definition get_protocol_version :: "bytes \<Rightarrow> error + u32" where
  "get_protocol_version version_bytes =
     (case u32_from_be (rev version_bytes) of
        Some v \<Rightarrow> Inr v
      | None \<Rightarrow> Inl (ContractErr (ContractProtocolError ''Can't read protocol version from serialized object: length is not 4 bytes'')))"

section \<open>Binary properties\<close>

definition get_schema_property_type :: "(string \<times> json) list \<Rightarrow> string option" where
  "get_schema_property_type m = (case map_of m ''type'' of Some (JString st) \<Rightarrow> Some st | _ \<Rightarrow> None)"

definition is_type_of_byte_array :: "json \<Rightarrow> bool" where
  "is_type_of_byte_array j \<longleftrightarrow> (case j of JObject m \<Rightarrow> map_of m ''byteArray'' = Some (JBool True) | _ \<Rightarrow> False)"

fun decimal :: "nat \<Rightarrow> string" where
  "decimal n = (if n < 10 then [char_of (48 + n)] else decimal (n div 10) @ [char_of (48 + n mod 10)])"

definition array_path :: "string option \<Rightarrow> nat \<Rightarrow> string" where
  "array_path property_path i =
     (case property_path of Some path \<Rightarrow> path @ ''['' @ decimal i @ '']'' | None \<Rightarrow> decimal i)"

definition member_path :: "string option \<Rightarrow> string \<Rightarrow> string" where
  "member_path property_path key = (case property_path of Some path \<Rightarrow> path @ ''.'' @ key | None \<Rightarrow> key)"

text \<open>An entry of an object is smaller than the object.\<close>

lemma size_of_entry: "map_of m k = Some v \<Longrightarrow> size v < size_list (size_prod (\<lambda>_. 0) size) m"
  by (induction m) (auto split: if_splits)

function build_binary_properties_map :: "json \<Rightarrow> string option \<Rightarrow> (string, json) btree \<Rightarrow> (string, json) btree"
and visit_array :: "json list \<Rightarrow> nat \<Rightarrow> string option \<Rightarrow> (string, json) btree \<Rightarrow> (string, json) btree"
and visit_map :: "(string \<times> json) list \<Rightarrow> string option \<Rightarrow> (string, json) btree \<Rightarrow> (string, json) btree"
and visit_members :: "(string \<times> json) list \<Rightarrow> string option \<Rightarrow> (string, json) btree \<Rightarrow> (string, json) btree" where
  "build_binary_properties_map json_schema property_path binary_paths =
     (let binary_paths =
        (case json_schema of
           JObject m \<Rightarrow>
             (if get_schema_property_type m = Some ''object'' then visit_map m property_path binary_paths
              else if get_schema_property_type m = Some ''array''
              then (case map_of m ''items'' of
                      Some (JObject array_items) \<Rightarrow>
                        if get_schema_property_type array_items = Some ''object'' then visit_map array_items property_path binary_paths
                        else binary_paths
                    | Some (JArray array_items) \<Rightarrow> visit_array array_items 0 property_path binary_paths
                    | _ \<Rightarrow> binary_paths)
              else binary_paths)
         | _ \<Rightarrow> binary_paths)
      in if is_type_of_byte_array json_schema
         then bt_insert (case property_path of Some p \<Rightarrow> p | None \<Rightarrow> []) json_schema binary_paths
         else binary_paths)"
| "visit_array [] i property_path binary_paths = binary_paths"
| "visit_array (v # vs) i property_path binary_paths =
     visit_array vs (Suc i) property_path (build_binary_properties_map v (Some (array_path property_path i)) binary_paths)"
| "visit_map m property_path binary_paths =
     (case map_of m ''properties'' of Some (JObject ps) \<Rightarrow> visit_members ps property_path binary_paths | _ \<Rightarrow> binary_paths)"
| "visit_members [] property_path binary_paths = binary_paths"
| "visit_members ((k, v) # es) property_path binary_paths =
     visit_members es property_path (build_binary_properties_map v (Some (member_path property_path k)) binary_paths)"
  by pat_completeness auto

termination
  by (relation "measure (\<lambda>x. case x of
      Inl (Inl (j, _)) \<Rightarrow> size j
    | Inl (Inr (vs, _)) \<Rightarrow> size_list size vs
    | Inr (Inl (m, _)) \<Rightarrow> size_list (size_prod (\<lambda>_. 0) size) m
    | Inr (Inr (m, _)) \<Rightarrow> size_list (size_prod (\<lambda>_. 0) size) m)")
    (auto dest!: size_of_entry)

definition get_binary_properties :: "json \<Rightarrow> (string, json) btree" where
  "get_binary_properties json_schema =
     (case json_schema of
        JObject m \<Rightarrow>
          (case map_of m ''properties'' of
             Some (JObject schema_properties) \<Rightarrow>
               foldl (\<lambda>acc e. build_binary_properties_map (snd e) (Some (fst e)) acc) [] schema_properties
           | _ \<Rightarrow> [])
      | _ \<Rightarrow> [])"

definition generate_binary_properties :: "(string, json) btree \<Rightarrow> (string, (string, json) btree) btree" where
  "generate_binary_properties schemas = map (\<lambda>e. (fst e, get_binary_properties (snd e))) schemas"

section \<open>Contracts\<close>

definition anyhow_error :: "string \<Rightarrow> error" where
  "anyhow_error s = ContractErr (ContractProtocolError s)"

text \<open>The entries of \<open>$defs\<close> and of \<open>documents\<close> as JSON.\<close>

definition json_entry :: "string \<Rightarrow> cbor \<times> cbor \<Rightarrow> error + (string \<times> json)" where
  "json_entry not_text e =
     rbind (ok_or (decoding_error not_text) (as_text (fst e))) (\<lambda>k.
     rbind (map_err anyhow_error (cbor_value_to_json_value (snd e))) (\<lambda>j. Inr (k, j)))"

definition json_entries :: "string \<Rightarrow> cbor_map \<Rightarrow> error + (string, json) btree" where
  "json_entries not_text m =
     rmap (foldl (\<lambda>acc e. bt_insert (fst e) (snd e) acc) []) (mapM (json_entry not_text) m)"

definition contract_defs :: "(string, cbor) btree \<Rightarrow> error + (string, json) btree" where
  "contract_defs m =
     (case Option.bind (bt_get ''$defs'' m) as_map of
        None \<Rightarrow> Inr []
      | Some cbor_map \<Rightarrow> json_entries ''Expect $defs keys to be strings'' cbor_map)"

definition contract_documents :: "(string, cbor) btree \<Rightarrow> error + (string, json) btree" where
  "contract_documents m =
     rbind (ok_or (decoding_error ''unable to get documents'') (bt_get ''documents'' m)) (\<lambda>v.
     rbind (ok_or (decoding_error ''documents must be a map'') (as_map v)) (\<lambda>es.
       json_entries ''expect document type to be a string'' es))"

text \<open>
  The schema of a document type may refer to itself and recurse forever, which overflows the stack; the
  first argument bounds the depth of the recursion.
\<close>

definition data_contract_from_cbor ::
    "nat \<Rightarrow> (bytes \<Rightarrow> (string, cbor) btree option) \<Rightarrow> (string \<Rightarrow> bytes option) \<Rightarrow> bytes \<Rightarrow> error + json data_contract" where
  "data_contract_from_cbor stack cbor_decode bs58_decode cbor_bytes =
     (if length cbor_bytes < 4 then Inl (Panic ''mid > len'')
      else
        rbind (get_protocol_version (take 4 cbor_bytes)) (\<lambda>pv.
        rbind (ok_or (decoding_error ''unable to decode contract'') (cbor_decode (drop 4 cbor_bytes))) (\<lambda>m.
        rbind (get_identifier bs58_decode m ''$id'') (\<lambda>cid.
        rbind (get_identifier bs58_decode m ''ownerId'') (\<lambda>owner.
        rbind (get_string m ''$schema'') (\<lambda>sch.
        rbind (get_u32 m ''version'') (\<lambda>ver.
        rbind (contract_defs m) (\<lambda>ds.
        rbind (contract_documents m) (\<lambda>docs.
        rbind (map_err (\<lambda>e. parsing_error (ContractErr e)) (get_mutability m)) (\<lambda>cfg.
        rbind (case get_document_types stack m (get_definitions m) (documents_keep_history_contract_default cfg)
                      (documents_mutable_contract_default cfg) of
                 Some r \<Rightarrow> map_err parsing_error r
               | None \<Rightarrow> Inl (Panic ''stack overflow'')) (\<lambda>types.
          Inr \<lparr>protocol_version = pv, contract_id = cid, schema = sch, version = ver, contract_owner_id = owner,
               documents = docs, defs = ds, metadata = None, entropy = replicate 32 0,
               binary_properties = generate_binary_properties docs, contract_config = cfg,
               document_types = types\<rparr>)))))))))))"

text \<open>\<open>DriveContractExt::from_cbor\<close>: an id that is given replaces the one that was read.\<close>

definition contract_from_cbor ::
    "nat \<Rightarrow> (bytes \<Rightarrow> (string, cbor) btree option) \<Rightarrow> (string \<Rightarrow> bytes option) \<Rightarrow> bytes \<Rightarrow> id32 option \<Rightarrow>
     error + json data_contract" where
  "contract_from_cbor stack cbor_decode bs58_decode contract_cbor cid =
     rmap (\<lambda>c. case cid of Some i \<Rightarrow> c\<lparr>contract_id := i\<rparr> | None \<Rightarrow> c)
       (data_contract_from_cbor stack cbor_decode bs58_decode contract_cbor)"

section \<open>A contract that was read is consistent\<close>

lemma bt_same_keys:
  assumes "bt_wf m" "bt_wf m'" "fst ` set m = fst ` set m'"
  shows "map fst m = map fst m'"
proof (rule sorted_distinct_set_unique)
  show "sorted (map fst m)" "sorted (map fst m')" using assms by (simp_all add: bt_wf_def strict_sorted_iff)
  show "distinct (map fst m)" "distinct (map fst m')" using assms by (simp_all add: bt_wf_distinct)
  show "set (map fst m) = set (map fst m')" using assms(3) by simp
qed

lemma bt_collect_keys:
  "fst ` set (foldl (\<lambda>acc e. bt_insert (fst e) (snd e) acc) acc es) = fst ` set acc \<union> fst ` set es"
  by (induction es arbitrary: acc) (auto simp: fst_set_bt_insert)

definition text_keys :: "cbor_map \<Rightarrow> string set" where
  "text_keys m = {s. CText s \<in> fst ` set m}"

lemma as_text_eq: "as_text k = Some s \<longleftrightarrow> k = CText s"
  by (cases k) auto

lemma text_keys_simps [simp]: "text_keys [] = {}" "fst e = CText s \<Longrightarrow> text_keys (e # m) = insert s (text_keys m)"
  by (auto simp: text_keys_def)

lemma json_entry_key: "json_entry msg e = Inr x \<Longrightarrow> fst e = CText (fst x)"
  by (auto simp: json_entry_def rbind_eq_Inr ok_or_def as_text_eq split: option.splits)

lemma json_entries_keys:
  assumes "json_entries msg m = Inr docs"
  shows "bt_wf docs" "fst ` set docs = text_keys m"
proof -
  obtain es where es: "mapM (json_entry msg) m = Inr es" and docs: "docs = foldl (\<lambda>acc e. bt_insert (fst e) (snd e) acc) [] es"
    using assms by (auto simp: json_entries_def rmap_def split: sum.splits)
  have "fst ` set es = text_keys m"
    using es
  proof (induction m arbitrary: es)
    case (Cons e m)
    then obtain x xs where "json_entry msg e = Inr x" "mapM (json_entry msg) m = Inr xs" "es = x # xs" by (auto simp: rbind_eq_Inr)
    with Cons.IH show ?case using json_entry_key by simp
  qed simp
  then show "bt_wf docs" "fst ` set docs = text_keys m" unfolding docs by (simp_all add: bt_collect_wf bt_collect_keys)
qed

lemma add_document_types_keys:
  assumes "add_document_types n ds keep mut m types = Some (Inr types')" "bt_wf types" "\<forall>(k, t) \<in> set types. type_name t = k"
  shows "bt_wf types' \<and> fst ` set types' = fst ` set types \<union> text_keys m \<and> (\<forall>(k, t) \<in> set types'. type_name t = k)"
  using assms
proof (induction n ds keep mut m types rule: add_document_types.induct)
  case (2 n ds keep mut k v es types)
  then obtain name em t where k: "k = CText name" and t: "document_type_from_cbor_value n name em ds keep mut = Some (Inr t)"
      "as_map v = Some em" and rest: "add_document_types n ds keep mut es (bt_insert name t types) = Some (Inr types')"
    by (auto simp: as_text_eq split: option.splits sum.splits bind_splits)
  have name: "type_name t = name"
    using t(1) by (auto simp: document_type_from_cbor_value_def rs_result Let_def split: option.splits sum.splits)
  have "\<forall>(k, t) \<in> set (bt_insert name t types). type_name t = k"
    using 2(4) name by (auto dest!: bt_insert_set)
  with "2.IH"[OF _ t(2,1)] rest k 2(3) show ?case by (simp add: bt_wf_insert fst_set_bt_insert)
qed simp

text \<open>C22: a contract that was read has identifiers of 32 bytes, a document type and a map of binary properties for
  each document schema and for nothing else, and every document type has the name it is filed under.\<close>

theorem contract_read_consistent:
  assumes "data_contract_from_cbor stack cbor_decode bs58_decode bs = Inr c"
  shows "length (contract_id c) = 32 \<and> length (contract_owner_id c) = 32 \<and> bt_wf (documents c) \<and>
    map fst (document_types c) = map fst (documents c) \<and> map fst (binary_properties c) = map fst (documents c) \<and>
    (\<forall>(name, dt) \<in> set (document_types c). type_name dt = name)"
proof -
  obtain m keep mut where ids: "get_identifier bs58_decode m ''$id'' = Inr (contract_id c)"
      "get_identifier bs58_decode m ''ownerId'' = Inr (contract_owner_id c)"
    and docs: "contract_documents m = Inr (documents c)" "binary_properties c = generate_binary_properties (documents c)"
    and types: "get_document_types stack m (get_definitions m) keep mut = Some (Inr (document_types c))"
    using assms by (auto simp: data_contract_from_cbor_def rs_result split: if_splits option.splits)
  obtain es where es: "bt_get ''documents'' m = Some (CMap es)" "json_entries ''expect document type to be a string'' es = Inr (documents c)"
    using docs(1) by (auto simp: contract_documents_def rbind_eq_Inr ok_or_def split: option.splits elim!: as_map.elims)
  have "add_document_types stack (get_definitions m) keep mut es [] = Some (Inr (document_types c))"
    using types es(1) by (auto simp: get_document_types_def)
  from add_document_types_keys[OF this]
  have types: "bt_wf (document_types c)" "fst ` set (document_types c) = text_keys es"
      "\<forall>(name, dt) \<in> set (document_types c). type_name dt = name" by simp_all
  note docs' = json_entries_keys[OF es(2)]
  have "map fst (document_types c) = map fst (documents c)"
    by (rule bt_same_keys[OF types(1) docs'(1)]) (simp only: types(2) docs'(2))
  moreover have "length (contract_id c) = 32" "length (contract_owner_id c) = 32"
    using ids by (auto simp: get_identifier_def rbind_eq_Inr split: if_splits)
  ultimately show ?thesis using docs(2) docs'(1) types(3) by (simp add: generate_binary_properties_def)
qed

definition note_contract :: "(string, cbor) btree" where
  "note_contract =
     [(''$id'', CBytes (replicate 32 1)), (''$schema'', CText ''schema''),
      (''documents'', CMap [(CText ''note'', CMap [(CText ''type'', CText ''object''),
         (CText ''properties'', CMap [(CText ''message'', CMap [(CText ''type'', CText ''string'')])])])]),
      (''ownerId'', CBytes (replicate 32 2)), (''version'', CInteger 1)]"

theorem contract_read_consistent_witness:
  "\<exists>c. data_contract_from_cbor 3 (\<lambda>_. Some note_contract) (\<lambda>_. None) [1, 0, 0, 0] = Inr c \<and>
     map fst (documents c) = [''note''] \<and> map fst (document_types c) = [''note'']"
proof -
  have "isl (data_contract_from_cbor 3 (\<lambda>_. Some note_contract) (\<lambda>_. None) [1, 0, 0, 0]) = False" by code_simp
  then obtain c where c: "data_contract_from_cbor 3 (\<lambda>_. Some note_contract) (\<lambda>_. None) [1, 0, 0, 0] = Inr c"
    by (cases "data_contract_from_cbor 3 (\<lambda>_. Some note_contract) (\<lambda>_. None) [1, 0, 0, 0]") auto
  moreover have "map_option (\<lambda>c. map fst (documents c)) (case data_contract_from_cbor 3 (\<lambda>_. Some note_contract) (\<lambda>_. None) [1, 0, 0, 0] of
      Inr c \<Rightarrow> Some c | Inl _ \<Rightarrow> None) = Some [''note'']" by code_simp
  ultimately show ?thesis using contract_read_consistent[OF c] by simp
qed

end
