(* ===== verification/ContractStore.thy ===== *)
theory ContractStore
  imports DocStore ContractCache ContractData
begin

text \<open>
  Contract storage: \<open>drive/src/drive/contract/mod.rs\<close>. A contract is stored under its id at key 0, or,
  when it keeps history, under the time of its block in a tree at key 0; the trees of its document types
  and of the first properties of their indexes are made with it. Contracts are read through the cache, which is
  returned with every result, also with an error. A transaction is the database it sees and its address.
\<close>

section \<open>Paths\<close>

definition contract_root_path :: "bytes \<Rightarrow> path" where
  "contract_root_path i = [root_key ContractDocuments, i]"

definition contract_keeping_history_storage_path :: "bytes \<Rightarrow> path" where
  "contract_keeping_history_storage_path i = [root_key ContractDocuments, i, [0]]"

definition contract_keeping_history_storage_time_reference_path :: "bytes \<Rightarrow> bytes \<Rightarrow> path" where
  "contract_keeping_history_storage_time_reference_path i encoded_time = [root_key ContractDocuments, i, [0], encoded_time]"

definition contract_documents_path :: "bytes \<Rightarrow> path" where
  "contract_documents_path i = [root_key ContractDocuments, i, [1]]"

section \<open>Insertion\<close>

fun element_get_flags :: "element \<Rightarrow> element_flags option" where
  "element_get_flags (Item _ f) = f"
| "element_get_flags (Reference _ _ f) = f"
| "element_get_flags (Tree _ f) = f"

definition add_contract_to_storage :: "'db drive \<Rightarrow> element \<Rightarrow> 'j data_contract \<Rightarrow> storage_block_info \<Rightarrow> bool \<Rightarrow> drive_ops \<Rightarrow>
    error + drive_ops" where
  "add_contract_to_storage d contract_element contract block apply ops =
     (let root = contract_root_path (contract_id contract)
      in if keeps_history (contract_config contract)
         then
           (let flags = element_get_flags contract_element; encoded_time = encode_unsigned_integer (time_ms block);
                history_path = contract_keeping_history_storage_path (contract_id contract)
            in rbind (from_some_element_flags_ref (varint d) flags) (\<lambda>storage_flags.
               rbind (batch_insert_empty_tree d root (KeyRef [0]) storage_flags ops) (\<lambda>ops.
               rbind (batch_insert (PathFixedSizeKeyElement history_path encoded_time contract_element) ops) (\<lambda>ops.
                 batch_insert
                   (if apply
                    then PathFixedSizeKeyElement history_path [0] (Reference (SiblingReference encoded_time) (Some 1) flags)
                    else PathKeyElementSize BASE_CONTRACT_KEEPING_HISTORY_STORAGE_PATH_SIZE 1
                           (BASE_CONTRACT_KEEPING_HISTORY_STORAGE_PATH_SIZE + DEFAULT_FLOAT_SIZE)) ops))))
         else
           batch_insert
             (if apply then PathFixedSizeKeyElement root [0] contract_element
              else PathKeyElementSize BASE_CONTRACT_ROOT_PATH_SIZE 1 (gdb_byte_size (grove d) contract_element)) ops)"

text \<open>The tree of each top level property, once.\<close>

definition insert_index_tree_once :: "(bytes \<Rightarrow> drive_ops \<Rightarrow> error + drive_ops) \<Rightarrow> bytes set \<times> drive_ops \<Rightarrow> index_property \<Rightarrow>
    error + (bytes set \<times> drive_ops)" where
  "insert_index_tree_once insert_tree st ix =
     (case st of (index_cache, ops) \<Rightarrow>
        let index_bytes = string_bytes (property_name ix)
        in if index_bytes \<in> index_cache then Inr st
           else rbind (insert_tree index_bytes ops) (\<lambda>ops. Inr (insert index_bytes index_cache, ops)))"

definition insert_index_trees :: "(bytes \<Rightarrow> drive_ops \<Rightarrow> error + drive_ops) \<Rightarrow> document_type \<Rightarrow> drive_ops \<Rightarrow> error + drive_ops" where
  "insert_index_trees insert_tree dt ops =
     rmap snd (foldM (insert_index_tree_once insert_tree) ({}, ops) (top_level_indices dt))"

definition insert_document_type :: "'db drive \<Rightarrow> bytes \<Rightarrow> storage_flags option \<Rightarrow> drive_key_info \<Rightarrow> drive_ops \<Rightarrow>
    string \<times> document_type \<Rightarrow> error + drive_ops" where
  "insert_document_type d cid storage_flags primary_key ops e =
     (let type_key = string_bytes (fst e); type_path = contract_documents_path cid @ [type_key]
      in rbind (batch_insert_empty_tree d (contract_documents_path cid) (KeyRef type_key) storage_flags ops) (\<lambda>ops.
         rbind (batch_insert_empty_tree d type_path primary_key storage_flags ops) (\<lambda>ops.
           insert_index_trees (\<lambda>index_bytes. batch_insert_empty_tree d type_path (KeyRef index_bytes) storage_flags)
             (snd e) ops)))"

definition insert_contract_operations :: "'db drive \<Rightarrow> element \<Rightarrow> 'j data_contract \<Rightarrow> storage_block_info \<Rightarrow> bool \<Rightarrow>
    error + drive_ops" where
  "insert_contract_operations d contract_element contract block apply =
     (let cid = contract_id contract
      in rbind (from_some_element_flags_ref (varint d) (element_get_flags contract_element)) (\<lambda>storage_flags.
         rbind (batch_insert_empty_tree d [root_key ContractDocuments] (KeyRef cid) storage_flags []) (\<lambda>ops.
         rbind (add_contract_to_storage d contract_element contract block apply ops) (\<lambda>ops.
         rbind (batch_insert_empty_tree d (contract_root_path cid) (if apply then KeyRef [1] else KeySize 1) storage_flags ops) (\<lambda>ops.
           foldM (insert_document_type d cid storage_flags (if apply then KeyRef [0] else KeySize 1)) ops
             (document_types contract))))))"

definition insert_contract_element :: "'db drive \<Rightarrow> 'db \<Rightarrow> element \<Rightarrow> 'j data_contract \<Rightarrow> storage_block_info \<Rightarrow> bool \<Rightarrow>
    drive_ops \<Rightarrow> error + ('db \<times> drive_ops)" where
  "insert_contract_element d db contract_element contract block apply ops =
     rbind (insert_contract_operations d contract_element contract block apply) (\<lambda>batch_operations.
       apply_batch_drive_operations d db apply batch_operations ops)"

definition insert_contract_add_operations :: "'db drive \<Rightarrow> element \<Rightarrow> 'j data_contract \<Rightarrow> storage_block_info \<Rightarrow> bool \<Rightarrow>
    drive_ops \<Rightarrow> error + drive_ops" where
  "insert_contract_add_operations d contract_element contract block apply ops =
     rmap (\<lambda>batch_operations. ops @ batch_operations) (insert_contract_operations d contract_element contract block apply)"

text \<open>What contracts and documents are decoded with, and the depth of the stack.\<close>

record contract_codecs =
  stack_depth :: nat
  cbor_decoder :: "bytes \<Rightarrow> (string, cbor) btree option"
  base58_decoder :: "string \<Rightarrow> bytes option"

definition read_contract :: "contract_codecs \<Rightarrow> bytes \<Rightarrow> id32 option \<Rightarrow> error + json data_contract" where
  "read_contract E = contract_from_cbor (stack_depth E) (cbor_decoder E) (base58_decoder E)"

definition insert_contract_cbor :: "contract_codecs \<Rightarrow> 'db drive \<Rightarrow> 'db \<Rightarrow> bytes \<Rightarrow> id32 option \<Rightarrow> storage_block_info \<Rightarrow>
    bool \<Rightarrow> error + ('db \<times> fee_result)" where
  "insert_contract_cbor E d db contract_cbor cid block apply =
     rbind (read_contract E contract_cbor cid) (\<lambda>contract.
       let storage_flags =
         (if can_be_deleted (contract_config contract) \<or> \<not> readonly (contract_config contract)
          then Some (new_single_epoch (index (block_epoch block)) (Some (contract_owner_id contract))) else None)
       in rbind (insert_contract_element d db (Item contract_cbor (map_to_some_element_flags (varint d) storage_flags))
                   contract block apply []) (\<lambda>(db, ops).
          rbind (drive_fee d ops block) (\<lambda>fee. Inr (db, fee))))"

section \<open>Reading\<close>

definition epoch_fee :: "'db drive \<Rightarrow> drive_ops \<Rightarrow> epoch \<Rightarrow> error + fee_result" where
  "epoch_fee d ops epoch =
     calculate_fee (im_insert d) (im_remove d) (GroveOps.total_removed_bytes d) None (Some ops) epoch"

text \<open>The contract with the cost of reading it.\<close>

definition fetch_contract :: "contract_codecs \<Rightarrow> 'db drive \<Rightarrow> 'db \<Rightarrow> bytes \<Rightarrow> epoch option \<Rightarrow>
    (error + json contract_fetch_info option) \<times> operation_cost" where
  "fetch_contract E d db cid epoch =
     (let cost = gdb_cost_get (grove d) db (contract_root_path cid) [0]
      in (case gdb_get (grove d) db (contract_root_path cid) [0] of
            Inr (Item stored_contract_bytes element_flag) \<Rightarrow>
              rbind (read_contract E stored_contract_bytes None) (\<lambda>contract.
              rbind (case epoch of
                       Some e \<Rightarrow> rmap Some (epoch_fee d [CalculatedCostOperation cost] e)
                     | None \<Rightarrow> Inr None) (\<lambda>fee.
              rbind (from_some_element_flags_ref (varint d) element_flag) (\<lambda>storage_flags.
                Inr (Some \<lparr>fetched_contract = contract, fetched_storage_flags = storage_flags, fetch_cost = cost,
                           fetch_fee = fee\<rparr>))))
          | Inr _ \<Rightarrow> Inl (DriveErr (CorruptedContractPath ''contract path did not refer to a contract element''))
          | Inl e \<Rightarrow> if not_found e then Inr None else Inl (GroveDB e), cost))"

definition fetch_contract_and_add_operations :: "contract_codecs \<Rightarrow> 'db drive \<Rightarrow> 'db \<Rightarrow> bytes \<Rightarrow> epoch option \<Rightarrow> drive_ops \<Rightarrow>
    error + (json contract_fetch_info option \<times> drive_ops)" where
  "fetch_contract_and_add_operations E d db cid epoch ops =
     (case fetch_contract E d db cid epoch of (result, cost) \<Rightarrow>
        rbind result (\<lambda>maybe_contract_fetch_info.
          case maybe_contract_fetch_info of
            Some contract_fetch_info \<Rightarrow>
              (if epoch = None then Inr (maybe_contract_fetch_info, ops)
               else
                 rbind (ok_or (corrupted
                          ''should be impossible to not have fee on something just fetched with an epoch'')
                          (fetch_fee contract_fetch_info)) (\<lambda>fee.
                   Inr (maybe_contract_fetch_info, ops @ [PreCalculatedFeeResult fee])))
          | None \<Rightarrow> Inr (None, if epoch = None then ops else ops @ [CalculatedCostOperation cost])))"

text \<open>Through the cache: what was fetched is cached, and so is a fee computed for a cached contract.\<close>

definition get_contract_with_fetch_info_and_add_to_operations :: "('c, json contract_fetch_info) cache_ops \<Rightarrow> contract_codecs \<Rightarrow>
    'db drive \<Rightarrow> 'db \<Rightarrow> 'c data_contract_cache \<Rightarrow> bytes \<Rightarrow> epoch option \<Rightarrow> u64 option \<Rightarrow> drive_ops \<Rightarrow>
    'c data_contract_cache \<times> (error + (json contract_fetch_info option \<times> drive_ops))" where
  "get_contract_with_fetch_info_and_add_to_operations M E d db cache cid epoch tx ops =
     (case contract_cache_get M cache cid tx of
        None \<Rightarrow>
          (case fetch_contract_and_add_operations E d db cid epoch ops of
             Inr (Some contract_fetch_info, ops) \<Rightarrow>
               (contract_cache_insert M cache contract_fetch_info tx, Inr (Some contract_fetch_info, ops))
           | r \<Rightarrow> (cache, r))
      | Some contract_fetch_info \<Rightarrow>
          (case epoch of
             None \<Rightarrow> (cache, Inr (Some contract_fetch_info, ops))
           | Some e \<Rightarrow>
               (case fetch_fee contract_fetch_info of
                  Some known_fee \<Rightarrow> (cache, Inr (Some contract_fetch_info, ops @ [PreCalculatedFeeResult known_fee]))
                | None \<Rightarrow>
                    (case epoch_fee d [CalculatedCostOperation (fetch_cost contract_fetch_info)] e of
                       Inl err \<Rightarrow> (cache, Inl err)
                     | Inr fee \<Rightarrow>
                         (contract_cache_insert M cache (contract_fetch_info\<lparr>fetch_fee := Some fee\<rparr>) tx,
                          Inr (Some contract_fetch_info, ops @ [PreCalculatedFeeResult fee]))))))"

definition get_contract_with_fetch_info :: "('c, json contract_fetch_info) cache_ops \<Rightarrow> contract_codecs \<Rightarrow>
    'db drive \<Rightarrow> 'db \<Rightarrow> 'c data_contract_cache \<Rightarrow> bytes \<Rightarrow> epoch option \<Rightarrow> u64 option \<Rightarrow>
    'c data_contract_cache \<times> (error + json contract_fetch_info option)" where
  "get_contract_with_fetch_info M E d db cache cid epoch tx =
     map_prod id (rmap fst) (get_contract_with_fetch_info_and_add_to_operations M E d db cache cid epoch tx [])"

definition get_cached_contract_with_fetch_info :: "('c, 'v) cache_ops \<Rightarrow> 'c data_contract_cache \<Rightarrow> bytes \<Rightarrow> u64 option \<Rightarrow>
    'v option" where
  "get_cached_contract_with_fetch_info M cache cid tx = contract_cache_get M cache cid tx"

section \<open>Update\<close>

definition immutable_contract :: "string \<Rightarrow> error" where
  "immutable_contract s = DriveErr (UpdatingReadOnlyImmutableContract s)"

text \<open>What an update may not change of the configuration.\<close>

definition check_contract_update :: "'j data_contract \<Rightarrow> 'j data_contract \<Rightarrow> error + unit" where
  "check_contract_update contract original_contract =
     (let new = contract_config contract; old = contract_config original_contract
      in if readonly old then Inl (immutable_contract ''contract is readonly'')
         else if readonly new
         then Inl (DriveErr (ChangingContractToReadOnly ''contract can not be changed to readonly''))
         else if keeps_history new \<noteq> keeps_history old
         then Inl (DriveErr (ChangingContractKeepsHistory ''contract can not change whether it keeps history''))
         else if documents_keep_history_contract_default new \<noteq> documents_keep_history_contract_default old
         then Inl (DriveErr (ChangingContractDocumentsKeepsHistoryDefault
                ''contract can not change the default of whether documents keeps history''))
         else if documents_mutable_contract_default new \<noteq> documents_mutable_contract_default old
         then Inl (DriveErr (ChangingContractDocumentsMutabilityDefault
                ''contract can not change the default of whether documents are mutable''))
         else Inr ())"

text \<open>The trees of a document type that existed get those of new indexes; a new document type gets all.\<close>

definition update_document_type :: "'db drive \<Rightarrow> 'db \<Rightarrow> bytes \<Rightarrow> storage_flags option \<Rightarrow> bool \<Rightarrow>
    (string, document_type) btree \<Rightarrow> drive_ops \<Rightarrow> string \<times> document_type \<Rightarrow> error + drive_ops" where
  "update_document_type d db cid storage_flags apply original_types ops e =
     (case bt_get (fst e) original_types of
        Some original_document_type \<Rightarrow>
          if documents_mutable original_document_type \<noteq> documents_mutable (snd e)
          then Inl (DriveErr (ChangingDocumentTypeMutability
                 ''contract can not change whether a specific document type is mutable''))
          else if documents_keep_history original_document_type \<noteq> documents_keep_history (snd e)
          then Inl (DriveErr (ChangingDocumentTypeKeepsHistory
                 ''contract can not change whether a specific document type keeps history''))
          else
            insert_index_trees (\<lambda>index_bytes ops.
                rmap snd (batch_insert_empty_tree_if_not_exists d db
                  (PathFixedSizeKeyRef (contract_documents_path cid @ [string_bytes (fst e)]) index_bytes)
                  storage_flags apply ops))
              (snd e) ops
      | None \<Rightarrow> insert_document_type d cid storage_flags (KeyRef [0]) ops e)"

definition update_contract_operations :: "'db drive \<Rightarrow> 'db \<Rightarrow> element \<Rightarrow> 'j data_contract \<Rightarrow> 'j data_contract \<Rightarrow>
    storage_block_info \<Rightarrow> bool \<Rightarrow> error + drive_ops" where
  "update_contract_operations d db contract_element contract original_contract block apply =
     rbind (check_contract_update contract original_contract) (\<lambda>_.
     rbind (add_contract_to_storage d contract_element contract block apply []) (\<lambda>ops.
     rbind (from_some_element_flags_ref (varint d) (element_get_flags contract_element)) (\<lambda>storage_flags.
       foldM (update_document_type d db (contract_id contract) storage_flags apply (document_types original_contract)) ops
         (document_types contract))))"

definition update_contract_element :: "'db drive \<Rightarrow> 'db \<Rightarrow> element \<Rightarrow> 'j data_contract \<Rightarrow> 'j data_contract \<Rightarrow>
    storage_block_info \<Rightarrow> bool \<Rightarrow> drive_ops \<Rightarrow> error + ('db \<times> drive_ops)" where
  "update_contract_element d db contract_element contract original_contract block apply ops =
     rbind (update_contract_operations d db contract_element contract original_contract block apply) (\<lambda>batch_operations.
       apply_batch_drive_operations d db apply batch_operations ops)"

definition update_contract_add_operations :: "'db drive \<Rightarrow> 'db \<Rightarrow> element \<Rightarrow> 'j data_contract \<Rightarrow> 'j data_contract \<Rightarrow>
    storage_block_info \<Rightarrow> bool \<Rightarrow> drive_ops \<Rightarrow> error + drive_ops" where
  "update_contract_add_operations d db contract_element contract original_contract block apply ops =
     rmap (\<lambda>batch_operations. ops @ batch_operations)
       (update_contract_operations d db contract_element contract original_contract block apply)"

text \<open>After the update the contract is read from the database again and cached.\<close>

definition update_contract_cbor :: "('c, json contract_fetch_info) cache_ops \<Rightarrow> contract_codecs \<Rightarrow> 'db drive \<Rightarrow> 'db \<Rightarrow>
    'c data_contract_cache \<Rightarrow> bytes \<Rightarrow> id32 option \<Rightarrow> storage_block_info \<Rightarrow> bool \<Rightarrow> u64 option \<Rightarrow>
    'c data_contract_cache \<times> (error + ('db \<times> fee_result))" where
  "update_contract_cbor M E d db cache contract_cbor maybe_id block apply tx =
     (case read_contract E contract_cbor maybe_id of
        Inl e \<Rightarrow> (cache, Inl e)
      | Inr contract \<Rightarrow>
          (let cid = (case maybe_id of Some i \<Rightarrow> i | None \<Rightarrow> contract_id contract);
               flags = Some (new_single_epoch (index (block_epoch block)) (Some (contract_owner_id contract)));
               contract_element = Item contract_cbor (map_to_some_element_flags (varint d) flags);
               epoch = Some (block_epoch block)
           in case get_contract_with_fetch_info_and_add_to_operations M E d db cache cid epoch tx [] of
                (cache, r) \<Rightarrow>
                  (case rbind r (\<lambda>(original, ops).
                     rbind (ok_or (corrupted ''contract should exist'') original) (\<lambda>original.
                       if readonly (contract_config (fetched_contract original))
                       then Inl (immutable_contract ''original contract is readonly'')
                       else
                         rbind (update_contract_element d db contract_element contract (fetched_contract original) block apply ops)
                           (\<lambda>(db, ops).
                         rbind (fetch_contract_and_add_operations E d db cid epoch ops) (\<lambda>(updated, ops).
                         rbind (ok_or (corrupted ''contract should exist'') updated) (\<lambda>updated.
                           Inr (db, ops, updated)))))) of
                     Inl e \<Rightarrow> (cache, Inl e)
                   | Inr (db, ops, updated) \<Rightarrow>
                       (contract_cache_insert M cache updated tx,
                        rmap (\<lambda>fee. (db, fee)) (drive_fee d ops block)))))"

section \<open>Application\<close>

text \<open>
  Whether a contract is stored, and the bytes of another version of it. An error of the lookup means that there is
  none; the cost of the lookup is kept.
\<close>

definition stored_contract_element :: "'db drive \<Rightarrow> 'db \<Rightarrow> bytes \<Rightarrow> bool \<Rightarrow> element option \<times> drive_ops" where
  "stored_contract_element d db cid apply =
     (case grove_get_direct d db (contract_root_path cid) (KeyRefRequest [0])
             (if apply then None else Some CONTRACT_MAX_SERIALIZED_SIZE) [] of
        Inr r \<Rightarrow> r
      | Inl _ \<Rightarrow> (None, [CalculatedCostOperation (gdb_cost_get (grove d) db (contract_root_path cid) [0])]))"

definition apply_contract_operations :: "contract_codecs \<Rightarrow> 'db drive \<Rightarrow> 'db \<Rightarrow> json data_contract \<Rightarrow> bytes \<Rightarrow>
    storage_block_info \<Rightarrow> bool \<Rightarrow> storage_flags option \<Rightarrow> error + drive_ops" where
  "apply_contract_operations E d db contract contract_serialization block apply flags =
     (let contract_element = Item contract_serialization (map_to_some_element_flags (varint d) flags)
      in case stored_contract_element d db (contract_id contract) apply of
           (Some (Item stored_contract_bytes _), ops) \<Rightarrow>
             (if contract_serialization = stored_contract_bytes \<or> stored_contract_bytes = [] then Inr ops
              else
                rbind (read_contract E stored_contract_bytes None) (\<lambda>original_contract.
                  update_contract_add_operations d db contract_element contract original_contract block apply ops))
         | (_, ops) \<Rightarrow> insert_contract_add_operations d contract_element contract block apply ops)"

definition apply_contract :: "(operation_cost \<Rightarrow> operation_cost \<Rightarrow> operation_cost) \<Rightarrow> contract_codecs \<Rightarrow> 'db drive \<Rightarrow> 'db \<Rightarrow>
    json data_contract \<Rightarrow> bytes \<Rightarrow> storage_block_info \<Rightarrow> bool \<Rightarrow> storage_flags option \<Rightarrow> error + ('db \<times> fee_result)" where
  "apply_contract cost_add E d db contract contract_serialization block apply flags =
     rbind (apply_contract_operations E d db contract contract_serialization block apply flags) (\<lambda>batch_operations.
     rbind (apply_batch_drive_operations d db apply batch_operations []) (\<lambda>(db, cost_operations).
     rbind (drive_fee d (cost_operations @ [CalculatedCostOperation (combine_cost_operations cost_add batch_operations)]) block)
       (\<lambda>fee. Inr (db, fee))))"

definition apply_contract_cbor :: "(operation_cost \<Rightarrow> operation_cost \<Rightarrow> operation_cost) \<Rightarrow> contract_codecs \<Rightarrow> 'db drive \<Rightarrow> 'db \<Rightarrow>
    bytes \<Rightarrow> id32 option \<Rightarrow> storage_block_info \<Rightarrow> bool \<Rightarrow> storage_flags option \<Rightarrow> error + ('db \<times> fee_result)" where
  "apply_contract_cbor cost_add E d db contract_cbor cid block apply flags =
     rbind (read_contract E contract_cbor cid) (\<lambda>contract.
       apply_contract cost_add E d db contract contract_cbor block apply flags)"

end
