(* ===== verification/Conditions.thy ===== *)
theory Conditions
  imports Documents
begin

text \<open>
  Where and order clauses of document queries: \<open>drive/src/query/conditions.rs\<close> and \<open>ordering.rs\<close>. A list of
  clauses is grouped into equalities, one range and one \<open>in\<close> clause; a clause becomes a GroveDB query
  over the keys of an index, cut off at a start document. The keys selected are shown to be those the
  clause means, except where they are not. Clauses are also built from the syntax tree of the crate
  \<open>sqlparser\<close>, of which the datatypes have the variants the code matches. Arithmetic on bytes wraps, as it
  does without overflow checks.
\<close>

section \<open>Operators\<close>

datatype where_operator =
    Equal
  | GreaterThan
  | GreaterThanOrEquals
  | LessThan
  | LessThanOrEquals
  | Between
  | BetweenExcludeBounds
  | BetweenExcludeLeft
  | BetweenExcludeRight
  | In
  | StartsWith

fun allows_flip :: "where_operator \<Rightarrow> bool" where
  "allows_flip Equal = True"
| "allows_flip GreaterThan = True"
| "allows_flip GreaterThanOrEquals = True"
| "allows_flip LessThan = True"
| "allows_flip LessThanOrEquals = True"
| "allows_flip _ = False"

fun flip :: "where_operator \<Rightarrow> error + where_operator" where
  "flip Equal = Inr Equal"
| "flip GreaterThan = Inr LessThan"
| "flip GreaterThanOrEquals = Inr LessThanOrEquals"
| "flip LessThan = Inr GreaterThan"
| "flip LessThanOrEquals = Inr GreaterThanOrEquals"
| "flip In = Inl (Query (InvalidWhereClauseOrder ''In clause order invalid''))"
| "flip StartsWith = Inl (Query (InvalidWhereClauseOrder ''Startswith clause order invalid''))"
| "flip _ = Inl (Query (InvalidWhereClauseOrder ''Between clause order invalid''))"

definition is_range :: "where_operator \<Rightarrow> bool" where
  "is_range op \<longleftrightarrow> op \<noteq> Equal"

definition operator_from_string :: "string \<Rightarrow> where_operator option" where
  "operator_from_string s =
     (if s \<in> {''='', ''==''} then Some Equal
      else if s = ''>'' then Some GreaterThan
      else if s = ''>='' then Some GreaterThanOrEquals
      else if s = ''<'' then Some LessThan
      else if s = ''<='' then Some LessThanOrEquals
      else if s \<in> {''Between'', ''between''} then Some Between
      else if s \<in> {''BetweenExcludeBounds'', ''betweenExcludeBounds'', ''betweenexcludebounds'', ''between_exclude_bounds''}
        then Some BetweenExcludeBounds
      else if s \<in> {''BetweenExcludeLeft'', ''betweenExcludeLeft'', ''betweenexcludeleft'', ''between_exclude_left''}
        then Some BetweenExcludeLeft
      else if s \<in> {''BetweenExcludeRight'', ''betweenExcludeRight'', ''betweenexcluderight'', ''between_exclude_right''}
        then Some BetweenExcludeRight
      else if s \<in> {''In'', ''in''} then Some In
      else if s \<in> {''StartsWith'', ''startsWith'', ''startswith'', ''starts_with''} then Some StartsWith
      else None)"

section \<open>Clauses\<close>

record where_clause =
  wc_field :: string
  wc_operator :: where_operator
  wc_value :: cbor

definition is_identifier :: "where_clause \<Rightarrow> bool" where
  "is_identifier c \<longleftrightarrow> wc_field c = ''$id''"

text \<open>Equality of values: floats compare as numbers, so not every value equals itself.\<close>

definition f64_eq :: "f64 \<Rightarrow> f64 \<Rightarrow> bool" where
  "f64_eq a b \<longleftrightarrow> \<not> f64_is_nan a \<and> \<not> f64_is_nan b \<and> f64_signed a = f64_signed b"

function (sequential) cbor_eq :: "cbor \<Rightarrow> cbor \<Rightarrow> bool"
and cbors_eq :: "cbor list \<Rightarrow> cbor list \<Rightarrow> bool"
and cbor_maps_eq :: "cbor_map \<Rightarrow> cbor_map \<Rightarrow> bool" where
  "cbor_eq (CFloat a) (CFloat b) \<longleftrightarrow> f64_eq a b"
| "cbor_eq (CTag n a) (CTag m b) \<longleftrightarrow> n = m \<and> cbor_eq a b"
| "cbor_eq (CArray as) (CArray bs) \<longleftrightarrow> cbors_eq as bs"
| "cbor_eq (CMap as) (CMap bs) \<longleftrightarrow> cbor_maps_eq as bs"
| "cbor_eq a b \<longleftrightarrow> a = b"
| "cbors_eq [] [] \<longleftrightarrow> True"
| "cbors_eq (a # as) (b # bs) \<longleftrightarrow> cbor_eq a b \<and> cbors_eq as bs"
| "cbors_eq _ _ \<longleftrightarrow> False"
| "cbor_maps_eq [] [] \<longleftrightarrow> True"
| "cbor_maps_eq ((k, a) # as) ((l, b) # bs) \<longleftrightarrow> cbor_eq k l \<and> cbor_eq a b \<and> cbor_maps_eq as bs"
| "cbor_maps_eq _ _ \<longleftrightarrow> False"
  by pat_completeness auto
termination
  by (relation "measure (case_sum (\<lambda>(a, b). size a)
      (case_sum (\<lambda>(as, bs). size_list size as) (\<lambda>(as, bs). size_list (size_prod size size) as)))") auto

fun has_duplicates :: "cbor list \<Rightarrow> bool" where
  "has_duplicates [] = False"
| "has_duplicates (v # vs) \<longleftrightarrow> (\<exists>w \<in> set vs. cbor_eq w v) \<or> has_duplicates vs"

definition in_values :: "where_clause \<Rightarrow> error + cbor list" where
  "in_values c =
     rbind (ok_or (Query (InvalidInClause ''when using in operator you must provide an array of values''))
              (as_array (wc_value c))) (\<lambda>vs.
       if length vs = 0 then Inl (Query (InvalidInClause ''in clause must at least 1 value''))
       else if length vs > 100 then Inl (Query (InvalidInClause ''in clause must at most 100 values''))
       else if has_duplicates vs then Inl (Query (InvalidInClause ''there should be no duplicates values for In query''))
       else Inr vs)"

definition less_than :: "where_clause \<Rightarrow> where_clause \<Rightarrow> bool \<Rightarrow> error + bool" where
  "less_than c other allow_eq =
     (case (wc_value c, wc_value other) of
        (CInteger x, CInteger y) \<Rightarrow> Inr (if allow_eq then x \<le> y else x < y)
      | (CBytes x, CBytes y) \<Rightarrow> Inr (if allow_eq then x \<le> y else x < y)
      | (CFloat x, CFloat y) \<Rightarrow> Inr (if allow_eq then f64_less x y \<or> f64_eq x y else f64_less x y)
      | (CText x, CText y) \<Rightarrow> Inr (if allow_eq then x \<le> y else x < y)
      | _ \<Rightarrow> Inl (Query (RangeClausesNotGroupable ''range clauses can not be coherently grouped'')))"

definition invalid_components :: "string \<Rightarrow> error" where
  "invalid_components s = Query (InvalidWhereClauseComponents s)"

definition where_clause_from_components :: "cbor list \<Rightarrow> error + where_clause" where
  "where_clause_from_components components =
     (case components of
        [f, op, v] \<Rightarrow>
          rbind (ok_or (invalid_components ''first field of where component should be a string'') (as_text f)) (\<lambda>f.
          rbind (ok_or (invalid_components ''second field of where component should be a string'') (as_text op)) (\<lambda>s.
          rbind (ok_or (invalid_components ''second field of where component should be a known operator'')
                   (operator_from_string s)) (\<lambda>op.
            Inr \<lparr>wc_field = f, wc_operator = op, wc_value = v\<rparr>)))
      | _ \<Rightarrow> Inl (invalid_components ''where clauses should have at most 3 components''))"

section \<open>Grouping clauses\<close>

definition at_most_one :: "where_clause list \<Rightarrow> error + where_clause option" where
  "at_most_one cs =
     (case cs of
        [] \<Rightarrow> Inr None
      | [c] \<Rightarrow> Inr (Some c)
      | _ \<Rightarrow> Inl (Query (MultipleRangeClauses ''there can only at most one range clause with a lower bound'')))"

definition lower_bound_clause :: "where_clause list \<Rightarrow> error + where_clause option" where
  "lower_bound_clause cs = at_most_one (filter (\<lambda>c. wc_operator c \<in> {GreaterThan, GreaterThanOrEquals}) cs)"

definition upper_bound_clause :: "where_clause list \<Rightarrow> error + where_clause option" where
  "upper_bound_clause cs = at_most_one (filter (\<lambda>c. wc_operator c \<in> {LessThan, LessThanOrEquals}) cs)"

fun collect_equal_clauses :: "string set \<Rightarrow> where_clause list \<Rightarrow> error + (string set \<times> (string \<times> where_clause) list)" where
  "collect_equal_clauses known [] = Inr (known, [])"
| "collect_equal_clauses known (c # cs) =
     (if wc_field c \<in> known
      then Inl (Query (DuplicateNonGroupableClauseSameField ''duplicate equality fields''))
      else
        rbind (collect_equal_clauses (insert (wc_field c) known) cs) (\<lambda>(known, es).
          Inr (known, (wc_field c, c) # es)))"

definition group_in_clause :: "string set \<Rightarrow> where_clause list \<Rightarrow> error + (string set \<times> where_clause option)" where
  "group_in_clause known cs =
     (case cs of
        [] \<Rightarrow> Inr (known, None)
      | [c] \<Rightarrow>
          if wc_field c \<in> known
          then Inl (Query (DuplicateNonGroupableClauseSameField ''in clause has same field as an equality clause''))
          else Inr (insert (wc_field c) known, Some c)
      | _ \<Rightarrow> Inl (Query (MultipleInClauses ''There should only be one in clause'')))"

definition groupable :: "where_operator \<Rightarrow> bool" where
  "groupable op \<longleftrightarrow> op \<in> {GreaterThan, GreaterThanOrEquals, LessThan, LessThanOrEquals}"

definition non_groupable :: "where_operator \<Rightarrow> bool" where
  "non_groupable op \<longleftrightarrow> op \<in> {StartsWith, Between, BetweenExcludeBounds, BetweenExcludeRight, BetweenExcludeLeft}"

definition lower_upper_error :: error where
  "lower_upper_error = Query (RangeClausesNotGroupable ''lower and upper bounds must be passed if providing 2 ranges'')"

fun between_operator :: "where_operator \<Rightarrow> where_operator \<Rightarrow> where_operator option" where
  "between_operator GreaterThanOrEquals LessThanOrEquals = Some Between"
| "between_operator GreaterThanOrEquals LessThan = Some BetweenExcludeRight"
| "between_operator GreaterThan LessThanOrEquals = Some BetweenExcludeLeft"
| "between_operator GreaterThan LessThan = Some BetweenExcludeBounds"
| "between_operator _ _ = None"

text \<open>Two range clauses on one field become one.\<close>

definition group_bounds :: "string set \<Rightarrow> where_clause list \<Rightarrow> error + where_clause option" where
  "group_bounds known cs =
     (let first_field = wc_field (hd cs)
      in if first_field \<in> known
         then Inl (invalid_components ''a range clause has same field as an equality or in clause'')
         else if \<exists>z \<in> set cs. wc_field z \<noteq> first_field
         then Inl (Query (MultipleRangeClauses ''all ranges must be on same field''))
         else
           rbind (lower_bound_clause cs) (\<lambda>lower.
           rbind (ok_or lower_upper_error lower) (\<lambda>lower.
           rbind (upper_bound_clause cs) (\<lambda>upper.
           rbind (ok_or lower_upper_error upper) (\<lambda>upper.
           rbind (ok_or lower_upper_error (between_operator (wc_operator lower) (wc_operator upper))) (\<lambda>op.
           rbind (less_than upper lower (op = BetweenExcludeBounds)) (\<lambda>reversed.
             if reversed then Inl (Query (MultipleRangeClauses ''lower bounds must be under upper bounds''))
             else Inr (Some \<lparr>wc_field = first_field, wc_operator = op,
                             wc_value = CArray [wc_value lower, wc_value upper]\<rparr>))))))))"

definition group_range_clause :: "string set \<Rightarrow> where_clause list \<Rightarrow> where_clause list \<Rightarrow> error + where_clause option" where
  "group_range_clause known group_able non_group_able =
     (if non_group_able = [] then
        (case group_able of
           [] \<Rightarrow> Inr None
         | [c] \<Rightarrow>
             if wc_field c \<in> known then Inl (invalid_components ''in clause has same field as an equality clause'')
             else Inr (Some c)
         | [_, _] \<Rightarrow> group_bounds known group_able
         | _ \<Rightarrow> Inl (Query (MultipleRangeClauses
                  ''there can only be at most 2 range clauses that must be on the same field'')))
      else if length non_group_able = 1 \<and> group_able = [] then
        (let c = hd non_group_able
         in if wc_operator c = StartsWith \<and> wc_value c = CText []
            then Inl (Query (StartsWithIllegalString ''starts with can not start with an empty string''))
            else if wc_field c \<in> known
            then Inl (Query (DuplicateNonGroupableClauseSameField
                   ''a non groupable range clause has same field as an equality or in clause''))
            else Inr (Some c))
      else if group_able = []
      then Inl (Query (MultipleRangeClauses ''there can not be more than 1 non groupable range clause''))
      else Inl (Query (RangeClausesNotGroupable ''clauses are not groupable'')))"

definition group_clauses :: "where_clause list \<Rightarrow>
    error + ((string, where_clause) btree \<times> where_clause option \<times> where_clause option)" where
  "group_clauses cs =
     (if cs = [] then Inr ([], None, None)
      else
        rbind (collect_equal_clauses {} (filter (\<lambda>c. wc_operator c = Equal \<and> \<not> is_identifier c) cs)) (\<lambda>(known, es).
        rbind (group_in_clause known (filter (\<lambda>c. wc_operator c = In \<and> \<not> is_identifier c) cs)) (\<lambda>(known, in_clause).
        rbind (group_range_clause known (filter (\<lambda>c. groupable (wc_operator c)) cs)
                 (filter (\<lambda>c. non_groupable (wc_operator c)) cs)) (\<lambda>range_clause.
          Inr (foldl (\<lambda>m e. bt_insert (fst e) (snd e) m) [] es, range_clause, in_clause)))))"

section \<open>Clauses as queries over keys\<close>

text \<open>
  The items a clause inserts, given its key or keys, the direction, and the key of the start document
  with whether it is included.
\<close>

definition in_direction :: "bool \<Rightarrow> bytes \<Rightarrow> bool \<Rightarrow> bytes \<Rightarrow> bool" where
  "in_direction ltr start included k \<longleftrightarrow> ltr \<and> start < k \<or> \<not> ltr \<and> start > k \<or> included \<and> start = k"

definition key_items :: "bool \<Rightarrow> (bytes \<times> bool) option \<Rightarrow> bytes \<Rightarrow> query_item list" where
  "key_items ltr starts k =
     (case starts of
        None \<Rightarrow> [Key k]
      | Some (start, included) \<Rightarrow> if in_direction ltr start included k then [Key k] else [])"

definition greater_than_items :: "bool \<Rightarrow> (bytes \<times> bool) option \<Rightarrow> bytes \<Rightarrow> query_item list" where
  "greater_than_items ltr starts k =
     (case starts of
        None \<Rightarrow> [RangeAfter k]
      | Some (start, included) \<Rightarrow>
          if ltr then
            (if start \<le> k then [RangeAfter k]
             else if included then [RangeFrom start] else [RangeAfter start])
          else if start > k then
            (if included then [RangeAfterToInclusive k start] else [RangeAfterTo k start])
          else [])"

definition greater_than_or_equals_items :: "bool \<Rightarrow> (bytes \<times> bool) option \<Rightarrow> bytes \<Rightarrow> query_item list" where
  "greater_than_or_equals_items ltr starts k =
     (case starts of
        None \<Rightarrow> [RangeFrom k]
      | Some (start, included) \<Rightarrow>
          if ltr then
            (if start < k \<or> included \<and> start = k then [RangeFrom k]
             else if included then [RangeFrom start] else [RangeAfter start])
          else if start > k then (if included then [RangeInclusive k start] else [Range k start])
          else if included \<and> start = k then [Key k]
          else [])"

definition less_than_items :: "bool \<Rightarrow> (bytes \<times> bool) option \<Rightarrow> bytes \<Rightarrow> query_item list" where
  "less_than_items ltr starts k =
     (case starts of
        None \<Rightarrow> [RangeTo k]
      | Some (start, included) \<Rightarrow>
          if ltr then
            (if start < k then (if included then [Range k start] else [RangeAfterTo k start]) else [])
          else if start > k then [RangeTo k]
          else if included then [RangeToInclusive start]
          else [RangeTo start])"

definition less_than_or_equals_items :: "bool \<Rightarrow> (bytes \<times> bool) option \<Rightarrow> bytes \<Rightarrow> query_item list" where
  "less_than_or_equals_items ltr starts k =
     (case starts of
        None \<Rightarrow> [RangeToInclusive k]
      | Some (start, included) \<Rightarrow>
          if ltr then
            (if included \<and> start = k then [Key k]
             else if start < k then (if included then [RangeInclusive k start] else [RangeAfterToInclusive k start])
             else [])
          else if start > k \<or> included \<and> start = k then [RangeToInclusive k]
          else if included then [RangeToInclusive start]
          else [RangeTo start])"

definition between_items :: "bool \<Rightarrow> (bytes \<times> bool) option \<Rightarrow> bytes \<Rightarrow> bytes \<Rightarrow> query_item list" where
  "between_items ltr starts left right =
     (case starts of
        None \<Rightarrow> [RangeInclusive left right]
      | Some (start, included) \<Rightarrow>
          if ltr then
            (if start < left \<or> included \<and> start = left then [RangeInclusive left right]
             else if start = left then [RangeAfterToInclusive left right]
             else if start > left \<and> start < right then
               (if included then [RangeInclusive start right] else [RangeAfterToInclusive start right])
             else if start = right \<and> included then [Key right]
             else [])
          else if start > right \<or> included \<and> start = right then [RangeInclusive left right]
          else if start = right then [Range left right]
          else if start > left \<and> start < right then
            (if included then [RangeInclusive left start] else [Range left start])
          else if start = left \<and> included then [Key left]
          else [])"

definition between_exclude_bounds_items :: "bool \<Rightarrow> (bytes \<times> bool) option \<Rightarrow> bytes \<Rightarrow> bytes \<Rightarrow> query_item list" where
  "between_exclude_bounds_items ltr starts left right =
     (case starts of
        None \<Rightarrow> [RangeAfterTo left right]
      | Some (start, included) \<Rightarrow>
          if ltr then
            (if start \<le> left then [RangeAfterTo left right]
             else if start > left \<and> start < right then
               (if included then [Range start right] else [RangeAfterTo start right])
             else [])
          else if start > right then [RangeInclusive left right]
          else if start = right then [Range left right]
          else if start > left \<and> start < right then
            (if included then [RangeAfterToInclusive left start] else [RangeAfterTo left start])
          else [])"

definition between_exclude_left_items :: "bool \<Rightarrow> (bytes \<times> bool) option \<Rightarrow> bytes \<Rightarrow> bytes \<Rightarrow> query_item list" where
  "between_exclude_left_items ltr starts left right =
     (case starts of
        None \<Rightarrow> [RangeAfterToInclusive left right]
      | Some (start, included) \<Rightarrow>
          if ltr then
            (if start \<le> left then [RangeAfterToInclusive left right]
             else if start > left \<and> start < right then
               (if included then [RangeInclusive start right] else [RangeAfterToInclusive start right])
             else if start = right \<and> included then [Key right]
             else [])
          else if start > right \<or> included \<and> start = right then [RangeAfterToInclusive left right]
          else if start > left \<and> start < right then
            (if included then [RangeInclusive left start] else [Range left start])
          else [])"

text \<open>Also the range of the keys with a prefix.\<close>

definition between_exclude_right_items :: "bool \<Rightarrow> (bytes \<times> bool) option \<Rightarrow> bytes \<Rightarrow> bytes \<Rightarrow> query_item list" where
  "between_exclude_right_items ltr starts left right =
     (case starts of
        None \<Rightarrow> [Range left right]
      | Some (start, included) \<Rightarrow>
          if ltr then
            (if start < left \<or> included \<and> start = left then [Range left right]
             else if start = left then [RangeAfterTo left right]
             else if start > left \<and> start < right then
               (if included then [Range start right] else [RangeAfterTo start right])
             else [])
          else if start \<ge> right then [Range left right]
          else if start > left \<and> start < right then
            (if included then [RangeInclusive left start] else [Range left start])
          else if start = left \<and> included then [Key left]
          else [])"

definition last_incremented :: "bytes \<Rightarrow> bytes" where
  "last_incremented bs = butlast bs @ [last bs + 1]"

definition clause_key :: "(string \<Rightarrow> bytes option) \<Rightarrow> field_codecs \<Rightarrow> document_type \<Rightarrow> where_clause \<Rightarrow> cbor \<Rightarrow> error + bytes" where
  "clause_key b58 C dt c v = map_err ContractErr (serialize_value_for_key b58 C dt (wc_field c) v)"

definition split_value_for_between ::
    "(string \<Rightarrow> bytes option) \<Rightarrow> field_codecs \<Rightarrow> where_clause \<Rightarrow> document_type \<Rightarrow> error + (bytes \<times> bytes)" where
  "split_value_for_between b58 C c dt =
     rbind (ok_or (Query (InvalidBetweenClause ''when using between operator you must provide a tuple array of values''))
              (as_array (wc_value c))) (\<lambda>vs.
       case vs of
         [l, r] \<Rightarrow>
           rbind (clause_key b58 C dt c l) (\<lambda>left.
           rbind (clause_key b58 C dt c r) (\<lambda>right. Inr (left, right)))
       | _ \<Rightarrow> Inl (Query (InvalidBetweenClause
                ''when using between operator you must provide an array of exactly two values'')))"

definition clause_items :: "(string \<Rightarrow> bytes option) \<Rightarrow> field_codecs \<Rightarrow> where_clause \<Rightarrow> document_type \<Rightarrow> bool \<Rightarrow>
    (bytes \<times> bool) option \<Rightarrow> error + query_item list" where
  "clause_items b58 C c dt ltr starts =
     (let one = clause_key b58 C dt c (wc_value c); two = split_value_for_between b58 C c dt
      in case wc_operator c of
           Equal \<Rightarrow> rmap (key_items ltr starts) one
         | In \<Rightarrow>
             rbind (in_values c) (\<lambda>vs.
               rmap (\<lambda>ks. concat (map (key_items ltr starts) ks)) (mapM (clause_key b58 C dt c) vs))
         | GreaterThan \<Rightarrow> rmap (greater_than_items ltr starts) one
         | GreaterThanOrEquals \<Rightarrow> rmap (greater_than_or_equals_items ltr starts) one
         | LessThan \<Rightarrow> rmap (less_than_items ltr starts) one
         | LessThanOrEquals \<Rightarrow> rmap (less_than_or_equals_items ltr starts) one
         | Between \<Rightarrow> rmap (\<lambda>(l, r). between_items ltr starts l r) two
         | BetweenExcludeBounds \<Rightarrow> rmap (\<lambda>(l, r). between_exclude_bounds_items ltr starts l r) two
         | BetweenExcludeLeft \<Rightarrow> rmap (\<lambda>(l, r). between_exclude_left_items ltr starts l r) two
         | BetweenExcludeRight \<Rightarrow> rmap (\<lambda>(l, r). between_exclude_right_items ltr starts l r) two
         | StartsWith \<Rightarrow>
             rbind one (\<lambda>left.
               if left = [] then Inl (Query (InvalidStartsWithClause ''starts with must have at least one character''))
               else Inr (between_exclude_right_items ltr starts left (last_incremented left))))"

definition starts_at_key :: "(string \<Rightarrow> bytes option) \<Rightarrow> field_codecs \<Rightarrow> where_clause \<Rightarrow> document_type \<Rightarrow>
    (document \<times> bool) option \<Rightarrow> error + (bytes \<times> bool) option" where
  "starts_at_key b58 C c dt start_at_document =
     (case start_at_document of
        None \<Rightarrow> Inr None
      | Some (document, included) \<Rightarrow>
          rmap (map_option (\<lambda>raw. (raw, included)))
            (get_raw_for_document_type b58 C document (wc_field c) dt None))"

definition to_path_query :: "(string \<Rightarrow> bytes option) \<Rightarrow> field_codecs \<Rightarrow> where_clause \<Rightarrow> document_type \<Rightarrow>
    (document \<times> bool) option \<Rightarrow> bool \<Rightarrow> error + query" where
  "to_path_query b58 C c dt start_at_document ltr =
     rbind (starts_at_key b58 C c dt start_at_document) (\<lambda>starts.
     rbind (clause_items b58 C c dt ltr starts) (\<lambda>its.
       Inr (foldl (\<lambda>q i. insert_item i q) (query_new_with_direction ltr) its)))"

section \<open>Clauses from SQL\<close>

text \<open>
  The variants of the syntax tree that the code matches; every other variant is one of the last
  constructors. Reading a float from text is an argument.
\<close>

datatype sql_value =
    SqlBoolean bool
  | SqlNumber string
  | DoubleQuotedString string
  | SingleQuotedString string
  | HexStringLiteral string
  | NationalStringLiteral string
  | SqlOtherValue

datatype sql_operator = SqlEq | SqlGt | SqlGtEq | SqlLt | SqlLtEq | SqlLike | SqlAnd | SqlOtherOperator

datatype sql_expr =
    SqlIdentifier string
  | SqlValue sql_value
  | SqlInList sql_expr "sql_expr list" bool
  | SqlBinaryOp sql_expr sql_operator sql_expr
  | SqlOtherExpr

definition digit_value :: "char \<Rightarrow> int option" where
  "digit_value c =
     (let n = of_char c :: int in if 48 \<le> n \<and> n \<le> 57 then Some (n - 48) else None)"

fun parse_digits :: "int \<Rightarrow> string \<Rightarrow> int option" where
  "parse_digits acc [] = Some acc"
| "parse_digits acc (c # s) =
     (case digit_value c of Some d \<Rightarrow> parse_digits (10 * acc + d) s | None \<Rightarrow> None)"

definition parse_natural :: "string \<Rightarrow> int option" where
  "parse_natural s = (if s = [] then None else parse_digits 0 s)"

text \<open>\<open>str::parse::<i64>\<close>: an optional sign and at least one digit, within the range of the type.\<close>

definition parse_i64 :: "string \<Rightarrow> int option" where
  "parse_i64 s =
     (let n = (case s of
                 c # ds \<Rightarrow>
                   if c = CHR ''-'' then map_option uminus (parse_natural ds)
                   else if c = CHR ''+'' then parse_natural ds
                   else parse_natural s
               | [] \<Rightarrow> None)
      in case n of Some i \<Rightarrow> if - (2 ^ 63) \<le> i \<and> i < 2 ^ 63 then Some i else None | None \<Rightarrow> None)"

fun sql_value_to_cbor :: "(string \<Rightarrow> f64 option) \<Rightarrow> sql_value \<Rightarrow> cbor option" where
  "sql_value_to_cbor parse_f64 (SqlBoolean b) = Some (CBool b)"
| "sql_value_to_cbor parse_f64 (SqlNumber s) =
     (if CHR ''.'' \<in> set s then map_option CFloat (parse_f64 s) else map_option CInteger (parse_i64 s))"
| "sql_value_to_cbor parse_f64 (DoubleQuotedString s) = Some (CText s)"
| "sql_value_to_cbor parse_f64 (SingleQuotedString s) = Some (CText s)"
| "sql_value_to_cbor parse_f64 (HexStringLiteral s) = Some (CText s)"
| "sql_value_to_cbor parse_f64 (NationalStringLiteral s) = Some (CText s)"
| "sql_value_to_cbor parse_f64 SqlOtherValue = None"

fun from_sql_operator :: "sql_operator \<Rightarrow> where_operator option" where
  "from_sql_operator SqlEq = Some Equal"
| "from_sql_operator SqlGt = Some GreaterThan"
| "from_sql_operator SqlGtEq = Some GreaterThanOrEquals"
| "from_sql_operator SqlLt = Some LessThan"
| "from_sql_operator SqlLtEq = Some LessThanOrEquals"
| "from_sql_operator SqlLike = Some StartsWith"
| "from_sql_operator _ = None"

definition unexpected_value_type :: error where
  "unexpected_value_type = Query (InvalidSQL ''Invalid query: unexpected value type'')"

fun sql_list_value :: "(string \<Rightarrow> f64 option) \<Rightarrow> sql_expr \<Rightarrow> error + cbor" where
  "sql_list_value parse_f64 (SqlValue v) = ok_or unexpected_value_type (sql_value_to_cbor parse_f64 v)"
| "sql_list_value parse_f64 _ = Inl (Query (InvalidSQL ''Invalid query: expected a list of sql values''))"

text \<open>The field, the value and the operator as seen from the field.\<close>

fun sql_operands :: "sql_expr \<Rightarrow> where_operator \<Rightarrow> sql_expr \<Rightarrow> error + (string \<times> where_operator \<times> sql_value)" where
  "sql_operands (SqlIdentifier f) op (SqlValue v) = Inr (f, op, v)"
| "sql_operands (SqlValue v) op (SqlIdentifier f) = rmap (\<lambda>op. (f, op, v)) (flip op)"
| "sql_operands _ _ _ = Inl (Query (InvalidSQL ''Invalid query: where clause should have field name and value''))"

text \<open>A pattern of \<open>like\<close> has exactly one percent sign, at its end.\<close>

definition like_prefix :: "cbor \<Rightarrow> error + cbor" where
  "like_prefix v =
     rbind (ok_or (Query (InvalidStartsWithClause ''Invalid query: startsWith takes text'')) (as_text v)) (\<lambda>s.
       if count_list s (CHR ''%'') = 1 \<and> last s = CHR ''%'' then Inr (CText (butlast s))
       else Inl (Query (QueryUnsupported ''Invalid query: like can only be used to represent startswith'')))"

fun build_where_clauses_from_operations ::
    "(string \<Rightarrow> f64 option) \<Rightarrow> sql_expr \<Rightarrow> where_clause list \<Rightarrow> error + where_clause list" where
  "build_where_clauses_from_operations parse_f64 (SqlInList e vs negated) where_clauses =
     (if negated then Inl (Query (QueryUnsupported ''Invalid query: negated in clause not supported''))
      else
        (case e of
           SqlIdentifier f \<Rightarrow>
             rmap (\<lambda>in_vs. where_clauses @ [\<lparr>wc_field = f, wc_operator = In, wc_value = CArray in_vs\<rparr>])
               (mapM (sql_list_value parse_f64) vs)
         | _ \<Rightarrow> Inl (Query (InvalidInClause ''Invalid query: in clause should start with an identifier''))))"
| "build_where_clauses_from_operations parse_f64 (SqlBinaryOp l op r) where_clauses =
     (if op = SqlAnd then
        rbind (build_where_clauses_from_operations parse_f64 l where_clauses) (\<lambda>where_clauses.
          build_where_clauses_from_operations parse_f64 r where_clauses)
      else
        rbind (ok_or (Query (QueryUnsupported ''Unknown operator'')) (from_sql_operator op)) (\<lambda>op.
        rbind (sql_operands l op r) (\<lambda>(f, op, v).
        rbind (ok_or unexpected_value_type (sql_value_to_cbor parse_f64 v)) (\<lambda>v.
        rbind (if op = StartsWith then like_prefix v else Inr v) (\<lambda>v.
          Inr (where_clauses @ [\<lparr>wc_field = f, wc_operator = op, wc_value = v\<rparr>]))))))"
| "build_where_clauses_from_operations parse_f64 _ where_clauses =
     Inl (Query (InvalidSQL ''Issue parsing sql: invalid selection format''))"

text \<open>A comparison with the value first builds the clause of the comparison with the field first.\<close>

fun sql_flipped :: "sql_operator \<Rightarrow> sql_operator" where
  "sql_flipped SqlGt = SqlLt"
| "sql_flipped SqlGtEq = SqlLtEq"
| "sql_flipped SqlLt = SqlGt"
| "sql_flipped SqlLtEq = SqlGtEq"
| "sql_flipped op = op"

lemma sql_operands_swapped:
  assumes "op \<notin> {SqlLike, SqlAnd}"
  shows "build_where_clauses_from_operations parse_f64 (SqlBinaryOp (SqlValue v) op (SqlIdentifier f)) cs =
    build_where_clauses_from_operations parse_f64 (SqlBinaryOp (SqlIdentifier f) (sql_flipped op) (SqlValue v)) cs"
  using assms by (cases op) simp_all

text \<open>Building appends to the clauses built so far.\<close>

lemma build_where_clauses_appends:
  "build_where_clauses_from_operations parse_f64 e cs =
   rmap (\<lambda>built. cs @ built) (build_where_clauses_from_operations parse_f64 e [])"
proof (induction e arbitrary: cs)
  case (SqlBinaryOp l op r)
  show ?case
  proof (cases "op = SqlAnd")
    case True
    show ?thesis
    proof (cases "build_where_clauses_from_operations parse_f64 l []")
      case (Inr built)
      show ?thesis
        using SqlBinaryOp.IH(1)[of cs] SqlBinaryOp.IH(2)[of "cs @ built"] SqlBinaryOp.IH(2)[of built] True Inr
        by (simp add: rmap_def split: sum.splits)
    qed (use SqlBinaryOp.IH(1)[of cs] True in \<open>simp add: rmap_def\<close>)
  next
    case False
    then show ?thesis by (auto simp: rmap_def rbind_def split: sum.splits)
  qed
qed (auto simp: rmap_def rbind_def split: sum.splits sql_expr.splits)

section \<open>Ordering clauses\<close>

record order_clause =
  oc_field :: string
  oc_ascending :: bool

definition order_clause_from_components :: "cbor list \<Rightarrow> grove_error + order_clause" where
  "order_clause_from_components components =
     (case components of
        [f, direction] \<Rightarrow>
          rbind (ok_or (InvalidQuery ''first field of where component should be a string'') (as_text f)) (\<lambda>f.
          rbind (ok_or (InvalidQuery ''orderBy right component must be a string'') (as_text direction)) (\<lambda>d.
            if d = ''asc'' then Inr \<lparr>oc_field = f, oc_ascending = True\<rparr>
            else if d = ''desc'' then Inr \<lparr>oc_field = f, oc_ascending = False\<rparr>
            else Inl (InvalidQuery ''orderBy right component must be either a asc or desc string'')))
      | _ \<Rightarrow> Inl (InvalidQuery ''order clause should have exactly 2 components''))"

section \<open>The keys a clause selects\<close>

text \<open>What a clause means for a key of its field, and what a start key allows.\<close>

definition clause_selects :: "(string \<Rightarrow> bytes option) \<Rightarrow> field_codecs \<Rightarrow> document_type \<Rightarrow> where_clause \<Rightarrow> bytes \<Rightarrow> bool" where
  "clause_selects b58 C dt c k \<longleftrightarrow>
     (let one = \<lambda>P. (case clause_key b58 C dt c (wc_value c) of Inr x \<Rightarrow> P x | Inl _ \<Rightarrow> False);
          two = \<lambda>P. (case split_value_for_between b58 C c dt of Inr (l, r) \<Rightarrow> P l r | Inl _ \<Rightarrow> False)
      in case wc_operator c of
           Equal \<Rightarrow> one (\<lambda>x. k = x)
         | In \<Rightarrow> (\<exists>vs. in_values c = Inr vs \<and> (\<exists>v \<in> set vs. clause_key b58 C dt c v = Inr k))
         | GreaterThan \<Rightarrow> one (\<lambda>x. x < k)
         | GreaterThanOrEquals \<Rightarrow> one (\<lambda>x. x \<le> k)
         | LessThan \<Rightarrow> one (\<lambda>x. k < x)
         | LessThanOrEquals \<Rightarrow> one (\<lambda>x. k \<le> x)
         | Between \<Rightarrow> two (\<lambda>l r. l \<le> k \<and> k \<le> r)
         | BetweenExcludeBounds \<Rightarrow> two (\<lambda>l r. l < k \<and> k < r)
         | BetweenExcludeLeft \<Rightarrow> two (\<lambda>l r. l < k \<and> k \<le> r)
         | BetweenExcludeRight \<Rightarrow> two (\<lambda>l r. l \<le> k \<and> k < r)
         | StartsWith \<Rightarrow> one (\<lambda>x. prefix x k))"

definition start_allows :: "bool \<Rightarrow> (bytes \<times> bool) option \<Rightarrow> bytes \<Rightarrow> bool" where
  "start_allows ltr starts k \<longleftrightarrow>
     (case starts of None \<Rightarrow> True | Some (start, included) \<Rightarrow> in_direction ltr start included k)"

definition items_cover :: "query_item list \<Rightarrow> bytes \<Rightarrow> bool" where
  "items_cover its k \<longleftrightarrow> (\<exists>i \<in> set its. covers i k)"

lemma query_covers_items:
  "query_covers (foldl (\<lambda>q i. insert_item i q) q its) k \<longleftrightarrow> query_covers q k \<or> items_cover its k"
  by (induction its arbitrary: q) (auto simp: items_cover_def)

lemma key_items_cover: "items_cover (key_items ltr starts x) k \<longleftrightarrow> k = x \<and> start_allows ltr starts k"
  by (auto simp: items_cover_def key_items_def start_allows_def split: option.splits if_splits)

lemma greater_items_cover:
  "items_cover (greater_than_items ltr starts x) k \<longleftrightarrow> x < k \<and> start_allows ltr starts k"
  "items_cover (greater_than_or_equals_items ltr starts x) k \<longleftrightarrow> x \<le> k \<and> start_allows ltr starts k"
  by (auto simp: items_cover_def greater_than_items_def greater_than_or_equals_items_def start_allows_def in_direction_def
      split: option.splits if_splits)

lemma less_items_cover:
  "starts = None \<Longrightarrow> items_cover (less_than_items ltr starts x) k \<longleftrightarrow> k < x \<and> start_allows ltr starts k"
  "starts = None \<or> \<not> ltr \<Longrightarrow>
   items_cover (less_than_or_equals_items ltr starts x) k \<longleftrightarrow> k \<le> x \<and> start_allows ltr starts k"
  by (auto simp: items_cover_def less_than_items_def less_than_or_equals_items_def start_allows_def in_direction_def
      split: option.splits if_splits)

lemma between_items_cover:
  "items_cover (between_items ltr starts l r) k \<longleftrightarrow> l \<le> k \<and> k \<le> r \<and> start_allows ltr starts k"
  "items_cover (between_exclude_right_items ltr starts l r) k \<longleftrightarrow> l \<le> k \<and> k < r \<and> start_allows ltr starts k"
  by (auto simp: items_cover_def between_items_def between_exclude_right_items_def start_allows_def in_direction_def
      split: option.splits if_splits)

lemma between_exclude_items_cover:
  assumes "starts = None \<or> ltr"
  shows "items_cover (between_exclude_bounds_items ltr starts l r) k \<longleftrightarrow> l < k \<and> k < r \<and> start_allows ltr starts k"
    "items_cover (between_exclude_left_items ltr starts l r) k \<longleftrightarrow> l < k \<and> k \<le> r \<and> start_allows ltr starts k"
  using assms
  by (auto simp: items_cover_def between_exclude_bounds_items_def between_exclude_left_items_def start_allows_def
      in_direction_def split: option.splits if_splits)

text \<open>The keys from a prefix up to the prefix with its last byte incremented are those with the prefix.\<close>

lemma prefix_range:
  "p \<noteq> [] \<Longrightarrow> last p \<noteq> 255 \<Longrightarrow> p \<le> k \<and> k < last_incremented p \<longleftrightarrow> prefix p k"
proof (induction p arbitrary: k)
  case Nil
  then show ?case by simp
next
  case (Cons a p)
  show ?case
  proof (cases p)
    case Nil
    have "unat a \<noteq> 255" using Cons.prems(2) Nil by (simp add: word_unat_eq_iff)
    then have u: "unat (a + 1) = unat a + 1" using unat_width(1)[of a] by (simp add: unat_word_ariths)
    then have "a < a + 1" by (simp add: word_less_nat_alt)
    have "\<not> x < a + 1" if "a < x" for x
      using that u by (simp add: word_less_nat_alt word_le_nat_alt word_unat_eq_iff)
    then show ?thesis using Nil \<open>a < a + 1\<close> by (cases k) (auto simp: last_incremented_def)
  next
    case p: (Cons b q)
    then have inc: "last_incremented (a # p) = a # last_incremented p" by (simp add: last_incremented_def)
    have IH: "p \<le> k' \<and> k' < last_incremented p \<longleftrightarrow> prefix p k'" for k'
      using Cons.IH[of k'] Cons.prems(2) p by simp
    show ?thesis
    proof (cases k)
      case Nil
      then show ?thesis by simp
    next
      case (Cons x k')
      then show ?thesis unfolding inc using IH[of k'] by (cases a x rule: linorder_cases)
        (simp_all add: less_imp_not_less less_imp_not_eq less_imp_not_eq2)
    qed
  qed
qed

definition start_respected :: "where_operator \<Rightarrow> bool \<Rightarrow> bool" where
  "start_respected op ltr \<longleftrightarrow>
     (case op of LessThan \<Rightarrow> False | LessThanOrEquals \<Rightarrow> \<not> ltr | BetweenExcludeBounds \<Rightarrow> ltr | BetweenExcludeLeft \<Rightarrow> ltr | _ \<Rightarrow> True)"

definition prefix_incrementable :: "(string \<Rightarrow> bytes option) \<Rightarrow> field_codecs \<Rightarrow> document_type \<Rightarrow> where_clause \<Rightarrow> bool" where
  "prefix_incrementable b58 C dt c \<longleftrightarrow>
     (case clause_key b58 C dt c (wc_value c) of Inr x \<Rightarrow> wc_operator c = StartsWith \<longrightarrow> last x \<noteq> 255 | Inl _ \<Rightarrow> True)"

lemma clause_items_cover:
  assumes "clause_items b58 C c dt ltr starts = Inr its"
    and "starts = None \<or> start_respected (wc_operator c) ltr" "prefix_incrementable b58 C dt c"
  shows "items_cover its k \<longleftrightarrow> clause_selects b58 C dt c k \<and> start_allows ltr starts k"
proof (cases "wc_operator c")
  case In
  have "items_cover (concat (map (key_items ltr starts) ks)) k \<longleftrightarrow> k \<in> set ks \<and> start_allows ltr starts k" for ks
    by (induction ks) (auto simp: items_cover_def key_items_cover[unfolded items_cover_def] bex_Un)
  moreover from In assms(1) obtain vs ks where "in_values c = Inr vs" "mapM (clause_key b58 C dt c) vs = Inr ks"
      "its = concat (map (key_items ltr starts) ks)"
    by (auto simp: clause_items_def Let_def rbind_eq_Inr rmap_eq_Inr)
  moreover from this(2) have "k \<in> set ks \<longleftrightarrow> (\<exists>v \<in> set vs. clause_key b58 C dt c v = Inr k)"
    by (auto simp: mapM_eq_Inr list_all2_conv_all_nth in_set_conv_nth Bex_def)
  ultimately show ?thesis using In by (simp add: clause_selects_def)
next
  case StartsWith
  with assms(1,3) show ?thesis
    by (auto simp: clause_items_def clause_selects_def Let_def rbind_eq_Inr between_items_cover prefix_incrementable_def
        prefix_range [symmetric] split: if_splits)
qed (use assms in \<open>auto simp: clause_items_def clause_selects_def Let_def rmap_eq_Inr start_respected_def key_items_cover
    greater_items_cover less_items_cover between_items_cover between_exclude_items_cover split: sum.splits\<close>)

text \<open>C39: the query built for a where clause selects exactly the keys the clause means that lie at or
  behind the key of the start document in the direction of the query. Excluded are the combinations with
  a start document that are shown wrong below, and prefixes that end with the largest byte.\<close>

theorem where_clause_selects:
  assumes "to_path_query b58 C c dt start_at_document ltr = Inr q"
    and "starts_at_key b58 C c dt start_at_document = Inr starts"
    and "starts = None \<or> start_respected (wc_operator c) ltr" "prefix_incrementable b58 C dt c"
  shows "query_covers q k \<longleftrightarrow> clause_selects b58 C dt c k \<and> start_allows ltr starts k"
  using assms(1,2) clause_items_cover[OF _ assms(3,4)]
  by (auto simp: to_path_query_def rbind_eq_Inr query_covers_items)

definition age_clause :: "where_operator \<Rightarrow> cbor \<Rightarrow> where_clause" where
  "age_clause op v = \<lparr>wc_field = ''age'', wc_operator = op, wc_value = v\<rparr>"

definition no_base58 :: "string \<Rightarrow> bytes option" where "no_base58 s = None"

lemma age_key:
  assumes "- (2 ^ 63) \<le> i" "i < 2 ^ 63"
  shows "clause_key no_base58 reference_codecs person_type (age_clause op v) (CInteger i) = Inr (encode_signed_integer (word_of_int i))"
  using assms length_encodings(2)[of "word_of_int i"]
  by (simp add: clause_key_def serialize_value_for_key_def age_clause_def person_type_def bt_get_def
      encode_value_for_tree_keys_def integer_value_def int_to_i64_def MAX_INDEX_SIZE_def)

theorem where_clause_selects_witness:
  "\<exists>q. to_path_query no_base58 reference_codecs (age_clause GreaterThan (CInteger 18)) person_type None True = Inr q \<and>
     query_covers q (encode_signed_integer 30)"
proof -
  let ?c = "age_clause GreaterThan (CInteger 18)"
  obtain q where q: "to_path_query no_base58 reference_codecs ?c person_type None True = Inr q"
    using age_key[of 18 GreaterThan "CInteger 18"]
    by (simp add: to_path_query_def starts_at_key_def clause_items_def age_clause_def)
  have "encode_signed_integer 18 < encode_signed_integer 30"
    by (simp add: encode_signed_integer_def flip_sign_bit_def u64_to_be_def be_bytes_eval)
  then have "clause_selects no_base58 reference_codecs person_type ?c (encode_signed_integer 30)"
    using age_key[of 18 GreaterThan "CInteger 18"] by (simp add: clause_selects_def age_clause_def)
  moreover have "prefix_incrementable no_base58 reference_codecs person_type ?c"
    by (simp add: prefix_incrementable_def age_clause_def split: sum.splits)
  ultimately show ?thesis
    using where_clause_selects[OF q, of None "encode_signed_integer 30"] q by (simp add: starts_at_key_def start_allows_def)
qed

lemma upper_bound_start_items:
  "\<not> items_cover (less_than_items True (Some (start, included)) x) k"
  "items_cover (less_than_or_equals_items True (Some (start, included)) x) k \<Longrightarrow> k = start"
  by (auto simp: items_cover_def less_than_items_def less_than_or_equals_items_def less_trans le_less_trans
      dest: less_trans less_le_trans le_less_trans split: if_splits)

lemma excluded_bounds_items:
  assumes "left < right"
  shows "right < start \<Longrightarrow> items_cover (between_exclude_bounds_items False (Some (start, included)) left right) left"
    "right < start \<Longrightarrow> items_cover (between_exclude_bounds_items False (Some (start, included)) left right) right"
    "left < start \<Longrightarrow> start < right \<Longrightarrow> items_cover (between_exclude_left_items False (Some (start, included)) left right) left"
    "\<not> items_cover (between_exclude_left_items False (Some (right, False)) left right) k"
  using assms by (simp_all add: items_cover_def between_exclude_bounds_items_def between_exclude_left_items_def less_imp_le
      less_imp_not_less less_imp_neq)

text \<open>C40: an ascending query with an upper bound and a start document below the bound never returns a key
  behind the start: the bounds of its range are swapped.\<close>

theorem upper_bound_start_selects_nothing:
  assumes "to_path_query b58 C c dt start_at_document True = Inr q" "wc_operator c \<in> {LessThan, LessThanOrEquals}"
    and "starts_at_key b58 C c dt start_at_document = Inr (Some (start, included))"
  shows "query_covers q k \<longrightarrow> k = start"
  using assms upper_bound_start_items[of start included _ k]
  by (auto simp: to_path_query_def rbind_eq_Inr query_covers_items clause_items_def Let_def rmap_eq_Inr)

text \<open>A descending query strictly between two bounds that starts at a document above them returns the
  bounds, and one that excludes only the lower bound and starts within returns the lower bound; one that
  starts after a document at the upper bound returns nothing.\<close>

theorem excluded_bounds_selected:
  assumes "to_path_query b58 C c dt start_at_document False = Inr q" "split_value_for_between b58 C c dt = Inr (left, right)"
    and "starts_at_key b58 C c dt start_at_document = Inr (Some (start, included))" "left < right"
  shows "(wc_operator c = BetweenExcludeBounds \<and> right < start \<longrightarrow> query_covers q left \<and> query_covers q right) \<and>
    (wc_operator c = BetweenExcludeLeft \<and> left < start \<and> start < right \<longrightarrow> query_covers q left) \<and>
    (wc_operator c = BetweenExcludeLeft \<and> start = right \<and> \<not> included \<longrightarrow> \<not> query_covers q k)"
  using assms(1-3) excluded_bounds_items[OF assms(4)]
  by (auto simp: to_path_query_def rbind_eq_Inr query_covers_items clause_items_def Let_def)

definition aged :: "int \<Rightarrow> document" where
  "aged i = example_document\<lparr>doc_properties := [(''age'', CInteger i)]\<rparr>"

lemma age_start:
  assumes "- (2 ^ 63) \<le> i" "i < 2 ^ 63"
  shows "starts_at_key no_base58 reference_codecs (age_clause op v) person_type (Some (aged i, included)) =
    Inr (Some (encode_signed_integer (word_of_int i), included))"
  using age_key[OF assms, of op v]
  by (simp add: starts_at_key_def get_raw_for_document_type_def age_clause_def aged_def bt_get_def clause_key_def)

theorem upper_bound_start_selects_nothing_witness:
  "\<exists>q. to_path_query no_base58 reference_codecs (age_clause LessThan (CInteger 40)) person_type (Some (aged 20, True)) True = Inr q \<and>
     \<not> query_covers q (encode_signed_integer 30)"
proof -
  let ?c = "age_clause LessThan (CInteger 40)"
  obtain q where q: "to_path_query no_base58 reference_codecs ?c person_type (Some (aged 20, True)) True = Inr q"
    using age_key[of 40 LessThan "CInteger 40"] age_start[of 20 LessThan "CInteger 40" True]
    by (simp add: to_path_query_def clause_items_def age_clause_def)
  have "encode_signed_integer 30 \<noteq> encode_signed_integer 20"
    by (simp add: encode_signed_integer_def flip_sign_bit_def u64_to_be_def be_bytes_eval)
  with upper_bound_start_selects_nothing[OF q _ age_start[of 20 LessThan "CInteger 40" True], of "encode_signed_integer 30"] q
  show ?thesis by (auto simp: age_clause_def)
qed

theorem excluded_bounds_selected_witness:
  "\<exists>q. to_path_query no_base58 reference_codecs (age_clause BetweenExcludeBounds (CArray [CInteger 10, CInteger 20])) person_type
      (Some (aged 30, True)) False = Inr q \<and> query_covers q (encode_signed_integer 10)"
proof -
  let ?c = "age_clause BetweenExcludeBounds (CArray [CInteger 10, CInteger 20])"
  have split: "split_value_for_between no_base58 reference_codecs ?c person_type = Inr (encode_signed_integer 10, encode_signed_integer 20)"
    using age_key[of 10] age_key[of 20] by (simp add: split_value_for_between_def age_clause_def)
  note start = age_start[of 30 BetweenExcludeBounds "CArray [CInteger 10, CInteger 20]" True]
  obtain q where q: "to_path_query no_base58 reference_codecs ?c person_type (Some (aged 30, True)) False = Inr q"
    using split start by (simp add: to_path_query_def clause_items_def age_clause_def)
  have "encode_signed_integer 10 < encode_signed_integer 20" "encode_signed_integer 20 < encode_signed_integer 30"
    by (simp_all add: encode_signed_integer_def flip_sign_bit_def u64_to_be_def be_bytes_eval)
  with excluded_bounds_selected[OF q split start] q show ?thesis by (simp add: age_clause_def)
qed

end
