(* ===== verification/Queries.thy ===== *)
theory Queries
  imports Conditions
begin

text \<open>
  Document queries: \<open>drive/src/query/mod.rs\<close>. A query is read from CBOR or SQL, its clauses are sorted
  into those on the primary key, equalities, one \<open>in\<close> and one range clause, and it becomes a GroveDB path
  query: over the documents by identifier, or over the nested trees of the index that fits the clauses
  best. The decoder of CBOR, base58, the parser of SQL and GroveDB's verification of a proof are
  arguments.
\<close>

section \<open>Sorted clauses\<close>

record internal_clauses =
  primary_key_in_clause :: "where_clause option"
  primary_key_equal_clause :: "where_clause option"
  in_clause :: "where_clause option"
  range_clause :: "where_clause option"
  equal_clauses :: "(string, where_clause) btree"

definition clauses_verify :: "internal_clauses \<Rightarrow> bool" where
  "clauses_verify c \<longleftrightarrow>
     (if (primary_key_in_clause c \<noteq> None) \<noteq> (primary_key_equal_clause c \<noteq> None)
      then \<not> (in_clause c \<noteq> None \<or> range_clause c \<noteq> None \<or> equal_clauses c \<noteq> [])
      else \<not> (primary_key_in_clause c \<noteq> None \<and> primary_key_equal_clause c \<noteq> None))"

definition clauses_for_primary_key :: "internal_clauses \<Rightarrow> bool" where
  "clauses_for_primary_key c \<longleftrightarrow> primary_key_in_clause c \<noteq> None \<or> primary_key_equal_clause c \<noteq> None"

definition clauses_is_empty :: "internal_clauses \<Rightarrow> bool" where
  "clauses_is_empty c \<longleftrightarrow> in_clause c = None \<and> range_clause c = None \<and> equal_clauses c = [] \<and>
     primary_key_in_clause c = None \<and> primary_key_equal_clause c = None"

definition single_clause :: "string \<Rightarrow> where_clause list \<Rightarrow> error + where_clause option" where
  "single_clause message cs =
     (case cs of
        [] \<Rightarrow> Inr None
      | [c] \<Rightarrow> Inr (Some c)
      | _ \<Rightarrow> Inl (Query (DuplicateNonGroupableClauseSameField message)))"

definition extract_from_clauses :: "where_clause list \<Rightarrow> error + internal_clauses" where
  "extract_from_clauses cs =
     rbind (group_clauses cs) (\<lambda>(equals, range, in_c).
     rbind (single_clause ''There should only be one equal clause for the primary key''
              (filter (\<lambda>c. wc_operator c = Equal \<and> is_identifier c) cs)) (\<lambda>pk_equal.
     rbind (single_clause ''There should only be one in clause for the primary key''
              (filter (\<lambda>c. wc_operator c = In \<and> is_identifier c) cs)) (\<lambda>pk_in.
       let clauses = \<lparr>primary_key_in_clause = pk_in, primary_key_equal_clause = pk_equal, in_clause = in_c,
                      range_clause = range, equal_clauses = equals\<rparr>
       in if clauses_verify clauses then Inr clauses
          else Inl (invalid_components ''Query has invalid where clauses''))))"

section \<open>Reading a query\<close>

definition DEFAULT_QUERY_LIMIT :: u16 where "DEFAULT_QUERY_LIMIT = 100"
definition MAX_INDEX_DIFFERENCE :: u16 where "MAX_INDEX_DIFFERENCE = 2"

text \<open>\<open>order_by\<close> is a map that keeps the order of insertion; a repeated field keeps its first position.\<close>

type_synonym order_map = "(string \<times> order_clause) list"

fun order_insert :: "order_clause \<Rightarrow> order_map \<Rightarrow> order_map" where
  "order_insert c [] = [(oc_field c, c)]"
| "order_insert c ((f, o') # m) = (if f = oc_field c then (f, c) # m else (f, o') # order_insert c m)"

definition order_map_of :: "order_clause list \<Rightarrow> order_map" where
  "order_map_of cs = foldl (\<lambda>m c. order_insert c m) [] cs"

record 'j drive_query =
  dq_contract :: "'j data_contract"
  dq_document_type :: document_type
  dq_clauses :: internal_clauses
  dq_offset :: u16
  dq_limit :: u16
  dq_order_by :: order_map
  dq_start_at :: "bytes option"
  dq_start_at_included :: bool
  dq_block_time :: "f64 option"

definition is_for_primary_key :: "'j drive_query \<Rightarrow> bool" where
  "is_for_primary_key q \<longleftrightarrow> clauses_for_primary_key (dq_clauses q) \<or>
     clauses_is_empty (dq_clauses q) \<and>
       (dq_order_by q = [] \<or> length (dq_order_by q) = 1 \<and> fst (hd (dq_order_by q)) = ''$id'')"

text \<open>The cast of the limit to 64 bits wraps.\<close>

definition limit_value :: "cbor \<Rightarrow> u16 option" where
  "limit_value v =
     (case v of
        CInteger b \<Rightarrow>
          (let reduced = word_of_int b :: u64
           in if reduced = 0 \<or> reduced > ucast DEFAULT_QUERY_LIMIT then None else Some (ucast reduced))
      | _ \<Rightarrow> None)"

definition block_time_value :: "cbor \<Rightarrow> f64 option" where
  "block_time_value v =
     (case v of CFloat b \<Rightarrow> Some b | CInteger b \<Rightarrow> Some (int_to_f64 b) | _ \<Rightarrow> None)"

definition where_clause_of_value :: "cbor \<Rightarrow> error + where_clause" where
  "where_clause_of_value v =
     (case v of
        CArray components \<Rightarrow> where_clause_from_components components
      | _ \<Rightarrow> Inl (Query (InvalidFormatWhereClause ''where clause must be an array'')))"

definition where_clauses_of_value :: "cbor option \<Rightarrow> error + where_clause list" where
  "where_clauses_of_value v =
     (case v of
        None \<Rightarrow> Inr []
      | Some (CArray clauses) \<Rightarrow> mapM where_clause_of_value clauses
      | Some _ \<Rightarrow> Inl (Query (InvalidFormatWhereClause ''where clause must be an array'')))"

definition order_clause_of_value :: "cbor \<Rightarrow> order_clause option" where
  "order_clause_of_value v =
     (case v of
        CArray components \<Rightarrow>
          (case order_clause_from_components components of Inr c \<Rightarrow> Some c | Inl _ \<Rightarrow> None)
      | _ \<Rightarrow> None)"

definition order_by_of_value :: "cbor option \<Rightarrow> order_map" where
  "order_by_of_value v =
     order_map_of (case v of Some (CArray clauses) \<Rightarrow> List.map_filter order_clause_of_value clauses | _ \<Rightarrow> [])"

definition query_from_cbor :: "(bytes \<Rightarrow> (string, cbor) btree option) \<Rightarrow> (string \<Rightarrow> bytes option) \<Rightarrow>
    bytes \<Rightarrow> 'j data_contract \<Rightarrow> document_type \<Rightarrow> error + 'j drive_query" where
  "query_from_cbor cbor_decode bs58_decode query_cbor contract dt =
     rbind (ok_or (StructureErr (InvalidCBOR ''unable to decode query'')) (cbor_decode query_cbor)) (\<lambda>doc.
     rbind (ok_or (Query (InvalidLimit ''limit should be a integer from 1 to 100''))
              (case bt_get ''limit'' doc of None \<Rightarrow> Some DEFAULT_QUERY_LIMIT | Some v \<Rightarrow> limit_value v)) (\<lambda>limit.
     let block_time = Option.bind (bt_get ''blockTime'' doc) block_time_value in
     rbind (where_clauses_of_value (bt_get ''where'' doc)) (\<lambda>all_where_clauses.
     rbind (extract_from_clauses all_where_clauses) (\<lambda>clauses.
     let start_at = bt_get ''startAt'' doc; start_after = bt_get ''startAfter'' doc in
     if start_after \<noteq> None \<and> start_at \<noteq> None
     then Inl (Query (DuplicateStartConditions ''only one of startAt or startAfter should be provided''))
     else
       (let start_option = (if start_after \<noteq> None then start_after else start_at);
            included = (start_after = None)
        in rbind (case start_option of
                    None \<Rightarrow> Inr None
                  | Some v \<Rightarrow> map_err StructureErr (bytes_for_system_value bs58_decode v)) (\<lambda>start.
           if \<exists>k \<in> fst ` set doc. k \<notin> {''limit'', ''blockTime'', ''where'', ''startAt'', ''startAfter'', ''orderBy''}
           then Inl (Query (QueryUnsupported ''unsupported syntax in where clause''))
           else Inr \<lparr>dq_contract = contract, dq_document_type = dt, dq_clauses = clauses, dq_offset = 0,
                     dq_limit = limit, dq_order_by = order_by_of_value (bt_get ''orderBy'' doc),
                     dq_start_at = start, dq_start_at_included = included, dq_block_time = block_time\<rparr>))))))"

text \<open>The parts of a parsed SQL statement that the code reads.\<close>

datatype sql_relation = SqlTable "string list" | SqlOtherRelation

record sql_select =
  select_from :: "sql_relation list"
  select_selection :: "sql_expr option"

record sql_query =
  sql_limit :: "sql_expr option"
  sql_order_by :: "(string \<times> bool option) list"
  sql_body :: "sql_select option"

datatype sql_statement = SqlQueryStatement sql_query | SqlOtherStatement

definition invalid_sql :: error where
  "invalid_sql = Query (InvalidSQL ''Issue parsing sql'')"

definition parse_u16 :: "string \<Rightarrow> u16 option" where
  "parse_u16 s =
     (case (case s of c # ds \<Rightarrow> parse_natural (if c = CHR ''+'' then ds else s) | [] \<Rightarrow> None) of
        Some i \<Rightarrow> if i < 2 ^ 16 then Some (word_of_int i) else None
      | None \<Rightarrow> None)"

definition sql_limit_value :: "sql_expr option \<Rightarrow> error + u16" where
  "sql_limit_value e =
     (case e of
        None \<Rightarrow> Inr DEFAULT_QUERY_LIMIT
      | Some e \<Rightarrow>
          ok_or (Query (InvalidLimit ''Issue parsing sql: invalid limit value''))
            (case e of SqlValue (SqlNumber s) \<Rightarrow> parse_u16 s | _ \<Rightarrow> None))"

definition sql_document_type_name :: "sql_select \<Rightarrow> error + string" where
  "sql_document_type_name s =
     rbind (ok_or (Query (InvalidSQL ''Invalid query: missing from section''))
              (case select_from s of [] \<Rightarrow> None | r # _ \<Rightarrow> Some r)) (\<lambda>r.
       ok_or (Query (InvalidSQL ''Issue parsing sql: invalid from value''))
         (case r of SqlTable (n # _) \<Rightarrow> Some n | _ \<Rightarrow> None))"

definition query_from_sql_expr :: "(string \<Rightarrow> sql_statement list option) \<Rightarrow> (string \<Rightarrow> f64 option) \<Rightarrow>
    string \<Rightarrow> 'j data_contract \<Rightarrow> error + 'j drive_query" where
  "query_from_sql_expr parse_sql parse_f64 sql_string contract =
     rbind (ok_or invalid_sql (parse_sql sql_string)) (\<lambda>statements.
     rbind (ok_or invalid_sql (case statements of SqlQueryStatement q # _ \<Rightarrow> Some q | _ \<Rightarrow> None)) (\<lambda>query.
     rbind (sql_limit_value (sql_limit query)) (\<lambda>limit.
     rbind (ok_or invalid_sql (sql_body query)) (\<lambda>select.
     rbind (sql_document_type_name select) (\<lambda>name.
     rbind (ok_or (Query (QueryDocumentTypeNotFound ''document type not found in contract''))
              (bt_get name (document_types contract))) (\<lambda>dt.
     rbind (case select_selection select of
              None \<Rightarrow> Inr []
            | Some e \<Rightarrow> build_where_clauses_from_operations parse_f64 e []) (\<lambda>all_where_clauses.
     rbind (extract_from_clauses all_where_clauses) (\<lambda>clauses.
       Inr \<lparr>dq_contract = contract, dq_document_type = dt, dq_clauses = clauses, dq_offset = 0, dq_limit = limit,
            dq_order_by = order_map_of (map (\<lambda>(f, asc). \<lparr>oc_field = f, oc_ascending = (asc \<noteq> Some False)\<rparr>)
              (sql_order_by query)),
            dq_start_at = None, dq_start_at_included = True, dq_block_time = None\<rparr>))))))))"

section \<open>Queries by primary key\<close>

text \<open>Documents with history are stored in a tree of versions whose key \<open>[0]\<close> refers to the latest.\<close>

definition history_branch :: "'j drive_query \<Rightarrow> query \<Rightarrow> error + query" where
  "history_branch q query =
     (if documents_keep_history (dq_document_type q) then
        (case dq_block_time q of
           Some _ \<Rightarrow> Inl (Query (QueryUnsupported ''Not yet implemented''))
         | None \<Rightarrow> Inr (set_subquery_key [0] query))
      else Inr query)"

definition primary_key_direction :: "'j drive_query \<Rightarrow> error + bool" where
  "primary_key_direction q =
     (case dq_order_by q of
        [(f, c)] \<Rightarrow>
          if f \<noteq> ''$id'' then Inl (Query (InvalidOrderByProperties ''order by should include $id only''))
          else Inr (oc_ascending c)
      | _ \<Rightarrow> Inr True)"

definition all_from_start :: "bool \<Rightarrow> (bytes \<times> bool) option \<Rightarrow> query_item" where
  "all_from_start ltr starts =
     (case starts of
        None \<Rightarrow> RangeFull
      | Some (start, included) \<Rightarrow>
          if ltr then (if included then RangeFrom start else RangeAfter start)
          else (if included then RangeToInclusive start else RangeTo start))"

definition get_primary_key_path_query :: "(string \<Rightarrow> bytes option) \<Rightarrow> field_codecs \<Rightarrow> 'j drive_query \<Rightarrow> path \<Rightarrow>
    (document \<times> bool) option \<Rightarrow> error + path_query" where
  "get_primary_key_path_query b58 C q dt_path starts_at_document =
     (let path = dt_path @ [[0]]; dt = dq_document_type q;
          sized = (\<lambda>query. \<lparr>pq_path = path, pq_query = query, pq_limit = Some (dq_limit q), pq_offset = Some (dq_offset q)\<rparr>)
      in case primary_key_equal_clause (dq_clauses q) of
           Some c \<Rightarrow>
             rbind (map_err ContractErr (serialize_value_for_key b58 C dt ''$id'' (wc_value c))) (\<lambda>k.
               let query = insert_item (Key k) query_new;
                   query =
                     (if documents_keep_history dt then
                        (case dq_block_time q of
                           Some t \<Rightarrow>
                             set_subquery (insert_item (RangeToInclusive (encode_float t)) (query_new_with_direction False)) query
                         | None \<Rightarrow> set_subquery_key [0] query)
                      else query)
               in Inr \<lparr>pq_path = path, pq_query = query, pq_limit = Some 1, pq_offset = None\<rparr>)
         | None \<Rightarrow>
             rbind (primary_key_direction q) (\<lambda>ltr.
             rbind (case starts_at_document of
                      None \<Rightarrow> Inr None
                    | Some (document, included) \<Rightarrow>
                        rmap (map_option (\<lambda>raw. (raw, included))) (get_raw_for_document_type b58 C document ''$id'' dt None)) (\<lambda>starts.
               case primary_key_in_clause (dq_clauses q) of
                 Some c \<Rightarrow>
                   rbind (in_values c) (\<lambda>vs.
                   rbind (mapM (\<lambda>v. map_err ContractErr (serialize_value_for_key b58 C dt ''$id'' v)) vs) (\<lambda>ks.
                   rbind (history_branch q (foldl (\<lambda>q i. insert_item i q) (query_new_with_direction ltr)
                            (concat (map (key_items ltr starts) ks)))) (\<lambda>query. Inr (sized query))))
               | None \<Rightarrow>
                   rbind (history_branch q (insert_item (all_from_start ltr starts) (query_new_with_direction ltr)))
                     (\<lambda>query. Inr (sized query)))))"

section \<open>Queries over an index\<close>

definition query_fields :: "internal_clauses \<Rightarrow> string list" where
  "query_fields c =
     map fst (equal_clauses c) @
     (case range_clause c of Some r \<Rightarrow> [wc_field r] | None \<Rightarrow> []) @
     (case in_clause c of Some i \<Rightarrow> [wc_field i] | None \<Rightarrow> [])"

definition add_order_field :: "string list \<Rightarrow> string \<Rightarrow> string list" where
  "add_order_field fs f = (if f \<in> set fs then fs else fs @ [f])"

definition find_best_index :: "'j drive_query \<Rightarrow> error + index" where
  "find_best_index q =
     (let order_by_keys = map fst (dq_order_by q);
          fs = foldl add_order_field (query_fields (dq_clauses q)) order_by_keys
      in rbind (ok_or (Query (WhereClauseOnNonIndexedProperty ''query must be for valid indexes''))
                  (index_for_types (dq_document_type q) fs (map_option wc_field (in_clause (dq_clauses q))) order_by_keys))
           (\<lambda>(ix, difference).
              if difference > MAX_INDEX_DIFFERENCE
              then Inl (Query (QueryTooFarFromIndex ''query must better match an existing index''))
              else Inr ix))"

definition query_item_for_starts_at_key :: "bytes \<Rightarrow> bool \<Rightarrow> query_item" where
  "query_item_for_starts_at_key start ltr = (if ltr then RangeAfter start else RangeTo start)"

text \<open>The start document with its type, the property it starts at and whether it is included.\<close>

type_synonym query_start = "(document \<times> document_type \<times> index_property \<times> bool) option"

definition inner_query_from_starts_at_for_id :: "query_start \<Rightarrow> bool \<Rightarrow> query" where
  "inner_query_from_starts_at_for_id starts ltr =
     insert_item
       (case starts of
          Some (document, _, _, included) \<Rightarrow> if included then RangeFrom (doc_id document) else RangeAfter (doc_id document)
        | None \<Rightarrow> RangeFull) (query_new_with_direction ltr)"

definition inner_query_starts_from_key :: "bytes \<Rightarrow> bool \<Rightarrow> bool \<Rightarrow> query" where
  "inner_query_starts_from_key start_at_key ltr included =
     insert_item (all_from_start ltr (Some (start_at_key, included))) (query_new_with_direction ltr)"

definition inner_query_from_starts_at :: "(string \<Rightarrow> bytes option) \<Rightarrow> field_codecs \<Rightarrow> query_start \<Rightarrow> bool \<Rightarrow> error + query" where
  "inner_query_from_starts_at b58 C starts ltr =
     rmap (\<lambda>item. insert_item item (query_new_with_direction ltr))
       (case starts of
          Some (document, dt, indexed_property, included) \<Rightarrow>
            rmap (\<lambda>start_at_key.
                case start_at_key of
                  Some k \<Rightarrow> all_from_start ltr (Some (k, included))
                | None \<Rightarrow> if ltr then RangeFull else Key [])
              (get_raw_for_document_type b58 C document (property_name indexed_property) dt None)
        | None \<Rightarrow> Inr RangeFull)"

definition property_direction :: "order_map option \<Rightarrow> index_property \<Rightarrow> bool" where
  "property_direction order_by p =
     (case order_by of
        Some m \<Rightarrow> (case map_of m (property_name p) of Some c \<Rightarrow> oc_ascending c | None \<Rightarrow> ascending p)
      | None \<Rightarrow> ascending p)"

text \<open>The level below the last property: the tree \<open>[0]\<close> of references, or the one reference of a unique index.\<close>

definition insert_ids_on_query :: "query \<Rightarrow> bool \<Rightarrow> query_start \<Rightarrow> bool \<Rightarrow> query" where
  "insert_ids_on_query q is_unique starts default_ltr =
     (if is_unique then
        add_conditional_subquery (Key []) (Some [0]) (Some (inner_query_from_starts_at_for_id starts True))
          (set_subquery_key [0] q)
      else
        add_conditional_subquery (Key []) (Some [0]) (Some (inner_query_from_starts_at_for_id starts default_ltr))
          (set_subquery (inner_query_from_starts_at_for_id None default_ltr) (set_subquery_key [0] q)))"

definition start_key_or_default :: "(string \<Rightarrow> bytes option) \<Rightarrow> field_codecs \<Rightarrow> document \<Rightarrow> string \<Rightarrow> document_type \<Rightarrow> bytes" where
  "start_key_or_default b58 C document name dt =
     (case get_raw_for_document_type b58 C document name dt None of Inr (Some k) \<Rightarrow> k | _ \<Rightarrow> [])"

text \<open>The recursion on a given query, which cannot fail, and its entry.\<close>

fun insert_on_query :: "(string \<Rightarrow> bytes option) \<Rightarrow> field_codecs \<Rightarrow> query \<Rightarrow> index_property list \<Rightarrow> bool \<Rightarrow> query_start \<Rightarrow>
    bool \<Rightarrow> order_map option \<Rightarrow> query" where
  "insert_on_query b58 C q [] is_unique starts default_ltr order_by = insert_ids_on_query q is_unique starts default_ltr"
| "insert_on_query b58 C q (p # left_over) is_unique starts default_ltr order_by =
     (let ltr = property_direction order_by p;
          inner =
            (case starts of
               Some (document, dt, _, included) \<Rightarrow>
                 inner_query_starts_from_key (start_key_or_default b58 C document (property_name p) dt) ltr
                   (left_over \<noteq> [] \<or> included)
             | None \<Rightarrow> insert_item RangeFull (query_new_with_direction (ascending p)))
      in set_subquery_key (string_bytes (property_name p))
           (set_subquery (insert_on_query b58 C inner left_over is_unique starts ltr order_by) q))"

definition recursive_insert_on_query :: "(string \<Rightarrow> bytes option) \<Rightarrow> field_codecs \<Rightarrow> index_property list \<Rightarrow> bool \<Rightarrow>
    query_start \<Rightarrow> order_map option \<Rightarrow> error + query option" where
  "recursive_insert_on_query b58 C left_over_properties is_unique starts order_by =
     (case left_over_properties of
        [] \<Rightarrow> Inr None
      | p # left_over \<Rightarrow>
          (let ltr = property_direction order_by p
           in rbind (inner_query_from_starts_at b58 C starts ltr) (\<lambda>inner.
                Inr (Some (insert_on_query b58 C inner left_over is_unique starts ltr order_by)))))"

text \<open>The clause of the last tree the path leads to, whether it is a range, and the clause below it.\<close>

definition equal_clause_for :: "internal_clauses \<Rightarrow> index_property \<Rightarrow> where_clause option" where
  "equal_clause_for c p = bt_get (property_name p) (equal_clauses c)"

definition last_clause_of :: "internal_clauses \<Rightarrow> index_property list \<Rightarrow> where_clause option \<times> bool \<times> where_clause option" where
  "last_clause_of c ps =
     (let ordered_clauses = List.map_filter (equal_clause_for c) ps
      in case in_clause c of
           None \<Rightarrow>
             (case range_clause c of
                None \<Rightarrow> (if ordered_clauses = [] then None else Some (last ordered_clauses), False, None)
              | Some r \<Rightarrow> (Some r, True, None))
         | Some i \<Rightarrow> (Some i, True, range_clause c))"

definition on_field :: "where_clause option \<Rightarrow> index_property \<Rightarrow> bool" where
  "on_field c p \<longleftrightarrow> (case c of Some c \<Rightarrow> wc_field c = property_name p | None \<Rightarrow> False)"

definition left_over_properties :: "internal_clauses \<Rightarrow> index_property list \<Rightarrow> index_property list" where
  "left_over_properties c ps =
     (case last_clause_of c ps of (last_clause, _, subquery_clause) \<Rightarrow>
        filter (\<lambda>p. \<not> (equal_clause_for c p \<noteq> None \<or> on_field last_clause p \<or> on_field subquery_clause p)) ps)"

definition intermediate_clauses :: "internal_clauses \<Rightarrow> index_property list \<Rightarrow> (index_property \<times> where_clause) list" where
  "intermediate_clauses c ps =
     (case last_clause_of c ps of (last_clause, last_clause_is_range, _) \<Rightarrow>
        List.map_filter (\<lambda>p. case equal_clause_for c p of
            None \<Rightarrow> None
          | Some w \<Rightarrow> if \<not> last_clause_is_range \<and> on_field last_clause p then None else Some (p, w)) ps)"

definition intermediate_values :: "(string \<Rightarrow> bytes option) \<Rightarrow> field_codecs \<Rightarrow> document_type \<Rightarrow> internal_clauses \<Rightarrow>
    index_property list \<Rightarrow> error + bytes list" where
  "intermediate_values b58 C dt c ps =
     mapM (\<lambda>(p, w). map_err ContractErr (serialize_value_for_key b58 C dt (property_name p) (wc_value w)))
       (intermediate_clauses c ps)"

definition order_for_range :: "order_map \<Rightarrow> where_clause \<Rightarrow> error + order_clause" where
  "order_for_range order_by c =
     ok_or (Query (MissingOrderByForRange ''query must have an orderBy field for each range element''))
       (map_of order_by (wc_field c))"

definition find_property :: "string \<Rightarrow> index_property list \<Rightarrow> where_clause \<Rightarrow> error + index_property" where
  "find_property message ps c =
     ok_or (DriveErr (CorruptedContractIndexes message)) (List.find (\<lambda>p. wc_field c = property_name p) ps)"

definition with_property :: "(document \<times> bool) option \<Rightarrow> document_type \<Rightarrow> index_property \<Rightarrow> query_start" where
  "with_property start dt p = map_option (\<lambda>(document, included). (document, dt, p, included)) start"

definition last_clause_query :: "(string \<Rightarrow> bytes option) \<Rightarrow> field_codecs \<Rightarrow> 'j drive_query \<Rightarrow> index \<Rightarrow>
    (document \<times> bool) option \<Rightarrow> index_property list \<Rightarrow> where_clause \<Rightarrow> where_clause option \<Rightarrow> error + query" where
  "last_clause_query b58 C q ix start left_over c subquery_clause =
     (let dt = dq_document_type q; ps = index_properties ix
      in rbind (if is_range (wc_operator c) then rmap oc_ascending (order_for_range (dq_order_by q) c) else Inr True) (\<lambda>ltr.
         rbind (to_path_query b58 C c dt (if left_over = [] then start else None) ltr) (\<lambda>query.
           case subquery_clause of
             None \<Rightarrow>
               rbind (find_property ''index must have last_clause field'' ps c) (\<lambda>p.
                 Inr (insert_on_query b58 C query left_over (unique ix) (with_property start dt p) ltr
                   (Some (dq_order_by q))))
           | Some sc \<Rightarrow>
               rbind (order_for_range (dq_order_by q) sc) (\<lambda>oc.
               rbind (to_path_query b58 C sc dt start (oc_ascending oc)) (\<lambda>subquery.
               rbind (find_property ''index must have subquery_clause field'' ps sc) (\<lambda>p.
                 Inr (set_subquery
                   (insert_on_query b58 C subquery left_over (unique ix) (with_property start dt p) ltr (Some (dq_order_by q)))
                   (set_subquery_key (string_bytes (wc_field sc)) query))))))))"

definition interleave_path :: "index_property list \<Rightarrow> bytes list \<Rightarrow> path" where
  "interleave_path ps vs = concat (map (\<lambda>(p, v). [string_bytes (property_name p), v]) (zip ps vs))"

definition final_query :: "(string \<Rightarrow> bytes option) \<Rightarrow> field_codecs \<Rightarrow> 'j drive_query \<Rightarrow> index \<Rightarrow>
    (document \<times> bool) option \<Rightarrow> error + query" where
  "final_query b58 C q ix start =
     (let ps = index_properties ix; left_over = left_over_properties (dq_clauses q) ps
      in case last_clause_of (dq_clauses q) ps of
           (None, _, _) \<Rightarrow>
             rbind (ok_or (DriveErr (CorruptedContractIndexes ''index must have properties''))
                      (case ps of [] \<Rightarrow> None | p # _ \<Rightarrow> Some p)) (\<lambda>first_index.
             rbind (recursive_insert_on_query b58 C left_over (unique ix)
                      (with_property start (dq_document_type q) first_index) None) (\<lambda>query.
               ok_or (Panic ''Index must have left over properties if no last clause'') query))
         | (Some w, _, subquery_clause) \<Rightarrow> last_clause_query b58 C q ix start left_over w subquery_clause)"

definition get_non_primary_key_path_query :: "(string \<Rightarrow> bytes option) \<Rightarrow> field_codecs \<Rightarrow> 'j drive_query \<Rightarrow> path \<Rightarrow>
    (document \<times> bool) option \<Rightarrow> error + path_query" where
  "get_non_primary_key_path_query b58 C q dt_path start =
     rbind (find_best_index q) (\<lambda>ix.
     rbind (intermediate_values b58 C (dq_document_type q) (dq_clauses q) (index_properties ix)) (\<lambda>vals.
     rbind (final_query b58 C q ix start) (\<lambda>query.
     rbind (ok_or (Query (QueryOnDocumentTypeWithNoIndexes ''document query has no index with fields''))
              (case drop (length vals) (index_properties ix) of [] \<Rightarrow> None | p # _ \<Rightarrow> Some p)) (\<lambda>last_index.
       Inr \<lparr>pq_path = dt_path @ interleave_path (index_properties ix) vals @ [string_bytes (property_name last_index)],
            pq_query = query, pq_limit = Some (dq_limit q), pq_offset = Some (dq_offset q)\<rparr>))))"

section \<open>Execution\<close>

text \<open>The start document is read from the store before the path query is built.\<close>

definition start_document_path :: "'j drive_query \<Rightarrow> bytes \<Rightarrow> path \<times> bytes" where
  "start_document_path q starts_at =
     (let name = type_name (dq_document_type q)
      in if documents_keep_history (dq_document_type q)
         then (documents_with_history_primary_key_path (dq_contract q) name starts_at, [0])
         else (documents_primary_key_path (dq_contract q) name, starts_at))"

definition start_not_found :: "bool \<Rightarrow> error \<Rightarrow> error" where
  "start_not_found included e =
     (case e of
        GroveDB g \<Rightarrow>
          if not_found g
          then Query (StartDocumentNotFound (if included then ''startAt document not found'' else ''startAfter document not found''))
          else e
      | _ \<Rightarrow> e)"

definition fetch_start_document :: "(bytes \<Rightarrow> (string, cbor) btree option) \<Rightarrow> (string \<Rightarrow> bytes option) \<Rightarrow> 'db drive \<Rightarrow> 'db \<Rightarrow>
    'j drive_query \<Rightarrow> bytes \<Rightarrow> drive_ops \<Rightarrow> error + (document \<times> drive_ops)" where
  "fetch_start_document cbor_decode b58 d db q starts_at ops =
     (case start_document_path q starts_at of (path, k) \<Rightarrow>
        rbind (map_err (start_not_found (dq_start_at_included q)) (grove_get d db path (KeyRefRequest k) None ops)) (\<lambda>(element, ops).
        rbind (ok_or (corrupted ''expected a value'') element) (\<lambda>element.
          case element of
            Item item _ \<Rightarrow> rmap (\<lambda>document. (document, ops)) (document_from_cbor cbor_decode b58 item None None)
          | _ \<Rightarrow> Inl (DriveErr (CorruptedDocumentPath ''Holding paths should only have items'')))))"

definition construct_path_query_operations :: "(bytes \<Rightarrow> (string, cbor) btree option) \<Rightarrow> (string \<Rightarrow> bytes option) \<Rightarrow>
    field_codecs \<Rightarrow> 'db drive \<Rightarrow> 'db \<Rightarrow> 'j drive_query \<Rightarrow> drive_ops \<Rightarrow> error + (path_query \<times> drive_ops)" where
  "construct_path_query_operations cbor_decode b58 C d db q ops =
     (let dt_path = document_type_path (dq_contract q) (type_name (dq_document_type q))
      in rbind (case dq_start_at q of
                  None \<Rightarrow> Inr (None, ops)
                | Some starts_at \<Rightarrow>
                    rmap (\<lambda>(document, ops). (Some (document, dq_start_at_included q), ops))
                      (fetch_start_document cbor_decode b58 d db q starts_at ops)) (\<lambda>(start, ops).
         rmap (\<lambda>pq. (pq, ops))
           (if is_for_primary_key q then get_primary_key_path_query b58 C q dt_path start
            else get_non_primary_key_path_query b58 C q dt_path start)))"

definition query_cost :: "'db drive \<Rightarrow> epoch option \<Rightarrow> drive_ops \<Rightarrow> error + u64" where
  "query_cost d block_epoch ops =
     (case block_epoch of
        None \<Rightarrow> Inr 0
      | Some e \<Rightarrow>
          rmap processing_fee
            (calculate_fee (im_insert d) (im_remove d) (GroveOps.total_removed_bytes d) None (Some ops) e))"

definition execute_no_proof_internal :: "(bytes \<Rightarrow> (string, cbor) btree option) \<Rightarrow> (string \<Rightarrow> bytes option) \<Rightarrow>
    field_codecs \<Rightarrow> 'db drive \<Rightarrow> 'db \<Rightarrow> 'j drive_query \<Rightarrow> drive_ops \<Rightarrow> error + ((bytes list \<times> u16) \<times> drive_ops)" where
  "execute_no_proof_internal cbor_decode b58 C d db q ops =
     rbind (construct_path_query_operations cbor_decode b58 C d db q ops) (\<lambda>(pq, ops).
       case grove_get_path_query d db pq ops of
         Inl (GroveDB g) \<Rightarrow> if not_found g then Inr (([], 0), ops @ [CalculatedCostOperation (gdb_cost_query (grove d) db pq)]) else Inl (GroveDB g)
       | r \<Rightarrow> r)"

definition execute_no_proof :: "(bytes \<Rightarrow> (string, cbor) btree option) \<Rightarrow> (string \<Rightarrow> bytes option) \<Rightarrow>
    field_codecs \<Rightarrow> 'db drive \<Rightarrow> 'db \<Rightarrow> 'j drive_query \<Rightarrow> epoch option \<Rightarrow> error + (bytes list \<times> u16 \<times> u64)" where
  "execute_no_proof cbor_decode b58 C d db q block_epoch =
     rbind (execute_no_proof_internal cbor_decode b58 C d db q []) (\<lambda>((items, skipped), ops).
     rbind (query_cost d block_epoch ops) (\<lambda>cost. Inr (items, skipped, cost)))"

definition execute_with_proof_internal :: "(bytes \<Rightarrow> (string, cbor) btree option) \<Rightarrow> (string \<Rightarrow> bytes option) \<Rightarrow>
    field_codecs \<Rightarrow> 'db drive \<Rightarrow> 'db \<Rightarrow> 'j drive_query \<Rightarrow> drive_ops \<Rightarrow> error + (bytes \<times> drive_ops)" where
  "execute_with_proof_internal cbor_decode b58 C d db q ops =
     rbind (construct_path_query_operations cbor_decode b58 C d db q ops) (\<lambda>(pq, ops).
       grove_get_proved_path_query d db pq ops)"

definition execute_with_proof :: "(bytes \<Rightarrow> (string, cbor) btree option) \<Rightarrow> (string \<Rightarrow> bytes option) \<Rightarrow>
    field_codecs \<Rightarrow> 'db drive \<Rightarrow> 'db \<Rightarrow> 'j drive_query \<Rightarrow> epoch option \<Rightarrow> error + (bytes \<times> u64)" where
  "execute_with_proof cbor_decode b58 C d db q block_epoch =
     rbind (execute_with_proof_internal cbor_decode b58 C d db q []) (\<lambda>(items, ops).
     rbind (query_cost d block_epoch ops) (\<lambda>cost. Inr (items, cost)))"

text \<open>The values of a verified proof: \<open>verify_query\<close> and \<open>Element::deserialize\<close> are GroveDB's.\<close>

definition proved_value :: "(bytes \<Rightarrow> element option) \<Rightarrow> bytes \<Rightarrow> error + bytes" where
  "proved_value element_deserialize value =
     rbind (ok_or (Panic ''called Result::unwrap() on an Err value'') (element_deserialize value)) (\<lambda>e.
       case e of
         Item val _ \<Rightarrow> Inr val
       | _ \<Rightarrow> Inl (GroveDB (InvalidQuery ''path query should only point to items: got trees'')))"

definition execute_with_proof_only_get_elements_internal ::
    "(bytes \<Rightarrow> path_query \<Rightarrow> grove_error + (bytes \<times> bytes list)) \<Rightarrow> (bytes \<Rightarrow> element option) \<Rightarrow>
     (bytes \<Rightarrow> (string, cbor) btree option) \<Rightarrow> (string \<Rightarrow> bytes option) \<Rightarrow>
     field_codecs \<Rightarrow> 'db drive \<Rightarrow> 'db \<Rightarrow> 'j drive_query \<Rightarrow> drive_ops \<Rightarrow> error + ((bytes \<times> bytes list) \<times> drive_ops)" where
  "execute_with_proof_only_get_elements_internal verify_query element_deserialize cbor_decode b58 C d db q ops =
     rbind (construct_path_query_operations cbor_decode b58 C d db q ops) (\<lambda>(pq, ops).
     rbind (grove_get_proved_path_query d db pq ops) (\<lambda>(proof, ops).
     rbind (map_err GroveDB (verify_query proof pq)) (\<lambda>(root_hash, values).
     rbind (mapM (proved_value element_deserialize) values) (\<lambda>values.
       Inr ((root_hash, values), ops)))))"

definition execute_with_proof_only_get_elements ::
    "(bytes \<Rightarrow> path_query \<Rightarrow> grove_error + (bytes \<times> bytes list)) \<Rightarrow> (bytes \<Rightarrow> element option) \<Rightarrow>
     (bytes \<Rightarrow> (string, cbor) btree option) \<Rightarrow> (string \<Rightarrow> bytes option) \<Rightarrow>
     field_codecs \<Rightarrow> 'db drive \<Rightarrow> 'db \<Rightarrow> 'j drive_query \<Rightarrow> epoch option \<Rightarrow> error + (bytes \<times> bytes list \<times> u64)" where
  "execute_with_proof_only_get_elements verify_query element_deserialize cbor_decode b58 C d db q block_epoch =
     rbind (execute_with_proof_only_get_elements_internal verify_query element_deserialize cbor_decode b58 C d db q [])
       (\<lambda>((root_hash, values), ops).
     rbind (query_cost d block_epoch ops) (\<lambda>cost. Inr (root_hash, values, cost)))"

end
