(* ===== verification/DocApi.thy ===== *)
theory DocApi
  imports ContractStore Queries
begin

text \<open>
  The entry points of Drive that take serialized documents and contracts or the identifier of a contract: those of
  \<open>drive/src/drive/document\<close>, the queries of \<open>drive/src/drive/query.rs\<close>, and the batches of high level operations of
  \<open>drive/src/drive/batch/drive_op_batch.rs\<close>. A contract given by its identifier is read through the cache, which is
  returned with every result.
\<close>

section \<open>Documents\<close>

definition read_document :: "contract_codecs \<Rightarrow> bytes \<Rightarrow> id32 option \<Rightarrow> error + document" where
  "read_document E serialized owner = document_from_cbor (cbor_decoder E) (base58_decoder E) serialized None owner"

definition find_document_type :: "'j data_contract \<Rightarrow> string \<Rightarrow> error + document_type" where
  "find_document_type contract document_type_name = map_err ContractErr (document_type_for_name contract document_type_name)"

definition serialized_document_info :: "contract_codecs \<Rightarrow> bytes \<Rightarrow> 'j data_contract \<Rightarrow> string \<Rightarrow> id32 option \<Rightarrow>
    storage_flags option \<Rightarrow> error + 'j document_and_contract_info" where
  "serialized_document_info E serialized contract document_type_name owner flags =
     rbind (read_document E serialized owner) (\<lambda>doc.
     rbind (find_document_type contract document_type_name) (\<lambda>dt.
       Inr \<lparr>document_info = DocumentRefAndSerialization doc serialized flags, info_contract = contract,
            info_document_type = dt, info_owner_id = owner\<rparr>))"

definition add_serialized_document_for_contract :: "contract_codecs \<Rightarrow> field_codecs \<Rightarrow> 'db drive \<Rightarrow> 'db \<Rightarrow> bytes \<Rightarrow>
    'j data_contract \<Rightarrow> string \<Rightarrow> id32 option \<Rightarrow> bool \<Rightarrow> storage_block_info \<Rightarrow> bool \<Rightarrow> storage_flags option \<Rightarrow>
    error + ('db \<times> fee_result)" where
  "add_serialized_document_for_contract E C d db serialized contract document_type_name owner override_document block apply flags =
     rbind (serialized_document_info E serialized contract document_type_name owner flags) (\<lambda>i.
       add_document_for_contract (cbor_decoder E) (base58_decoder E) C d db i override_document block apply)"

definition add_serialized_document_for_serialized_contract :: "contract_codecs \<Rightarrow> field_codecs \<Rightarrow> 'db drive \<Rightarrow> 'db \<Rightarrow> bytes \<Rightarrow>
    bytes \<Rightarrow> string \<Rightarrow> id32 option \<Rightarrow> bool \<Rightarrow> storage_block_info \<Rightarrow> bool \<Rightarrow> storage_flags option \<Rightarrow>
    error + ('db \<times> fee_result)" where
  "add_serialized_document_for_serialized_contract E C d db serialized serialized_contract document_type_name owner
       override_document block apply flags =
     rbind (read_contract E serialized_contract None) (\<lambda>contract.
     rbind (serialized_document_info E serialized contract document_type_name owner flags) (\<lambda>i.
       add_document_for_contract (cbor_decoder E) (base58_decoder E) C d db i override_document block apply))"

definition update_serialized_document_for_contract :: "contract_codecs \<Rightarrow> field_codecs \<Rightarrow> 'db drive \<Rightarrow> 'db \<Rightarrow> bytes \<Rightarrow>
    'j data_contract \<Rightarrow> string \<Rightarrow> id32 option \<Rightarrow> storage_block_info \<Rightarrow> bool \<Rightarrow> storage_flags option \<Rightarrow>
    error + ('db \<times> fee_result)" where
  "update_serialized_document_for_contract E C d db serialized contract document_type_name owner block apply flags =
     rbind (read_document E serialized owner) (\<lambda>doc.
       update_document_for_contract (cbor_decoder E) (base58_decoder E) C d db doc serialized contract document_type_name
         owner block apply flags)"

definition update_document_for_contract_cbor :: "contract_codecs \<Rightarrow> field_codecs \<Rightarrow> 'db drive \<Rightarrow> 'db \<Rightarrow> bytes \<Rightarrow> bytes \<Rightarrow>
    string \<Rightarrow> id32 option \<Rightarrow> storage_block_info \<Rightarrow> bool \<Rightarrow> storage_flags option \<Rightarrow> error + ('db \<times> fee_result)" where
  "update_document_for_contract_cbor E C d db serialized contract_cbor document_type_name owner block apply flags =
     rbind (read_contract E contract_cbor None) (\<lambda>contract.
       update_serialized_document_for_contract E C d db serialized contract document_type_name owner block apply flags)"

definition delete_document_for_contract_cbor :: "contract_codecs \<Rightarrow> field_codecs \<Rightarrow> 'db drive \<Rightarrow> 'db \<Rightarrow> bytes \<Rightarrow> bytes \<Rightarrow>
    string \<Rightarrow> id32 option \<Rightarrow> storage_block_info \<Rightarrow> bool \<Rightarrow> error + ('db \<times> fee_result)" where
  "delete_document_for_contract_cbor E C d db document_id contract_cbor document_type_name owner block apply =
     rbind (read_contract E contract_cbor None) (\<lambda>contract.
       delete_document_for_contract (cbor_decoder E) (base58_decoder E) C d db document_id contract document_type_name
         owner block apply)"

section \<open>Documents of a contract given by its identifier\<close>

text \<open>The contract is fetched and paid for first; then the operation runs, and the fee covers both.\<close>

definition with_contract :: "('c, json contract_fetch_info) cache_ops \<Rightarrow> contract_codecs \<Rightarrow> 'db drive \<Rightarrow> 'db \<Rightarrow>
    'c data_contract_cache \<Rightarrow> bytes \<Rightarrow> storage_block_info \<Rightarrow> u64 option \<Rightarrow>
    (json data_contract \<Rightarrow> drive_ops \<Rightarrow> error + ('db \<times> drive_ops)) \<Rightarrow>
    'c data_contract_cache \<times> (error + ('db \<times> fee_result))" where
  "with_contract M E d db cache cid block tx run =
     map_prod id (\<lambda>r.
       rbind r (\<lambda>(contract_fetch_info, ops).
       rbind (ok_or (DocumentErr DocumentContractNotFound) contract_fetch_info) (\<lambda>contract_fetch_info.
       rbind (run (fetched_contract contract_fetch_info) ops) (\<lambda>(db, ops).
       rbind (drive_fee d ops block) (\<lambda>fee. Inr (db, fee))))))
     (get_contract_with_fetch_info_and_add_to_operations M E d db cache cid (Some (block_epoch block)) tx [])"

definition add_serialized_document_for_contract_id :: "('c, json contract_fetch_info) cache_ops \<Rightarrow> contract_codecs \<Rightarrow>
    field_codecs \<Rightarrow> 'db drive \<Rightarrow> 'db \<Rightarrow> 'c data_contract_cache \<Rightarrow> bytes \<Rightarrow> bytes \<Rightarrow> string \<Rightarrow> id32 option \<Rightarrow> bool \<Rightarrow>
    storage_block_info \<Rightarrow> bool \<Rightarrow> storage_flags option \<Rightarrow> u64 option \<Rightarrow>
    'c data_contract_cache \<times> (error + ('db \<times> fee_result))" where
  "add_serialized_document_for_contract_id M E C d db cache serialized cid document_type_name owner override_document block
       apply flags tx =
     with_contract M E d db cache cid block tx (\<lambda>contract ops.
       rbind (serialized_document_info E serialized contract document_type_name owner flags) (\<lambda>i.
         add_document_for_contract_apply_and_add_to_operations (cbor_decoder E) (base58_decoder E) C d db i override_document
           block apply ops))"

definition update_document_for_contract_id :: "('c, json contract_fetch_info) cache_ops \<Rightarrow> contract_codecs \<Rightarrow>
    field_codecs \<Rightarrow> 'db drive \<Rightarrow> 'db \<Rightarrow> 'c data_contract_cache \<Rightarrow> bytes \<Rightarrow> bytes \<Rightarrow> string \<Rightarrow> id32 option \<Rightarrow>
    storage_block_info \<Rightarrow> bool \<Rightarrow> storage_flags option \<Rightarrow> u64 option \<Rightarrow>
    'c data_contract_cache \<times> (error + ('db \<times> fee_result))" where
  "update_document_for_contract_id M E C d db cache serialized cid document_type_name owner block apply flags tx =
     with_contract M E d db cache cid block tx (\<lambda>contract ops.
       rbind (serialized_document_info E serialized contract document_type_name owner flags) (\<lambda>i.
         update_document_for_contract_apply_and_add_to_operations (cbor_decoder E) (base58_decoder E) C d db i block apply ops))"

definition delete_document_for_contract_id :: "('c, json contract_fetch_info) cache_ops \<Rightarrow> contract_codecs \<Rightarrow>
    field_codecs \<Rightarrow> 'db drive \<Rightarrow> 'db \<Rightarrow> 'c data_contract_cache \<Rightarrow> bytes \<Rightarrow> bytes \<Rightarrow> string \<Rightarrow> id32 option \<Rightarrow>
    storage_block_info \<Rightarrow> bool \<Rightarrow> u64 option \<Rightarrow> 'c data_contract_cache \<times> (error + ('db \<times> fee_result))" where
  "delete_document_for_contract_id M E C d db cache document_id cid document_type_name owner block apply tx =
     with_contract M E d db cache cid block tx (\<lambda>contract ops.
       delete_document_for_contract_apply_and_add_to_operations (cbor_decoder E) (base58_decoder E) C d db document_id contract
         document_type_name owner apply ops)"

section \<open>Queries\<close>

definition query_documents_from_contract_internal :: "contract_codecs \<Rightarrow> field_codecs \<Rightarrow> 'db drive \<Rightarrow> 'db \<Rightarrow>
    'j data_contract \<Rightarrow> document_type \<Rightarrow> bytes \<Rightarrow> drive_ops \<Rightarrow> error + ((bytes list \<times> u16) \<times> drive_ops)" where
  "query_documents_from_contract_internal E C d db contract dt query_cbor ops =
     rbind (query_from_cbor (cbor_decoder E) (base58_decoder E) query_cbor contract dt) (\<lambda>q.
       execute_no_proof_internal (cbor_decoder E) (base58_decoder E) C d db q ops)"

definition query_documents_from_contract :: "contract_codecs \<Rightarrow> field_codecs \<Rightarrow> 'db drive \<Rightarrow> 'db \<Rightarrow>
    'j data_contract \<Rightarrow> document_type \<Rightarrow> bytes \<Rightarrow> storage_block_info option \<Rightarrow> error + (bytes list \<times> u16 \<times> u64)" where
  "query_documents_from_contract E C d db contract dt query_cbor block =
     rbind (query_documents_from_contract_internal E C d db contract dt query_cbor []) (\<lambda>((found, skipped), ops).
     rbind (query_cost d (map_option block_epoch block) ops) (\<lambda>cost. Inr (found, skipped, cost)))"

definition query_documents_from_contract_cbor :: "contract_codecs \<Rightarrow> field_codecs \<Rightarrow> 'db drive \<Rightarrow> 'db \<Rightarrow>
    bytes \<Rightarrow> string \<Rightarrow> bytes \<Rightarrow> storage_block_info option \<Rightarrow> error + (bytes list \<times> u16 \<times> u64)" where
  "query_documents_from_contract_cbor E C d db contract_cbor document_type_name query_cbor block =
     rbind (read_contract E contract_cbor None) (\<lambda>contract.
     rbind (find_document_type contract document_type_name) (\<lambda>dt.
       query_documents_from_contract E C d db contract dt query_cbor block))"

text \<open>A query of a contract given by its identifier: the contract is fetched first.\<close>

definition query_with_contract :: "('c, json contract_fetch_info) cache_ops \<Rightarrow> contract_codecs \<Rightarrow> 'db drive \<Rightarrow> 'db \<Rightarrow>
    'c data_contract_cache \<Rightarrow> bytes \<Rightarrow> string \<Rightarrow> epoch option \<Rightarrow> u64 option \<Rightarrow>
    (json data_contract \<Rightarrow> document_type \<Rightarrow> drive_ops \<Rightarrow> error + 'r) \<Rightarrow> 'c data_contract_cache \<times> (error + 'r)" where
  "query_with_contract M E d db cache cid document_type_name epoch tx run =
     map_prod id (\<lambda>r.
       rbind r (\<lambda>(contract_fetch_info, ops).
       rbind (ok_or (Query (QueryContractNotFound ''contract not found'')) contract_fetch_info) (\<lambda>contract_fetch_info.
       rbind (find_document_type (fetched_contract contract_fetch_info) document_type_name) (\<lambda>dt.
         run (fetched_contract contract_fetch_info) dt ops))))
     (get_contract_with_fetch_info_and_add_to_operations M E d db cache cid epoch tx [])"

definition query_documents :: "('c, json contract_fetch_info) cache_ops \<Rightarrow> contract_codecs \<Rightarrow> field_codecs \<Rightarrow> 'db drive \<Rightarrow> 'db \<Rightarrow>
    'c data_contract_cache \<Rightarrow> bytes \<Rightarrow> bytes \<Rightarrow> string \<Rightarrow> epoch option \<Rightarrow> u64 option \<Rightarrow>
    'c data_contract_cache \<times> (error + (bytes list \<times> u16 \<times> u64))" where
  "query_documents M E C d db cache query_cbor cid document_type_name epoch tx =
     query_with_contract M E d db cache cid document_type_name epoch tx (\<lambda>contract dt ops.
       rbind (query_documents_from_contract_internal E C d db contract dt query_cbor ops) (\<lambda>((found, skipped), ops).
       rbind (query_cost d epoch ops) (\<lambda>cost. Inr (found, skipped, cost))))"

definition query_documents_from_contract_as_grove_proof_internal :: "contract_codecs \<Rightarrow> field_codecs \<Rightarrow> 'db drive \<Rightarrow> 'db \<Rightarrow>
    'j data_contract \<Rightarrow> document_type \<Rightarrow> bytes \<Rightarrow> drive_ops \<Rightarrow> error + (bytes \<times> drive_ops)" where
  "query_documents_from_contract_as_grove_proof_internal E C d db contract dt query_cbor ops =
     rbind (query_from_cbor (cbor_decoder E) (base58_decoder E) query_cbor contract dt) (\<lambda>q.
       execute_with_proof_internal (cbor_decoder E) (base58_decoder E) C d db q ops)"

definition query_documents_from_contract_as_grove_proof :: "contract_codecs \<Rightarrow> field_codecs \<Rightarrow> 'db drive \<Rightarrow> 'db \<Rightarrow>
    'j data_contract \<Rightarrow> document_type \<Rightarrow> bytes \<Rightarrow> storage_block_info option \<Rightarrow> error + (bytes \<times> u64)" where
  "query_documents_from_contract_as_grove_proof E C d db contract dt query_cbor block =
     rbind (query_documents_from_contract_as_grove_proof_internal E C d db contract dt query_cbor []) (\<lambda>(proof, ops).
     rbind (query_cost d (map_option block_epoch block) ops) (\<lambda>cost. Inr (proof, cost)))"

definition query_documents_from_contract_cbor_as_grove_proof :: "contract_codecs \<Rightarrow> field_codecs \<Rightarrow> 'db drive \<Rightarrow> 'db \<Rightarrow>
    bytes \<Rightarrow> string \<Rightarrow> bytes \<Rightarrow> storage_block_info option \<Rightarrow> error + (bytes \<times> u64)" where
  "query_documents_from_contract_cbor_as_grove_proof E C d db contract_cbor document_type_name query_cbor block =
     rbind (read_contract E contract_cbor None) (\<lambda>contract.
     rbind (find_document_type contract document_type_name) (\<lambda>dt.
       query_documents_from_contract_as_grove_proof E C d db contract dt query_cbor block))"

text \<open>The contract is paid for in one epoch, the query in that of the block.\<close>

definition query_documents_as_grove_proof :: "('c, json contract_fetch_info) cache_ops \<Rightarrow> contract_codecs \<Rightarrow> field_codecs \<Rightarrow>
    'db drive \<Rightarrow> 'db \<Rightarrow> 'c data_contract_cache \<Rightarrow> bytes \<Rightarrow> bytes \<Rightarrow> string \<Rightarrow> storage_block_info option \<Rightarrow> epoch option \<Rightarrow>
    u64 option \<Rightarrow> 'c data_contract_cache \<times> (error + (bytes \<times> u64))" where
  "query_documents_as_grove_proof M E C d db cache query_cbor cid document_type_name block epoch tx =
     query_with_contract M E d db cache cid document_type_name epoch tx (\<lambda>contract dt ops.
       rbind (query_documents_from_contract_as_grove_proof_internal E C d db contract dt query_cbor ops) (\<lambda>(proof, ops).
       rbind (query_cost d (map_option block_epoch block) ops) (\<lambda>cost. Inr (proof, cost))))"

definition query_documents_from_contract_as_grove_proof_only_get_elements_internal ::
    "(bytes \<Rightarrow> path_query \<Rightarrow> grove_error + (bytes \<times> bytes list)) \<Rightarrow> (bytes \<Rightarrow> element option) \<Rightarrow> contract_codecs \<Rightarrow>
     field_codecs \<Rightarrow> 'db drive \<Rightarrow> 'db \<Rightarrow> 'j data_contract \<Rightarrow> document_type \<Rightarrow> bytes \<Rightarrow> drive_ops \<Rightarrow>
     error + ((bytes \<times> bytes list) \<times> drive_ops)" where
  "query_documents_from_contract_as_grove_proof_only_get_elements_internal verify_query element_deserialize E C d db contract dt
       query_cbor ops =
     rbind (query_from_cbor (cbor_decoder E) (base58_decoder E) query_cbor contract dt) (\<lambda>q.
       execute_with_proof_only_get_elements_internal verify_query element_deserialize (cbor_decoder E) (base58_decoder E) C
         d db q ops)"

definition query_documents_from_contract_as_grove_proof_only_get_elements ::
    "(bytes \<Rightarrow> path_query \<Rightarrow> grove_error + (bytes \<times> bytes list)) \<Rightarrow> (bytes \<Rightarrow> element option) \<Rightarrow> contract_codecs \<Rightarrow>
     field_codecs \<Rightarrow> 'db drive \<Rightarrow> 'db \<Rightarrow> 'j data_contract \<Rightarrow> document_type \<Rightarrow> bytes \<Rightarrow> storage_block_info option \<Rightarrow>
     error + (bytes \<times> bytes list \<times> u64)" where
  "query_documents_from_contract_as_grove_proof_only_get_elements verify_query element_deserialize E C d db contract dt
       query_cbor block =
     rbind (query_documents_from_contract_as_grove_proof_only_get_elements_internal verify_query element_deserialize E C d db
              contract dt query_cbor []) (\<lambda>((root_hash, found), ops).
     rbind (query_cost d (map_option block_epoch block) ops) (\<lambda>cost. Inr (root_hash, found, cost)))"

section \<open>Batches of high level operations\<close>

datatype contract_operation_type =
    ApplyContractCbor bytes "id32 option" "storage_flags option"
  | ApplyContractWithSerialization "json data_contract" bytes "storage_flags option"

definition contract_to_drive_operations :: "contract_codecs \<Rightarrow> 'db drive \<Rightarrow> 'db \<Rightarrow> bool \<Rightarrow> storage_block_info \<Rightarrow>
    contract_operation_type \<Rightarrow> error + drive_ops" where
  "contract_to_drive_operations E d db apply block c =
     (case c of
        ApplyContractCbor contract_cbor cid flags \<Rightarrow>
          rbind (read_contract E contract_cbor cid) (\<lambda>contract.
            apply_contract_operations E d db contract contract_cbor block apply flags)
      | ApplyContractWithSerialization contract serialization flags \<Rightarrow>
          apply_contract_operations E d db contract serialization block apply flags)"

datatype document_operation_type =
    AddSerializedDocumentForSerializedContract bytes bytes string "id32 option" bool "storage_flags option"
  | AddSerializedDocumentForContract bytes "json data_contract" string "id32 option" bool "storage_flags option"
  | AddDocumentForContract "json document_and_contract_info" bool
  | DeleteDocumentForContract bytes "json data_contract" string "id32 option"
  | DeleteDocumentForContractCbor bytes bytes string "id32 option"
  | UpdateDocumentForContractCbor bytes bytes string "id32 option" "storage_flags option"
  | UpdateSerializedDocumentForContract bytes "json data_contract" string "id32 option" "storage_flags option"
  | UpdateDocumentForContract document bytes "json data_contract" string "id32 option" "storage_flags option"

definition document_to_drive_operations :: "contract_codecs \<Rightarrow> field_codecs \<Rightarrow> 'db drive \<Rightarrow> 'db \<Rightarrow> bool \<Rightarrow> storage_block_info \<Rightarrow>
    document_operation_type \<Rightarrow> error + drive_ops" where
  "document_to_drive_operations E C d db apply block o' =
     (let add = (\<lambda>i override_document.
            add_document_for_contract_operations (cbor_decoder E) (base58_decoder E) C d db i override_document block apply);
          update = (\<lambda>i. update_document_for_contract_operations (cbor_decoder E) (base58_decoder E) C d db i block apply);
          delete = (\<lambda>document_id contract name owner.
            delete_document_for_contract_operations (cbor_decoder E) (base58_decoder E) C d db document_id contract name owner apply)
      in case o' of
           AddSerializedDocumentForSerializedContract serialized serialized_contract name owner override_document flags \<Rightarrow>
             rbind (read_contract E serialized_contract None) (\<lambda>contract.
             rbind (serialized_document_info E serialized contract name owner flags) (\<lambda>i. add i override_document))
         | AddSerializedDocumentForContract serialized contract name owner override_document flags \<Rightarrow>
             rbind (serialized_document_info E serialized contract name owner flags) (\<lambda>i. add i override_document)
         | AddDocumentForContract i override_document \<Rightarrow> add i override_document
         | DeleteDocumentForContract document_id contract name owner \<Rightarrow> delete document_id contract name owner
         | DeleteDocumentForContractCbor document_id contract_cbor name owner \<Rightarrow>
             rbind (read_contract E contract_cbor None) (\<lambda>contract. delete document_id contract name owner)
         | UpdateDocumentForContractCbor serialized contract_cbor name owner flags \<Rightarrow>
             rbind (read_contract E contract_cbor None) (\<lambda>contract.
             rbind (serialized_document_info E serialized contract name owner flags) update)
         | UpdateSerializedDocumentForContract serialized contract name owner flags \<Rightarrow>
             rbind (serialized_document_info E serialized contract name owner flags) update
         | UpdateDocumentForContract doc serialized contract name owner flags \<Rightarrow>
             rbind (find_document_type contract name) (\<lambda>dt.
               update \<lparr>document_info = DocumentRefAndSerialization doc serialized flags, info_contract = contract,
                       info_document_type = dt, info_owner_id = owner\<rparr>))"

datatype drive_operation_type =
    ContractOperation contract_operation_type
  | DocumentOperation document_operation_type

definition to_drive_operations :: "contract_codecs \<Rightarrow> field_codecs \<Rightarrow> 'db drive \<Rightarrow> 'db \<Rightarrow> bool \<Rightarrow> storage_block_info \<Rightarrow>
    drive_operation_type \<Rightarrow> error + drive_ops" where
  "to_drive_operations E C d db apply block o' =
     (case o' of
        ContractOperation c \<Rightarrow> contract_to_drive_operations E d db apply block c
      | DocumentOperation c \<Rightarrow> document_to_drive_operations E C d db apply block c)"

text \<open>Every operation is converted against the database before the batch.\<close>

definition apply_drive_operations :: "contract_codecs \<Rightarrow> field_codecs \<Rightarrow> 'db drive \<Rightarrow> 'db \<Rightarrow> drive_operation_type list \<Rightarrow>
    bool \<Rightarrow> storage_block_info \<Rightarrow> error + ('db \<times> fee_result)" where
  "apply_drive_operations E C d db operations apply block =
     rbind (mapM (to_drive_operations E C d db apply block) operations) (\<lambda>oss.
     rbind (apply_batch_drive_operations d db apply (concat oss) []) (\<lambda>(db, cost_operations).
     rbind (drive_fee d cost_operations block) (\<lambda>fee. Inr (db, fee))))"

end
