(* ===== verification/IndexQueries.thy ===== *)
theory IndexQueries
  imports Queries ContractData
begin

text \<open>
  What a query over an index finds. The path query that \<open>get_non_primary_key_path_query\<close> builds is compared,
  level by level, with the paths under which the entries of the index are stored; a query that skips a
  property of the index is shown to search the wrong tree.
\<close>

section \<open>The entries of an index\<close>

text \<open>
  An entry of an index is stored under the names and values of its properties; below the last value the
  key \<open>[0]\<close> is the reference itself in a unique index, unless that value is empty, and a tree of
  references by document otherwise.
\<close>

definition entry_tail :: "bool \<Rightarrow> bytes \<Rightarrow> path \<Rightarrow> bool" where
  "entry_tail is_unique v tail \<longleftrightarrow>
     (if is_unique \<and> v \<noteq> [] then tail = [[0]] else \<exists>document_id. tail = [[0], document_id])"

definition index_entry_path :: "(index_property \<Rightarrow> bytes \<Rightarrow> bool) \<Rightarrow> bool \<Rightarrow> index_property list \<Rightarrow> path \<Rightarrow> bool" where
  "index_entry_path ok is_unique ps entry \<longleftrightarrow>
     (\<exists>vs tail. length vs = length ps \<and> entry = interleave_path ps vs @ tail \<and> list_all2 ok ps vs \<and>
        entry_tail is_unique (last vs) tail)"

definition clause_on :: "internal_clauses \<Rightarrow> index_property \<Rightarrow> where_clause option" where
  "clause_on c p =
     (case equal_clause_for c p of
        Some w \<Rightarrow> Some w
      | None \<Rightarrow> if on_field (in_clause c) p then in_clause c
                else if on_field (range_clause c) p then range_clause c else None)"

definition value_allowed :: "(string \<Rightarrow> bytes option) \<Rightarrow> field_codecs \<Rightarrow> document_type \<Rightarrow> internal_clauses \<Rightarrow>
    index_property \<Rightarrow> bytes \<Rightarrow> bool" where
  "value_allowed b58 C dt c p v \<longleftrightarrow>
     (case clause_on c p of Some w \<Rightarrow> clause_selects b58 C dt w v | None \<Rightarrow> True)"

text \<open>
  The clauses fit the properties of an index when the equalities are on its first properties, followed
  by the one of the \<open>in\<close> clause and the one of the range clause.
\<close>

fun fields_follow :: "where_clause list \<Rightarrow> index_property list \<Rightarrow> bool" where
  "fields_follow [] ps \<longleftrightarrow> True"
| "fields_follow (w # ws) [] \<longleftrightarrow> False"
| "fields_follow (w # ws) (p # ps) \<longleftrightarrow> wc_field w = property_name p \<and> fields_follow ws ps"

definition range_clauses :: "internal_clauses \<Rightarrow> where_clause list" where
  "range_clauses c =
     (case in_clause c of Some i \<Rightarrow> [i] | None \<Rightarrow> []) @ (case range_clause c of Some r \<Rightarrow> [r] | None \<Rightarrow> [])"

definition clauses_fit :: "internal_clauses \<Rightarrow> index_property list \<Rightarrow> index_property list \<Rightarrow> bool" where
  "clauses_fit c equals rest \<longleftrightarrow>
     distinct (property_names (equals @ rest)) \<and>
     (\<forall>p \<in> set equals. \<exists>w. equal_clause_for c p = Some w \<and> wc_field w = property_name p \<and> wc_operator w = Equal) \<and>
     (\<forall>p \<in> set rest. equal_clause_for c p = None) \<and> fields_follow (range_clauses c) rest"

lemma interleave_Nil [simp]: "interleave_path [] vs = []"
  by (simp add: interleave_path_def)

lemma interleave_Cons [simp]:
  "interleave_path (p # ps) (v # vs) = string_bytes (property_name p) # v # interleave_path ps vs"
  by (simp add: interleave_path_def)

lemma interleave_append:
  "length ps = length vs \<Longrightarrow> interleave_path (ps @ ps') (vs @ vs') = interleave_path ps vs @ interleave_path ps' vs'"
  by (simp add: interleave_path_def)

lemma interleave_extra [simp]: "interleave_path (ps @ ps') vs = interleave_path ps vs" if "length vs = length ps"
  using that by (simp add: interleave_path_def zip_append1)

text \<open>The queries of the levels of an index, from the bottom up.\<close>

definition fresh_query :: "query \<Rightarrow> bool" where
  "fresh_query q \<longleftrightarrow> subquery_key q = None \<and> subquery q = None \<and> conditional_subqueries q = []"

lemma fresh_new [simp]: "fresh_query (query_new_with_direction d)" "fresh_query (insert_item i q) = fresh_query q"
  by (simp_all add: fresh_query_def query_setters)

lemma fresh_foldl [simp]: "fresh_query (foldl (\<lambda>q i. insert_item i q) q its) = fresh_query q"
  by (induction its arbitrary: q) simp_all

lemma fresh_selects: "fresh_query q \<Longrightarrow> query_selects q rel \<longleftrightarrow> (\<exists>k. rel = [k] \<and> query_covers q k)"
  by (cases rel) (auto simp: fresh_query_def subquery_branch_def)

lemma ids_selects: "query_selects (inner_query_from_starts_at_for_id None d) rel \<longleftrightarrow> (\<exists>document_id. rel = [document_id])"
  by (simp add: inner_query_from_starts_at_for_id_def fresh_selects)

lemma path_cases: "rest \<noteq> [] \<and> hd rest = x \<and> P (tl rest) \<longleftrightarrow> (\<exists>rest'. rest = x # rest' \<and> P rest')"
  by (cases rest) auto

lemma insert_ids_selects:
  assumes "fresh_query q"
  shows "query_selects (insert_ids_on_query q is_unique None d) rel \<longleftrightarrow>
    (\<exists>k tail. rel = k # tail \<and> query_covers q k \<and> entry_tail is_unique k tail)"
  using assms
  by (cases rel; cases "tl rel") (auto simp: insert_ids_on_query_def fresh_query_def subquery_branch_def set_subquery_key_def set_subquery_def
      add_conditional_subquery_def query_covers_def entry_tail_def ids_selects path_cases)

lemma insert_on_query_covers [simp]:
  "query_covers (insert_on_query b58 C q ps is_unique start d order_by) k = query_covers q k"
  by (cases ps) (simp_all add: insert_ids_on_query_def Let_def)

lemma insert_on_query_selects:
  assumes "fresh_query q"
  shows "query_selects (insert_on_query b58 C q ps is_unique None d order_by) rel \<longleftrightarrow>
    (\<exists>k vs tail. rel = k # interleave_path ps vs @ tail \<and> length vs = length ps \<and> query_covers q k \<and>
       entry_tail is_unique (last (k # vs)) tail)"
  using assms
proof (induction ps arbitrary: q d rel)
  case Nil
  then show ?case by (simp add: insert_ids_selects)
next
  case (Cons p ps)
  let ?inner = "insert_item RangeFull (query_new_with_direction (ascending p))"
  let ?d = "property_direction order_by p"
  have step: "query_selects (insert_on_query b58 C q (p # ps) is_unique None d order_by) rel \<longleftrightarrow>
      (\<exists>k rest. rel = k # string_bytes (property_name p) # rest \<and> query_covers q k \<and>
        query_selects (insert_on_query b58 C ?inner ps is_unique None ?d order_by) rest)"
    using Cons.prems by (cases rel) (auto simp: fresh_query_def subquery_branch_def query_covers_def
        set_subquery_key_def set_subquery_def Let_def path_cases)
  have inner: "query_selects (insert_on_query b58 C ?inner ps is_unique None ?d order_by) rest \<longleftrightarrow>
      (\<exists>k vs tail. rest = k # interleave_path ps vs @ tail \<and> length vs = length ps \<and>
         entry_tail is_unique (last (k # vs)) tail)" for rest
    using Cons.IH[of ?inner ?d rest] by simp
  show ?case (is "_ \<longleftrightarrow> ?R")
  proof
    assume "query_selects (insert_on_query b58 C q (p # ps) is_unique None d order_by) rel"
    then obtain k k' vs tail where "rel = k # string_bytes (property_name p) # k' # interleave_path ps vs @ tail"
        "query_covers q k" "length vs = length ps" "entry_tail is_unique (last (k' # vs)) tail"
      unfolding step inner by blast
    then have "rel = k # interleave_path (p # ps) (k' # vs) @ tail \<and> length (k' # vs) = length (p # ps) \<and>
        query_covers q k \<and> entry_tail is_unique (last (k # k' # vs)) tail" by simp
    then show ?R by blast
  next
    assume ?R
    then obtain k us tail where "rel = k # interleave_path (p # ps) us @ tail" "length us = length (p # ps)"
        "query_covers q k" "entry_tail is_unique (last (k # us)) tail" by blast
    moreover from this(2) obtain k' vs where "us = k' # vs" "length vs = length ps" by (auto simp: length_Suc_conv)
    ultimately have "rel = k # string_bytes (property_name p) # (k' # interleave_path ps vs @ tail)" "query_covers q k"
        "length vs = length ps" "entry_tail is_unique (last (k' # vs)) tail"
      by simp_all
    then show "query_selects (insert_on_query b58 C q (p # ps) is_unique None d order_by) rel"
      unfolding step inner by blast
  qed
qed

text \<open>What the code makes of clauses that fit.\<close>

abbreviation equal_of :: "internal_clauses \<Rightarrow> index_property \<Rightarrow> where_clause" where
  "equal_of c p \<equiv> the (equal_clause_for c p)"

lemma fit_equals:
  assumes "clauses_fit c equals rest"
  shows "p \<in> set equals \<Longrightarrow> equal_clause_for c p = Some (equal_of c p)"
    "p \<in> set equals \<Longrightarrow> wc_field (equal_of c p) = property_name p"
    "p \<in> set equals \<Longrightarrow> wc_operator (equal_of c p) = Equal"
    "p \<in> set rest \<Longrightarrow> equal_clause_for c p = None"
  using assms by (auto simp: clauses_fit_def)

lemma map_filter_as_filter:
  "(\<And>x. x \<in> set xs \<Longrightarrow> f x = (if P x then Some (g x) else None)) \<Longrightarrow> List.map_filter f xs = map g (filter P xs)"
  by (induction xs) (simp_all add: List.map_filter_simps)

lemma filter_fit:
  assumes "clauses_fit c equals rest" "\<And>p. Q p \<Longrightarrow> equal_clause_for c p \<noteq> None"
  shows "filter Q (equals @ rest) = filter Q equals"
  using fit_equals(4)[OF assms(1)] assms(2) by (force simp: filter_empty_conv)

lemma fit_ordered_clauses:
  assumes "clauses_fit c equals rest"
  shows "List.map_filter (equal_clause_for c) (equals @ rest) = map (equal_of c) equals"
proof -
  let ?P = "\<lambda>p. equal_clause_for c p \<noteq> None"
  have "List.map_filter (equal_clause_for c) (equals @ rest) = map (equal_of c) (filter ?P (equals @ rest))"
    by (rule map_filter_as_filter) auto
  also have "filter ?P (equals @ rest) = equals"
    using fit_equals(1)[OF assms] filter_fit[OF assms, of ?P] by (auto intro!: filter_True)
  finally show ?thesis .
qed

lemma fit_intermediate:
  assumes "clauses_fit c equals rest" "last_clause_of c (equals @ rest) = (l, r, s)"
  shows "intermediate_clauses c (equals @ rest) = map (\<lambda>p. (p, equal_of c p)) (filter (\<lambda>p. r \<or> \<not> on_field l p) equals)"
proof -
  let ?P = "\<lambda>p. equal_clause_for c p \<noteq> None \<and> (r \<or> \<not> on_field l p)"
  have "intermediate_clauses c (equals @ rest) = map (\<lambda>p. (p, equal_of c p)) (filter ?P (equals @ rest))"
    unfolding intermediate_clauses_def assms(2) prod.case by (rule map_filter_as_filter) (auto split: option.splits)
  also have "filter ?P (equals @ rest) = filter (\<lambda>p. r \<or> \<not> on_field l p) equals"
    using fit_equals(1)[OF assms(1)] filter_fit[OF assms(1), of ?P] by (auto intro!: filter_cong)
  finally show ?thesis .
qed

lemma fit_left_over:
  assumes "clauses_fit c equals rest" "last_clause_of c (equals @ rest) = (l, r, s)"
  shows "left_over_properties c (equals @ rest) = filter (\<lambda>p. \<not> on_field l p \<and> \<not> on_field s p) rest"
proof -
  let ?P = "\<lambda>p. \<not> (equal_clause_for c p \<noteq> None \<or> on_field l p \<or> on_field s p)"
  have "filter ?P equals = []" using fit_equals(1)[OF assms(1)] by (force simp: filter_empty_conv)
  moreover have "filter ?P rest = filter (\<lambda>p. \<not> on_field l p \<and> \<not> on_field s p) rest"
    using fit_equals(4)[OF assms(1)] by (auto intro!: filter_cong)
  ultimately show ?thesis unfolding left_over_properties_def assms(2) prod.case filter_append by simp
qed

lemma name_differs: "distinct (property_names (p # ps)) \<Longrightarrow> p' \<in> set ps \<Longrightarrow> property_name p' \<noteq> property_name p"
  unfolding property_names_def by (metis distinct.simps(2) imageI list.set_map list.simps(9))

lemma fit_names:
  assumes "clauses_fit c equals rest"
  shows "distinct (property_names equals)" "distinct (property_names rest)"
    "p \<in> set equals \<Longrightarrow> p' \<in> set rest \<Longrightarrow> property_name p \<noteq> property_name p'"
  using assms by (auto simp: clauses_fit_def property_names_def)

text \<open>The four cases: no clause, only equalities, one further clause, an \<open>in\<close> and a range clause.\<close>

lemma fit_none:
  assumes "clauses_fit c [] rest" "in_clause c = None" "range_clause c = None"
  shows "last_clause_of c rest = (None, False, None)" "left_over_properties c rest = rest" "intermediate_clauses c rest = []"
proof -
  show l: "last_clause_of c rest = (None, False, None)"
    using fit_ordered_clauses[OF assms(1)] assms(2,3) by (simp add: last_clause_of_def)
  show "left_over_properties c rest = rest" "intermediate_clauses c rest = []"
    using fit_left_over[OF assms(1), of None False None] fit_intermediate[OF assms(1), of None False None] l
    by (simp_all add: on_field_def)
qed

lemma fit_only_equals:
  assumes "clauses_fit c (equals @ [p]) rest" "in_clause c = None" "range_clause c = None"
  shows "last_clause_of c (equals @ p # rest) = (Some (equal_of c p), False, None)"
    "left_over_properties c (equals @ p # rest) = rest"
    "intermediate_clauses c (equals @ p # rest) = map (\<lambda>p. (p, equal_of c p)) equals"
proof -
  note fields = fit_equals(2)[OF assms(1)]
  show l: "last_clause_of c (equals @ p # rest) = (Some (equal_of c p), False, None)"
    using fit_ordered_clauses[OF assms(1)] assms(2,3) by (simp add: last_clause_of_def)
  have "\<not> on_field (Some (equal_of c p)) p'" if "p' \<in> set rest" for p'
    using fit_names(3)[OF assms(1) _ that, of p] fields[of p] by (simp add: on_field_def)
  then show "left_over_properties c (equals @ p # rest) = rest"
    using fit_left_over[OF assms(1)] l by (auto simp: on_field_def intro!: filter_True)
  have "\<not> on_field (Some (equal_of c p)) p'" if "p' \<in> set equals" for p'
    using fit_names(1)[OF assms(1)] that fields[of p] by (auto simp: on_field_def property_names_def)
  moreover have "on_field (Some (equal_of c p)) p" using fields[of p] by (simp add: on_field_def)
  ultimately show "intermediate_clauses c (equals @ p # rest) = map (\<lambda>p. (p, equal_of c p)) equals"
    using fit_intermediate[OF assms(1), of "Some (equal_of c p)" False None] l by simp
qed

lemma fit_one:
  assumes "clauses_fit c equals (p # rest)" "range_clauses c = [w]"
  shows "last_clause_of c (equals @ p # rest) = (Some w, True, None)"
    "left_over_properties c (equals @ p # rest) = rest"
    "intermediate_clauses c (equals @ p # rest) = map (\<lambda>p. (p, equal_of c p)) equals"
proof -
  have f: "wc_field w = property_name p" using assms by (simp add: clauses_fit_def)
  show l: "last_clause_of c (equals @ p # rest) = (Some w, True, None)"
    using assms(2) by (auto simp: last_clause_of_def range_clauses_def split: option.splits)
  have "\<not> on_field (Some w) p'" if "p' \<in> set rest" for p'
    using fit_names(2)[OF assms(1)] that f by (auto simp: on_field_def property_names_def)
  then show "left_over_properties c (equals @ p # rest) = rest"
    using fit_left_over[OF assms(1)] l f by (auto simp: on_field_def intro!: filter_True)
  show "intermediate_clauses c (equals @ p # rest) = map (\<lambda>p. (p, equal_of c p)) equals"
    using fit_intermediate[OF assms(1)] l by simp
qed

lemma fit_two:
  assumes "clauses_fit c equals (p # p' # rest)" "range_clauses c = [w, w']"
  shows "last_clause_of c (equals @ p # p' # rest) = (Some w, True, Some w')"
    "left_over_properties c (equals @ p # p' # rest) = rest"
    "intermediate_clauses c (equals @ p # p' # rest) = map (\<lambda>p. (p, equal_of c p)) equals"
proof -
  have f: "wc_field w = property_name p" "wc_field w' = property_name p'" using assms by (simp_all add: clauses_fit_def)
  show l: "last_clause_of c (equals @ p # p' # rest) = (Some w, True, Some w')"
    using assms(2) by (auto simp: last_clause_of_def range_clauses_def split: option.splits)
  have "\<not> on_field (Some w) p''" "\<not> on_field (Some w') p''" if "p'' \<in> set rest" for p''
    using fit_names(2)[OF assms(1)] that f by (auto simp: on_field_def property_names_def)
  then show "left_over_properties c (equals @ p # p' # rest) = rest"
    using fit_left_over[OF assms(1)] l f by (auto simp: on_field_def intro!: filter_True)
  show "intermediate_clauses c (equals @ p # p' # rest) = map (\<lambda>p. (p, equal_of c p)) equals"
    using fit_intermediate[OF assms(1)] l by simp
qed

text \<open>A level whose query selects the allowed vals, below a path of equalities.\<close>

definition level_selects :: "(index_property \<Rightarrow> bytes \<Rightarrow> bool) \<Rightarrow> bool \<Rightarrow> index_property \<Rightarrow> index_property list \<Rightarrow> path \<Rightarrow> bool" where
  "level_selects ok is_unique p ps rel \<longleftrightarrow>
     (\<exists>k vs tail. rel = k # interleave_path ps vs @ tail \<and> length vs = length ps \<and> ok p k \<and> list_all2 ok ps vs \<and>
        entry_tail is_unique (last (k # vs)) tail)"

lemma level_entries:
  assumes "length vals = length equals"
    and "\<And>vs. length vs = length equals \<Longrightarrow> list_all2 ok equals vs \<longleftrightarrow> vs = vals"
  shows "index_entry_path ok is_unique (equals @ p # ps) e \<longleftrightarrow>
    (\<exists>rel. e = interleave_path equals vals @ string_bytes (property_name p) # rel \<and> level_selects ok is_unique p ps rel)"
proof
  assume "index_entry_path ok is_unique (equals @ p # ps) e"
  then obtain vs tail where vs: "length vs = length (equals @ p # ps)" "e = interleave_path (equals @ p # ps) vs @ tail"
      "list_all2 ok (equals @ p # ps) vs" "entry_tail is_unique (last vs) tail"
    by (auto simp: index_entry_path_def)
  from vs(3) obtain us ws' where us': "vs = us @ ws'" "list_all2 ok equals us" "list_all2 ok (p # ps) ws'"
    unfolding list_all2_append1 by blast
  then obtain k ws where us: "vs = us @ k # ws" "list_all2 ok equals us" "ok p k" "list_all2 ok ps ws"
    unfolding list_all2_Cons1 by blast
  have len: "length us = length equals" "length ws = length ps"
    using list_all2_lengthD[OF us(2)] list_all2_lengthD[OF us(4)] by simp_all
  have "us = vals" using assms(2)[OF len(1)] us(2) by simp
  then have "e = interleave_path equals vals @ string_bytes (property_name p) # (k # interleave_path ps ws @ tail)"
    using vs(2) us(1) len by (simp add: interleave_append)
  moreover have "level_selects ok is_unique p ps (k # interleave_path ps ws @ tail)"
    unfolding level_selects_def using us vs(4) len by (intro exI[of _ k] exI[of _ ws] exI[of _ tail]) simp
  ultimately show "\<exists>rel. e = interleave_path equals vals @ string_bytes (property_name p) # rel \<and>
      level_selects ok is_unique p ps rel" by blast
next
  assume "\<exists>rel. e = interleave_path equals vals @ string_bytes (property_name p) # rel \<and> level_selects ok is_unique p ps rel"
  then obtain k ws tail where "e = interleave_path equals vals @ string_bytes (property_name p) # k # interleave_path ps ws @ tail"
      "length ws = length ps" "ok p k" "list_all2 ok ps ws" "entry_tail is_unique (last (k # ws)) tail"
    by (auto simp: level_selects_def)
  moreover have "list_all2 ok equals vals" using assms by simp
  ultimately show "index_entry_path ok is_unique (equals @ p # ps) e"
    using assms(1) unfolding index_entry_path_def
    by (intro exI[of _ "vals @ k # ws"] exI[of _ tail]) (simp add: interleave_append list_all2_appendI)
qed

lemma level_below:
  "level_selects ok is_unique p (p' # ps) rel \<longleftrightarrow>
   (\<exists>k rest. rel = k # string_bytes (property_name p') # rest \<and> ok p k \<and> level_selects ok is_unique p' ps rest)"
proof
  assume "level_selects ok is_unique p (p' # ps) rel"
  then obtain k us tail where us: "rel = k # interleave_path (p' # ps) us @ tail" "ok p k" "list_all2 ok (p' # ps) us"
      "entry_tail is_unique (last (k # us)) tail"
    unfolding level_selects_def by blast
  from us(3) obtain k' vs where "us = k' # vs" "ok p' k'" "list_all2 ok ps vs" unfolding list_all2_Cons1 by blast
  with us show "\<exists>k rest. rel = k # string_bytes (property_name p') # rest \<and> ok p k \<and> level_selects ok is_unique p' ps rest"
    unfolding level_selects_def
    by (intro exI[of _ k] exI[of _ "k' # interleave_path ps vs @ tail"] conjI exI[of _ k'] exI[of _ vs] exI[of _ tail])
      (simp_all add: list_all2_lengthD)
next
  assume "\<exists>k rest. rel = k # string_bytes (property_name p') # rest \<and> ok p k \<and> level_selects ok is_unique p' ps rest"
  then obtain k k' vs tail where "rel = k # string_bytes (property_name p') # k' # interleave_path ps vs @ tail" "ok p k"
      "length vs = length ps" "ok p' k'" "list_all2 ok ps vs" "entry_tail is_unique (last (k' # vs)) tail"
    unfolding level_selects_def by blast
  then show "level_selects ok is_unique p (p' # ps) rel"
    unfolding level_selects_def by (intro exI[of _ k] exI[of _ "k' # vs"] exI[of _ tail]) simp
qed

lemma clause_query:
  assumes "to_path_query b58 C w dt None ltr = Inr query" "prefix_incrementable b58 C dt w"
  shows "fresh_query query" "query_covers query k \<longleftrightarrow> clause_selects b58 C dt w k"
proof -
  obtain its where its: "clause_items b58 C w dt ltr None = Inr its"
      "query = foldl (\<lambda>q i. insert_item i q) (query_new_with_direction ltr) its"
    using assms(1) by (auto simp: to_path_query_def starts_at_key_def rbind_eq_Inr)
  then show "fresh_query query" by simp
  show "query_covers query k \<longleftrightarrow> clause_selects b58 C dt w k"
    using clause_items_cover[OF its(1) _ assms(2), of k] its(2) by (simp add: query_covers_items start_allows_def)
qed

lemma equal_values:
  assumes "\<And>p. p \<in> set equals \<Longrightarrow> equal_clause_for c p = Some (equal_of c p) \<and>
      wc_field (equal_of c p) = property_name p \<and> wc_operator (equal_of c p) = Equal"
    and "mapM (\<lambda>(p, w). map_err ContractErr (serialize_value_for_key b58 C dt (property_name p) (wc_value w)))
      (map (\<lambda>p. (p, equal_of c p)) equals) = Inr vals"
  shows "length vals = length equals \<and>
    (length vs = length equals \<longrightarrow> (list_all2 (value_allowed b58 C dt c) equals vs \<longleftrightarrow> vs = vals))"
  using assms
proof (induction equals arbitrary: vals vs)
  case Nil
  then show ?case by simp
next
  case (Cons p ps)
  from Cons.prems(2) obtain k ks where k: "map_err ContractErr (serialize_value_for_key b58 C dt (property_name p) (wc_value (equal_of c p))) = Inr k"
      "mapM (\<lambda>(p, w). map_err ContractErr (serialize_value_for_key b58 C dt (property_name p) (wc_value w)))
        (map (\<lambda>p. (p, equal_of c p)) ps) = Inr ks" "vals = k # ks"
    by (auto simp: rbind_eq_Inr)
  obtain w where "equal_clause_for c p = Some w" using Cons.prems(1)[of p] by auto
  then have "value_allowed b58 C dt c p v \<longleftrightarrow> v = k" for v
    using Cons.prems(1)[of p] k(1) by (simp add: value_allowed_def clause_on_def clause_selects_def clause_key_def)
  with Cons.IH[OF _ k(2), of "tl vs"] Cons.prems(1) k(3) show ?case by (cases vs) auto
qed

lemma clause_on_equal: "equal_clause_for c p = Some w \<Longrightarrow> clause_on c p = Some w"
  by (simp add: clause_on_def)

lemma free_properties:
  assumes "\<And>p. p \<in> set ps \<Longrightarrow> clause_on c p = None" "length vs = length ps"
  shows "list_all2 (value_allowed b58 C dt c) ps vs"
  using assms by (auto simp: list_all2_conv_all_nth value_allowed_def)

lemma level_of_clause:
  assumes "fresh_query query" "\<And>k. query_covers query k \<longleftrightarrow> value_allowed b58 C dt c p k"
    and "\<And>p. p \<in> set ps \<Longrightarrow> clause_on c p = None"
  shows "query_selects (insert_on_query b58 C query ps is_unique None d order_by) rel \<longleftrightarrow>
    level_selects (value_allowed b58 C dt c) is_unique p ps rel"
  using insert_on_query_selects[OF assms(1)] free_properties[OF assms(3)] assms(2) unfolding level_selects_def by metis

lemma first_of_list: "(case xs of [] \<Rightarrow> None | p # _ \<Rightarrow> Some p) = Some p \<longleftrightarrow> (\<exists>ps. xs = p # ps)"
  by (cases xs) auto

lemma non_primary_parts:
  assumes "get_non_primary_key_path_query b58 C q dt_path None = Inr pq" "find_best_index q = Inr ix"
  obtains vals p ps' where "intermediate_values b58 C (dq_document_type q) (dq_clauses q) (index_properties ix) = Inr vals"
    and "drop (length vals) (index_properties ix) = p # ps'" "final_query b58 C q ix None = Inr (pq_query pq)"
    and "pq_path pq = dt_path @ interleave_path (index_properties ix) vals @ [string_bytes (property_name p)]"
  using assms
  by (auto simp: get_non_primary_key_path_query_def rbind_eq_Inr ok_or_eq_Inr first_of_list)

text \<open>Each case of the clauses: the final query is the level of the first property without a fixed value.\<close>

lemma final_query_level:
  assumes fit: "clauses_fit (dq_clauses q) equals rest" and ps: "index_properties ix = equals @ rest"
    and query: "final_query b58 C q ix None = Inr query"
    and inc: "\<forall>w \<in> set (range_clauses (dq_clauses q)). prefix_incrementable b58 C (dq_document_type q) w"
  shows "\<exists>es p ps'. equals @ rest = es @ p # ps' \<and> set es \<subseteq> set equals \<and>
    intermediate_clauses (dq_clauses q) (equals @ rest) = map (\<lambda>p. (p, equal_of (dq_clauses q) p)) es \<and>
    (\<forall>rel. query_selects query rel \<longleftrightarrow>
       level_selects (value_allowed b58 C (dq_document_type q) (dq_clauses q)) (unique ix) p ps' rel)"
proof -
  let ?c = "dq_clauses q" and ?dt = "dq_document_type q" and ?ps = "equals @ rest"
  have free: "clause_on ?c p = None" if "p \<in> set rest" "\<forall>w \<in> set (range_clauses ?c). wc_field w \<noteq> property_name p" for p
    using that fit_equals(4)[OF fit that(1)]
    by (auto simp: clause_on_def on_field_def range_clauses_def split: option.splits)
  consider (none) "range_clauses ?c = []" "equals = []" | (equal) es p where "range_clauses ?c = []" "equals = es @ [p]"
    | (one) w p ps' where "range_clauses ?c = [w]" "rest = p # ps'"
    | (two) w w' p p' ps' where "range_clauses ?c = [w, w']" "rest = p # p' # ps'"
    using fit by (cases equals rule: rev_cases; cases rest; cases "tl rest")
      (auto simp: range_clauses_def clauses_fit_def split: option.splits)
  then show ?thesis
  proof cases
    case none
    then have no: "in_clause ?c = None" "range_clause ?c = None" by (auto simp: range_clauses_def split: option.splits)
    note f = fit_none[OF fit[unfolded none(2)] no]
    obtain p ps' where rest: "rest = p # ps'"
      using query f ps none by (auto simp: final_query_def rbind_eq_Inr ok_or_eq_Inr split: list.splits)
    have q': "query = insert_on_query b58 C (insert_item RangeFull (query_new_with_direction (property_direction None p)))
        ps' (unique ix) None (property_direction None p) None"
      using query f ps none rest
      by (simp add: final_query_def recursive_insert_on_query_def inner_query_from_starts_at_def with_property_def Let_def rmap_def)
    have on: "clause_on ?c p' = None" if "p' \<in> set rest" for p' using free[OF that] none(1) by simp
    have "query_selects query rel \<longleftrightarrow> level_selects (value_allowed b58 C ?dt ?c) (unique ix) p ps' rel" for rel
      unfolding q' by (rule level_of_clause) (use on rest in \<open>simp_all add: value_allowed_def\<close>)
    then show ?thesis using f(3) none(2) rest by (intro exI[of _ "[]"] exI[of _ p] exI[of _ ps']) simp
  next
    case equal
    then have no: "in_clause ?c = None" "range_clause ?c = None" by (auto simp: range_clauses_def split: option.splits)
    note f = fit_only_equals[OF fit[unfolded equal(2)] no]
    obtain ltr query' where q': "to_path_query b58 C (equal_of ?c p) ?dt None ltr = Inr query'"
        "query = insert_on_query b58 C query' rest (unique ix) None ltr (Some (dq_order_by q))"
      using query f ps equal(2)
      by (auto simp: final_query_def last_clause_query_def rbind_eq_Inr Let_def with_property_def)
    have w: "equal_clause_for ?c p = Some (equal_of ?c p)" "wc_operator (equal_of ?c p) = Equal"
      using fit_equals(1,3)[OF fit, of p] equal(2) by auto
    then have "prefix_incrementable b58 C ?dt (equal_of ?c p)" by (simp add: prefix_incrementable_def split: sum.splits)
    note cq = clause_query[OF q'(1) this]
    have allowed: "query_covers query' k \<longleftrightarrow> value_allowed b58 C ?dt ?c p k" for k
      by (simp add: cq(2) value_allowed_def clause_on_equal[OF w(1)])
    have "clause_on ?c p' = None" if "p' \<in> set rest" for p' using free[OF that] equal(1) by simp
    then have "query_selects query rel \<longleftrightarrow> level_selects (value_allowed b58 C ?dt ?c) (unique ix) p rest rel" for rel
      unfolding q'(2) by (rule level_of_clause[OF cq(1) allowed])
    then show ?thesis using f(3) equal(2) by (intro exI[of _ es] exI[of _ p] exI[of _ rest] conjI allI) (simp_all add: subset_insertI)
  next
    case one
    note f = fit_one[OF fit[unfolded one(2)] one(1)]
    obtain ltr query' where q': "to_path_query b58 C w ?dt None ltr = Inr query'"
        "query = insert_on_query b58 C query' ps' (unique ix) None ltr (Some (dq_order_by q))"
      using query f ps one(2)
      by (auto simp: final_query_def last_clause_query_def rbind_eq_Inr Let_def with_property_def)
    have "prefix_incrementable b58 C ?dt w" using inc one(1) by simp
    note cq = clause_query[OF q'(1) this]
    have names: "wc_field w = property_name p" using fit one by (simp add: clauses_fit_def)
    have others: "property_name p' \<noteq> property_name p" if "p' \<in> set ps'" for p'
      using name_differs[OF _ that, of p] fit_names(2)[OF fit] one(2) by simp
    have "clause_on ?c p = Some w"
      using fit_equals(4)[OF fit, of p] one names by (auto simp: clause_on_def on_field_def range_clauses_def split: option.splits)
    then have allowed: "query_covers query' k \<longleftrightarrow> value_allowed b58 C ?dt ?c p k" for k
      by (simp add: cq(2) value_allowed_def)
    have "clause_on ?c p' = None" if "p' \<in> set ps'" for p'
      using free[of p'] that one names others[OF that] by auto
    then have "query_selects query rel \<longleftrightarrow> level_selects (value_allowed b58 C ?dt ?c) (unique ix) p ps' rel" for rel
      unfolding q'(2) by (rule level_of_clause[OF cq(1) allowed])
    then show ?thesis using f(3) one(2) by (intro exI[of _ equals] exI[of _ p] exI[of _ ps'] conjI allI) simp_all
  next
    case two
    note f = fit_two[OF fit[unfolded two(2)] two(1)]
    obtain ltr query' d query'' where q': "to_path_query b58 C w ?dt None ltr = Inr query'"
        "to_path_query b58 C w' ?dt None d = Inr query''"
        "query = set_subquery (insert_on_query b58 C query'' ps' (unique ix) None ltr (Some (dq_order_by q)))
           (set_subquery_key (string_bytes (wc_field w')) query')"
      using query f ps two(2)
      by (auto simp: final_query_def last_clause_query_def rbind_eq_Inr Let_def with_property_def)
    have "prefix_incrementable b58 C ?dt w" "prefix_incrementable b58 C ?dt w'" using inc two(1) by simp_all
    note cq = clause_query[OF q'(1) this(1)] and cq' = clause_query[OF q'(2) this(2)]
    have names: "wc_field w = property_name p" "wc_field w' = property_name p'"
      using fit two by (simp_all add: clauses_fit_def)
    have differ: "property_name p' \<noteq> property_name p"
      using fit_names(2)[OF fit] two(2) by (auto simp: property_names_def)
    have others: "property_name p'' \<noteq> property_name p \<and> property_name p'' \<noteq> property_name p'" if "p'' \<in> set ps'" for p''
      using name_differs[of p "p' # ps'" p''] name_differs[of p' ps' p''] fit_names(2)[OF fit] two(2) that
      by (simp add: property_names_def)
    have on: "clause_on ?c p = Some w" "clause_on ?c p' = Some w'"
      using fit_equals(4)[OF fit, of p] fit_equals(4)[OF fit, of p'] two names differ
      by (auto simp: clause_on_def on_field_def range_clauses_def split: option.splits)
    have allowed: "query_covers query'' k \<longleftrightarrow> value_allowed b58 C ?dt ?c p' k" for k
      by (simp add: cq'(2) value_allowed_def on(2))
    have "clause_on ?c p'' = None" if "p'' \<in> set ps'" for p''
      using free[of p''] that two names others[OF that] by auto
    note level = level_of_clause[OF cq'(1) allowed this, of ps' "unique ix" ltr "Some (dq_order_by q)"]
    have "query_selects query rel \<longleftrightarrow> (\<exists>k rest'. rel = k # string_bytes (property_name p') # rest' \<and> query_covers query' k \<and>
        level_selects (value_allowed b58 C ?dt ?c) (unique ix) p' ps' rest')" for rel
      using cq(1) level unfolding q'(3) names(2)
      by (cases rel) (auto simp: fresh_query_def subquery_branch_def query_covers_def set_subquery_key_def set_subquery_def path_cases)
    then have "query_selects query rel \<longleftrightarrow> level_selects (value_allowed b58 C ?dt ?c) (unique ix) p (p' # ps') rel" for rel
      using level_below[of "value_allowed b58 C ?dt ?c" "unique ix" p p' ps' rel] by (simp add: cq(2) value_allowed_def on(1))
    then show ?thesis using f(3) two(2) by (intro exI[of _ equals] exI[of _ p] exI[of _ "p' # ps'"] conjI allI) simp_all
  qed
qed

lemma index_query_entries:
  assumes "get_non_primary_key_path_query b58 C q dt_path None = Inr pq" "find_best_index q = Inr ix"
    and "index_properties ix = equals @ rest" "clauses_fit (dq_clauses q) equals rest"
    and "\<forall>w \<in> set (range_clauses (dq_clauses q)). prefix_incrementable b58 C (dq_document_type q) w"
  shows "(\<exists>rel. entry = pq_path pq @ rel \<and> query_selects (pq_query pq) rel) \<longleftrightarrow>
    (\<exists>e. entry = dt_path @ e \<and>
       index_entry_path (value_allowed b58 C (dq_document_type q) (dq_clauses q)) (unique ix) (index_properties ix) e)"
proof -
  let ?ok = "value_allowed b58 C (dq_document_type q) (dq_clauses q)"
  obtain vals l ls where parts: "intermediate_values b58 C (dq_document_type q) (dq_clauses q) (index_properties ix) = Inr vals"
      "drop (length vals) (index_properties ix) = l # ls" "final_query b58 C q ix None = Inr (pq_query pq)"
      "pq_path pq = dt_path @ interleave_path (index_properties ix) vals @ [string_bytes (property_name l)]"
    using non_primary_parts[OF assms(1,2)] .
  obtain es p ps' where level: "equals @ rest = es @ p # ps'" "set es \<subseteq> set equals"
      "intermediate_clauses (dq_clauses q) (equals @ rest) = map (\<lambda>p. (p, equal_of (dq_clauses q) p)) es"
      "\<And>rel. query_selects (pq_query pq) rel \<longleftrightarrow> level_selects ?ok (unique ix) p ps' rel"
    using final_query_level[OF assms(4,3) parts(3) assms(5)] by blast
  have vals: "length vals = length es \<and> (length vs = length es \<longrightarrow> (list_all2 ?ok es vs \<longleftrightarrow> vs = vals))" for vs
  proof (rule equal_values)
    show "equal_clause_for (dq_clauses q) p = Some (equal_of (dq_clauses q) p) \<and>
        wc_field (equal_of (dq_clauses q) p) = property_name p \<and> wc_operator (equal_of (dq_clauses q) p) = Equal"
      if "p \<in> set es" for p
      using fit_equals(1-3)[OF assms(4), of p] that level(2) by blast
    show "mapM (\<lambda>(p, w). map_err ContractErr (serialize_value_for_key b58 C (dq_document_type q) (property_name p) (wc_value w)))
        (map (\<lambda>p. (p, equal_of (dq_clauses q) p)) es) = Inr vals"
      using parts(1) level(3) by (simp only: assms(3) intermediate_values_def)
  qed
  then have "l = p" "interleave_path (index_properties ix) vals = interleave_path es vals"
    using parts(2) assms(3) level(1) by simp_all
  moreover have "index_entry_path ?ok (unique ix) (index_properties ix) e \<longleftrightarrow>
      (\<exists>rel. e = interleave_path es vals @ string_bytes (property_name p) # rel \<and> level_selects ?ok (unique ix) p ps' rel)" for e
    unfolding assms(3) level(1) by (rule level_entries) (use vals in blast)+
  ultimately show ?thesis using parts(4) level(4) by auto
qed

text \<open>C14: a query over an index whose first properties are those of the equality clauses, followed by those
  of the \<open>in\<close> and the range clause, finds exactly the entries of the index whose values all clauses
  select, when it has no start document.\<close>

theorem index_query_finds_entries:
  assumes "get_non_primary_key_path_query b58 C q dt_path None = Inr pq" "find_best_index q = Inr ix"
    and "index_properties ix = equals @ rest" "clauses_fit (dq_clauses q) equals rest"
    and "\<forall>w \<in> set (range_clauses (dq_clauses q)). prefix_incrementable b58 C (dq_document_type q) w"
  shows "(\<exists>rel. entry = pq_path pq @ rel \<and> query_selects (pq_query pq) rel) \<longleftrightarrow>
    (\<exists>e. entry = dt_path @ e \<and>
       index_entry_path (value_allowed b58 C (dq_document_type q) (dq_clauses q)) (unique ix) (index_properties ix) e)"
  by (rule index_query_entries[OF assms])

text \<open>C15: the equalities of a query need not be on the first properties of the index it uses. When one is on a
  property behind a gap, its values are looked up in the tree of the first property of the gap.\<close>

theorem index_query_gap_searches_wrong_tree:
  assumes "get_non_primary_key_path_query b58 C q dt_path None = Inr pq" "find_best_index q = Inr ix"
    and ps: "index_properties ix = equals @ g # gap @ p # rest" "distinct (property_names (index_properties ix))"
    and eq: "\<forall>p' \<in> set equals. equal_clause_for (dq_clauses q) p' \<noteq> None"
      "equal_clause_for (dq_clauses q) p = Some w" "wc_field w = property_name p" "wc_operator w = Equal"
      "\<forall>p' \<in> set (g # gap @ rest). equal_clause_for (dq_clauses q) p' = None"
    and no: "in_clause (dq_clauses q) = None" "range_clause (dq_clauses q) = None"
  shows "(\<exists>vals. length vals = length equals \<and>
      pq_path pq = dt_path @ interleave_path equals vals @ [string_bytes (property_name g)]) \<and>
    (\<forall>v. query_covers (pq_query pq) v \<longleftrightarrow> clause_selects b58 C (dq_document_type q) w v)"
proof -
  let ?c = "dq_clauses q" and ?ps = "index_properties ix" and ?dt = "dq_document_type q"
  let ?P = "\<lambda>p'. equal_clause_for ?c p' \<noteq> None"
  have filter: "filter ?P ?ps = equals @ [p]"
    using eq by (simp add: ps(1) filter_empty_conv)
  have "List.map_filter (equal_clause_for ?c) ?ps = map (equal_of ?c) (filter ?P ?ps)"
    by (rule map_filter_as_filter) auto
  then have l: "last_clause_of ?c ?ps = (Some w, False, None)"
    using filter eq(2) no by (simp add: last_clause_of_def)
  have "property_name p \<notin> property_name ` set equals"
    using ps(2) by (auto simp: ps(1) property_names_def)
  then have others: "property_name p' \<noteq> property_name p" if "p' \<in> set equals" for p'
    using that by (metis imageI)
  have "intermediate_clauses ?c ?ps =
      map (\<lambda>p. (p, equal_of ?c p)) (filter (\<lambda>p'. ?P p' \<and> \<not> on_field (Some w) p') ?ps)"
    unfolding intermediate_clauses_def l prod.case by (rule map_filter_as_filter) (auto split: option.splits)
  also have "filter (\<lambda>p'. ?P p' \<and> \<not> on_field (Some w) p') ?ps = filter (\<lambda>p'. \<not> on_field (Some w) p') (filter ?P ?ps)"
    by (simp add: conj_commute)
  also have "\<dots> = equals"
    unfolding filter using others eq(3) by (fastforce simp: on_field_def intro!: filter_True)
  finally have i: "intermediate_clauses ?c ?ps = map (\<lambda>p. (p, equal_of ?c p)) equals" .
  obtain vals l' ls where parts: "intermediate_values b58 C ?dt ?c ?ps = Inr vals" "drop (length vals) ?ps = l' # ls"
      "final_query b58 C q ix None = Inr (pq_query pq)"
      "pq_path pq = dt_path @ interleave_path ?ps vals @ [string_bytes (property_name l')]"
    using non_primary_parts[OF assms(1,2)] .
  have len: "length vals = length equals"
    using parts(1) by (auto simp: intermediate_values_def i mapM_eq_Inr dest: list_all2_lengthD)
  then have "pq_path pq = dt_path @ interleave_path equals vals @ [string_bytes (property_name g)]"
    using parts(2,4) ps(1) by simp
  moreover obtain ltr query where query: "to_path_query b58 C w ?dt None ltr = Inr query"
      "pq_query pq = insert_on_query b58 C query (left_over_properties ?c ?ps) (unique ix) None ltr (Some (dq_order_by q))"
    using parts(3) l by (auto simp: final_query_def last_clause_query_def rbind_eq_Inr Let_def with_property_def)
  have "prefix_incrementable b58 C ?dt w" using eq(4) by (simp add: prefix_incrementable_def split: sum.splits)
  from clause_query(2)[OF query(1) this] have "query_covers (pq_query pq) v \<longleftrightarrow> clause_selects b58 C ?dt w v" for v
    unfolding query(2) by (simp add: insert_on_query_covers)
  ultimately show ?thesis using len by blast
qed

section \<open>Examples\<close>

definition visit_type :: document_type where
  "visit_type = \<lparr>type_name = ''visit'',
     indices = [\<lparr>index_properties = map (\<lambda>f. \<lparr>property_name = f, ascending = True\<rparr>) [''a'', ''b'', ''c''], unique = False\<rparr>],
     properties = map (\<lambda>f. (f, DocumentField FInteger True)) [''a'', ''b'', ''c''],
     required_fields = {}, documents_keep_history = False, documents_mutable = True\<rparr>"

definition visit_clause :: "string \<Rightarrow> where_operator \<Rightarrow> int \<Rightarrow> where_clause" where
  "visit_clause f op i = \<lparr>wc_field = f, wc_operator = op, wc_value = CInteger i\<rparr>"

definition visit_query :: "where_clause list \<Rightarrow> where_clause option \<Rightarrow> string list \<Rightarrow> 'j data_contract \<Rightarrow> 'j drive_query" where
  "visit_query equals range_c orders contract =
     \<lparr>dq_contract = contract, dq_document_type = visit_type,
      dq_clauses = \<lparr>primary_key_in_clause = None, primary_key_equal_clause = None, in_clause = None, range_clause = range_c,
        equal_clauses = map (\<lambda>w. (wc_field w, w)) equals\<rparr>,
      dq_offset = 0, dq_limit = 100, dq_order_by = map (\<lambda>f. (f, \<lparr>oc_field = f, oc_ascending = True\<rparr>)) orders,
      dq_start_at = None, dq_start_at_included = True, dq_block_time = None\<rparr>"

lemma visit_key:
  assumes "f \<in> {''a'', ''b'', ''c''}" "- (2 ^ 63) \<le> i" "i < 2 ^ 63"
  shows "serialize_value_for_key no_base58 reference_codecs visit_type f (CInteger i) = Inr (encode_signed_integer (word_of_int i))"
  using assms length_encodings(2)[of "word_of_int i"]
  by (auto simp: serialize_value_for_key_def visit_type_def bt_get_def
      encode_value_for_tree_keys_def integer_value_def int_to_i64_def MAX_INDEX_SIZE_def)

lemma visit_best_index:
  "find_best_index (visit_query [visit_clause ''a'' Equal 1] (Some (visit_clause ''b'' GreaterThan 5)) [''b''] contract) = Inr (hd (indices visit_type))"
  "find_best_index (visit_query [visit_clause ''a'' Equal 1, visit_clause ''c'' Equal 3] None [] contract) = Inr (hd (indices visit_type))"
  by (simp_all add: find_best_index_def visit_query_def visit_type_def query_fields_def visit_clause_def add_order_field_def
      index_for_types_def matches_def in_field_allowed_def MAX_INDEX_DIFFERENCE_def)

definition visit_contract :: "json data_contract" where
  "visit_contract = \<lparr>protocol_version = 1, contract_id = replicate 32 7, schema = [], version = 1,
     contract_owner_id = replicate 32 8, documents = [], defs = [], metadata = None, entropy = replicate 32 0,
     binary_properties = [], contract_config = contract_config_default, document_types = [(''visit'', visit_type)]\<rparr>"

lemma visit_index: "index_properties (hd (indices visit_type)) = map (\<lambda>f. \<lparr>property_name = f, ascending = True\<rparr>) [''a'', ''b'', ''c'']"
  "unique (hd (indices visit_type)) = False"
  by (simp_all add: visit_type_def)

theorem index_query_finds_entries_witness:
  "\<exists>pq. get_non_primary_key_path_query no_base58 reference_codecs
      (visit_query [visit_clause ''a'' Equal 1] (Some (visit_clause ''b'' GreaterThan 5)) [''b''] visit_contract) [[1]] None = Inr pq \<and>
    (\<exists>rel. [[1], string_bytes ''a'', encode_signed_integer 1, string_bytes ''b'', encode_signed_integer 7,
        string_bytes ''c'', [], [0], [9]] = pq_path pq @ rel \<and> query_selects (pq_query pq) rel)"
proof -
  let ?q = "visit_query [visit_clause ''a'' Equal 1] (Some (visit_clause ''b'' GreaterThan 5)) [''b''] visit_contract"
  let ?p = "\<lambda>f. \<lparr>property_name = f, ascending = True\<rparr>"
  have fit: "clauses_fit (dq_clauses ?q) [?p ''a''] [?p ''b'', ?p ''c'']"
    by (simp add: clauses_fit_def property_names_def visit_query_def equal_clause_for_def bt_get_def visit_clause_def range_clauses_def)
  have key: "clause_key no_base58 reference_codecs visit_type (visit_clause ''b'' GreaterThan 5) (CInteger 5) = Inr (encode_signed_integer 5)"
    "clause_key no_base58 reference_codecs visit_type (visit_clause ''a'' Equal 1) (CInteger 1) = Inr (encode_signed_integer 1)"
    using visit_key[of "''b''" 5] visit_key[of "''a''" 1] by (simp_all add: clause_key_def visit_clause_def)
  obtain pq where pq: "get_non_primary_key_path_query no_base58 reference_codecs ?q [[1]] None = Inr pq"
    using key visit_key[of "''a''" 1] unfolding get_non_primary_key_path_query_def visit_best_index
    by (simp add: visit_index intermediate_values_def intermediate_clauses_def
        last_clause_of_def left_over_properties_def visit_query_def visit_clause_def equal_clause_for_def bt_get_def
        List.map_filter_simps on_field_def final_query_def last_clause_query_def is_range_def order_for_range_def
        to_path_query_def starts_at_key_def clause_items_def find_property_def Let_def rmap_def)
  have inc: "\<forall>w \<in> set (range_clauses (dq_clauses ?q)). prefix_incrementable no_base58 reference_codecs (dq_document_type ?q) w"
    by (simp add: range_clauses_def visit_query_def prefix_incrementable_def visit_clause_def split: sum.splits)
  have less: "encode_signed_integer 5 < encode_signed_integer 7"
    by (simp add: encode_signed_integer_def flip_sign_bit_def u64_to_be_def be_bytes_eval)
  have "index_entry_path (value_allowed no_base58 reference_codecs (dq_document_type ?q) (dq_clauses ?q)) False
      [?p ''a'', ?p ''b'', ?p ''c''] [string_bytes ''a'', encode_signed_integer 1, string_bytes ''b'', encode_signed_integer 7,
        string_bytes ''c'', [], [0], [9]]"
    unfolding index_entry_path_def
    by (rule exI[of _ "[encode_signed_integer 1, encode_signed_integer 7, []]"], rule exI[of _ "[[0], [9]]"])
      (use key less in \<open>simp add: value_allowed_def clause_on_def visit_query_def equal_clause_for_def bt_get_def visit_clause_def
        on_field_def clause_selects_def entry_tail_def\<close>)
  then show ?thesis
    using index_query_finds_entries[OF pq visit_best_index(1) _ fit inc, of "[[1], string_bytes ''a'', encode_signed_integer 1,
        string_bytes ''b'', encode_signed_integer 7, string_bytes ''c'', [], [0], [9]]"] pq
    by (simp add: visit_index)
qed

theorem index_query_gap_searches_wrong_tree_witness:
  "\<exists>pq. get_non_primary_key_path_query no_base58 reference_codecs
      (visit_query [visit_clause ''a'' Equal 1, visit_clause ''c'' Equal 3] None [] visit_contract) [[1]] None = Inr pq \<and>
    last (pq_path pq) = string_bytes ''b'' \<and> query_covers (pq_query pq) (encode_signed_integer 3)"
proof -
  let ?q = "visit_query [visit_clause ''a'' Equal 1, visit_clause ''c'' Equal 3] None [] visit_contract"
  let ?p = "\<lambda>f. \<lparr>property_name = f, ascending = True\<rparr>"
  have key: "clause_key no_base58 reference_codecs visit_type (visit_clause ''c'' Equal 3) (CInteger 3) = Inr (encode_signed_integer 3)"
    using visit_key[of "''c''" 3] by (simp add: clause_key_def visit_clause_def)
  obtain pq where pq: "get_non_primary_key_path_query no_base58 reference_codecs ?q [[1]] None = Inr pq"
    using key visit_key[of "''a''" 1] unfolding get_non_primary_key_path_query_def visit_best_index
    by (simp add: visit_index intermediate_values_def intermediate_clauses_def
        last_clause_of_def left_over_properties_def visit_query_def visit_clause_def equal_clause_for_def bt_get_def
        List.map_filter_simps on_field_def final_query_def last_clause_query_def is_range_def
        to_path_query_def starts_at_key_def clause_items_def find_property_def Let_def rmap_def)
  have "clause_selects no_base58 reference_codecs visit_type (visit_clause ''c'' Equal 3) (encode_signed_integer 3)"
    using key by (simp add: clause_selects_def visit_clause_def)
  with index_query_gap_searches_wrong_tree[OF pq visit_best_index(2), of "[?p ''a'']" "?p ''b''" "[]" "?p ''c''" "[]" "visit_clause ''c'' Equal 3"]
  show ?thesis
    using pq by (auto simp: visit_index property_names_def visit_query_def equal_clause_for_def bt_get_def visit_clause_def)
qed

end
