(* ===== verification/DocIndex.thy ===== *)
theory DocIndex
  imports DocStore IndexQueries
begin

text \<open>
  What the operations on documents leave in the database, and how it meets the queries: the batch of an
  insertion, an update and a deletion is described entry by entry, and compared with the paths that a query over
  an index selects.
\<close>

section \<open>Entries of a document\<close>

definition index_values :: "(string \<Rightarrow> bytes option) \<Rightarrow> field_codecs \<Rightarrow> document \<Rightarrow> document_type \<Rightarrow> id32 option \<Rightarrow> index \<Rightarrow>
    error + bytes list" where
  "index_values b58 C doc dt owner ix =
     mapM (\<lambda>p. document_field_or_empty b58 C doc dt owner (property_name p)) (index_properties ix)"

text \<open>The reference is the key \<open>[0]\<close> of a unique index without empty values and a key of the tree \<open>[0]\<close> otherwise.\<close>

definition entry_location :: "path \<Rightarrow> index \<Rightarrow> bytes list \<Rightarrow> bytes \<Rightarrow> path \<times> bytes" where
  "entry_location dt_path ix vs document_id =
     (let p = dt_path @ interleave_path (index_properties ix) vs
      in if \<not> unique ix \<or> [] \<in> set vs then (p @ [[0]], document_id) else (p, [0]))"

text \<open>The names a document type may index: none is the byte zero, and no two indexes have the same properties.\<close>

definition indexes_named :: "document_type \<Rightarrow> bool" where
  "indexes_named dt \<longleftrightarrow>
     (\<forall>ix \<in> set (indices dt). \<forall>p \<in> set (index_properties ix). string_bytes (property_name p) \<noteq> [0]) \<and>
     distinct (map (\<lambda>ix. property_names (index_properties ix)) (indices dt))"

section \<open>Batches\<close>

lemma list_all2_common: "list_all2 P xs ys \<Longrightarrow> list_all2 Q xs ys \<Longrightarrow> x \<in> set xs \<Longrightarrow> \<exists>y. P x y \<and> Q x y"
  by (induction rule: list_all2_induct) auto

lemma list_all2_left: "list_all2 P xs ys \<Longrightarrow> x \<in> set xs \<Longrightarrow> \<exists>y \<in> set ys. P x y"
  by (induction rule: list_all2_induct) auto

lemma list_all2_right: "list_all2 P xs ys \<Longrightarrow> y \<in> set ys \<Longrightarrow> \<exists>x \<in> set xs. P x y"
  by (induction rule: list_all2_induct) auto

abbreviation batch_of :: "drive_ops \<Rightarrow> batch" where
  "batch_of \<equiv> grovedb_operations_batch"

lemma batch_of_simps [simp]:
  "batch_of [] = []"
  "batch_of (xs @ ys) = batch_of xs @ batch_of ys"
  "batch_of (GroveOperation o' # xs) = o' # batch_of xs"
  "batch_of (CalculatedCostOperation c # xs) = batch_of xs"
  by (simp_all add: grovedb_operations_batch_def List.map_filter_def)

text \<open>Insertions of empty trees on the way to \<open>q\<close>, below \<open>n\<close> segments.\<close>

definition tree_op :: "nat \<Rightarrow> path \<Rightarrow> grove_op \<Rightarrow> bool" where
  "tree_op n q o' \<longleftrightarrow> (\<exists>f. op_op o' = Insert (Tree None f)) \<and> prefix (op_path o' @ [op_key o']) q \<and> n \<le> length (op_path o')"

lemma for_empty_tree_op: "\<exists>f. for_empty_tree V p k flags = GroveOperation (insert_run_op p k (Tree None f))"
  by (cases flags) (auto simp: for_empty_tree_def for_path_key_element_def to_some_element_flags_def empty_tree_def)

lemma tree_op_mono: "tree_op n q o' \<Longrightarrow> m \<le> n \<Longrightarrow> prefix q q' \<Longrightarrow> tree_op m q' o'"
  by (auto simp: tree_op_def intro: prefix_order.trans)

fun known_path :: "path_key_info \<Rightarrow> (path \<times> bytes) option" where
  "known_path (PathFixedSizeKey p k) = Some (p, k)"
| "known_path (PathFixedSizeKeyRef p k) = Some (p, k)"
| "known_path (PathKey p k) = Some (p, k)"
| "known_path (PathKeyRef p k) = Some (p, k)"
| "known_path (PathKeySize _ _) = None"

lemma batch_tree_known:
  assumes "grove_contract (grove d)" "known_path info = Some (p, k)"
    and "batch_insert_empty_tree_if_not_exists d db info flags True ops = Inr (b, ops')"
  shows "\<exists>ts. batch_of ops' = batch_of ops @ ts \<and> (\<forall>o' \<in> set ts. tree_op (length p) (p @ [k]) o')"
proof -
  have "batch_empty_tree_known d db p k flags True ops = Inr (b, ops')" using assms(2,3) by (cases info) simp_all
  then obtain has ops1 where h: "grove_has_raw d db p k None ops = Inr (has, ops1)"
    "ops' = (if has then ops1 else ops1 @ [for_empty_tree (varint d) p k flags])"
    by (auto simp: batch_empty_tree_known_def rs_result)
  obtain c where "ops1 = ops @ [CalculatedCostOperation c]" using grove_has_raw_ops[OF assms(1) h(1)] by blast
  moreover obtain f where "for_empty_tree (varint d) p k flags = GroveOperation (insert_run_op p k (Tree None f))"
    using for_empty_tree_op by blast
  ultimately show ?thesis using h(2) by (auto simp: tree_op_def insert_run_op_def)
qed

lemma tree_once_known:
  assumes "grove_contract (grove d)" "known_path info = Some (p, k)"
    and "insert_tree_once d db flags True info (cache, ops) = Inr (cache', ops')"
  shows "\<exists>ts. batch_of ops' = batch_of ops @ ts \<and> (\<forall>o' \<in> set ts. tree_op (length p) (p @ [k]) o')"
proof (cases "is_contained_in_cache info cache")
  case True
  with assms(3) show ?thesis by (simp add: insert_tree_once_def)
next
  case False
  with assms(3) batch_tree_known[OF assms(1,2)] show ?thesis by (auto simp: insert_tree_once_def rs_result)
qed

section \<open>The batch of an insertion\<close>

lemma known_path_add [simp]:
  "known_path (add_path (KeyOwned k) p) = Some (p, k)"
  "known_path (add_path_info (KeyOwned k) (PathIterator p)) = Some (p, k)"
  "known_path (add_path_info (KeyRef k) (PathIterator p)) = Some (p, k)"
  by simp_all

lemma info_field_known:
  "info_field b58 C (DocumentRefAndSerialization doc bs flags) dt owner =
     (\<lambda>k. rmap KeyOwned (document_field_or_empty b58 C doc dt owner k))"
  by (rule ext) (auto simp: info_field_def document_field_or_empty_def raw_key_def rmap_def drive_key_info_default_def
      split: sum.splits option.splits)

lemma insert_level_known:
  assumes "grove_contract (grove d)"
    and "insert_index_level d db flags True (\<lambda>k. rmap KeyOwned (g k)) (PathIterator q, nul, cache, ops) p = Inr st'"
  shows "\<exists>v cache' ops' ts. g (property_name p) = Inr v \<and>
    st' = (PathIterator (q @ [string_bytes (property_name p), v]), nul \<or> v = [], cache', ops') \<and>
    batch_of ops' = batch_of ops @ ts \<and>
    (\<forall>o' \<in> set ts. tree_op (length q) (q @ [string_bytes (property_name p), v]) o')"
proof -
  let ?n = "string_bytes (property_name p)"
  obtain v where v: "g (property_name p) = Inr v" using assms(2)
    by (auto simp: insert_index_level_def Let_def rbind_eq_Inr rmap_eq_Inr)
  obtain cache1 ops1 cache2 ops2 where
      1: "insert_tree_once d db flags True (add_path_info (KeyRef ?n) (PathIterator q)) (cache, ops) = Inr (cache1, ops1)" and
      2: "insert_tree_once d db flags True (add_path_info (KeyOwned v) (PathIterator (q @ [?n]))) (cache1, ops1) = Inr (cache2, ops2)" and
      st: "st' = (PathIterator (q @ [?n, v]), nul \<or> v = [], cache2, ops2)"
    using assms(2) v by (auto simp: insert_index_level_def Let_def rbind_eq_Inr)
  obtain ts1 where t1: "batch_of ops1 = batch_of ops @ ts1" "\<forall>o' \<in> set ts1. tree_op (length q) (q @ [?n]) o'"
    using tree_once_known[OF assms(1) _ 1] by auto
  obtain ts2 where t2: "batch_of ops2 = batch_of ops1 @ ts2" "\<forall>o' \<in> set ts2. tree_op (length (q @ [?n])) ((q @ [?n]) @ [v]) o'"
    using tree_once_known[OF assms(1) _ 2] by auto
  have "\<forall>o' \<in> set (ts1 @ ts2). tree_op (length q) (q @ [?n, v]) o'"
    using t1(2) t2(2) by (auto intro: tree_op_mono)
  with v st t1(1) t2(1) show ?thesis by (intro exI[of _ v] exI[of _ cache2] exI[of _ ops2] exI[of _ "ts1 @ ts2"]) simp
qed

lemma insert_levels_known:
  assumes "grove_contract (grove d)"
    and "foldM (insert_index_level d db flags True (\<lambda>k. rmap KeyOwned (g k))) (PathIterator q, nul, cache, ops) ps = Inr st'"
  shows "\<exists>vs cache' ops' ts. mapM (\<lambda>p. g (property_name p)) ps = Inr vs \<and>
    st' = (PathIterator (q @ interleave_path ps vs), nul \<or> [] \<in> set vs, cache', ops') \<and>
    batch_of ops' = batch_of ops @ ts \<and>
    (\<forall>o' \<in> set ts. tree_op (length q) (q @ interleave_path ps vs) o')"
  using assms(2)
proof (induction ps arbitrary: q nul cache ops)
  case Nil
  then show ?case by (intro exI[of _ "[]"] exI[of _ cache] exI[of _ ops]) simp
next
  case (Cons p ps)
  let ?n = "string_bytes (property_name p)"
  obtain st1 where st1: "insert_index_level d db flags True (\<lambda>k. rmap KeyOwned (g k)) (PathIterator q, nul, cache, ops) p = Inr st1"
    "foldM (insert_index_level d db flags True (\<lambda>k. rmap KeyOwned (g k))) st1 ps = Inr st'"
    using Cons.prems by (auto simp: rbind_eq_Inr)
  obtain v cache1 ops1 ts1 where 1: "g (property_name p) = Inr v" "st1 = (PathIterator (q @ [?n, v]), nul \<or> v = [], cache1, ops1)"
    "batch_of ops1 = batch_of ops @ ts1" "\<forall>o' \<in> set ts1. tree_op (length q) (q @ [?n, v]) o'"
    using insert_level_known[OF assms(1) st1(1)] by blast
  obtain vs cache2 ops2 ts2 where 2: "mapM (\<lambda>p. g (property_name p)) ps = Inr vs"
    "st' = (PathIterator ((q @ [?n, v]) @ interleave_path ps vs), (nul \<or> v = []) \<or> [] \<in> set vs, cache2, ops2)"
    "batch_of ops2 = batch_of ops1 @ ts2" "\<forall>o' \<in> set ts2. tree_op (length (q @ [?n, v])) ((q @ [?n, v]) @ interleave_path ps vs) o'"
    using Cons.IH[OF st1(2)[unfolded 1(2)]] by blast
  have "tree_op (length q) (q @ interleave_path (p # ps) (v # vs)) o'" if "o' \<in> set (ts1 @ ts2)" for o'
    using that 1(4) 2(4) by (auto intro: tree_op_mono)
  with 1(1,3) 2(1-3) show ?case
    by (intro exI[of _ "v # vs"] exI[of _ cache2] exI[of _ ops2] exI[of _ "ts1 @ ts2"]) auto
qed

text \<open>The reference comes last, after the tree it is put in.\<close>

lemma insert_reference_known:
  assumes "grove_contract (grove d)"
    and "insert_reference d db (DocumentRefAndSerialization doc bs flags) dt True ix (PathIterator q) nul ops = Inr ops'"
  shows "\<exists>ts. batch_of ops' = batch_of ops @ ts @
      [insert_run_op (if \<not> unique ix \<or> nul then q @ [[0]] else q) (if \<not> unique ix \<or> nul then doc_id doc else [0])
         (make_document_reference (varint d) doc dt flags)] \<and>
    (\<forall>o' \<in> set ts. tree_op (length q) (if \<not> unique ix \<or> nul then q @ [[0]] else q) o') \<and>
    (unique ix \<and> \<not> nul \<longrightarrow> gdb_has_raw (grove d) db q [0] = Inr False)"
proof (cases "\<not> unique ix \<or> nul")
  case True
  let ?r = "make_document_reference (varint d) doc dt flags"
  obtain b ops1 where 1: "batch_insert_empty_tree_if_not_exists d db (PathKeyRef q [0]) flags True ops = Inr (b, ops1)"
    "ops' = ops1 @ [for_path_key_element (q @ [[0]]) (doc_id doc) ?r]"
    using assms(2) True by (auto simp: insert_reference_def rbind_eq_Inr)
  obtain ts where "batch_of ops1 = batch_of ops @ ts" "\<forall>o' \<in> set ts. tree_op (length q) (q @ [[0]]) o'"
    using batch_tree_known[OF assms(1) _ 1(1)] by auto
  with 1(2) True show ?thesis by (intro exI[of _ ts]) (auto simp: for_path_key_element_def)
next
  case False
  let ?r = "make_document_reference (varint d) doc dt flags"
  obtain ops1 where 1: "batch_insert_known d db q [0] ?r None ops = Inr (True, ops1)" "ops' = ops1"
    using assms(2) False by (auto simp: insert_reference_def rbind_eq_Inr stateless_size_def split: if_splits)
  then obtain ops2 where 2: "grove_has_raw d db q [0] None ops = Inr (False, ops2)"
    "ops' = ops2 @ [for_path_key_element q [0] ?r]"
    by (auto simp: batch_insert_known_def rbind_eq_Inr)
  with grove_has_raw_ops[OF assms(1) 2(1)] False show ?thesis
    by (intro exI[of _ "[]"]) (auto simp: for_path_key_element_def)
qed

lemma insert_index_known:
  assumes "grove_contract (grove d)" "document_info i = DocumentRefAndSerialization doc bs flags"
    and "insert_index b58 C d db i True (cache, ops) ix = Inr (cache', ops')"
  shows "\<exists>vs ts p k. index_values b58 C doc (info_document_type i) (info_owner_id i) ix = Inr vs \<and>
    (p, k) = entry_location (contract_document_type_path (contract_id (info_contract i)) (type_name (info_document_type i)))
      ix vs (doc_id doc) \<and>
    batch_of ops' = batch_of ops @ ts @
      [insert_run_op p k (make_document_reference (varint d) doc (info_document_type i) flags)] \<and>
    (\<forall>o' \<in> set ts. tree_op 5 p o') \<and>
    (unique ix \<and> [] \<notin> set vs \<longrightarrow> gdb_has_raw (grove d) db p k = Inr False)"
proof -
  let ?dt = "info_document_type i"
  let ?g = "document_field_or_empty b58 C doc ?dt (info_owner_id i)"
  let ?q = "contract_document_type_path (contract_id (info_contract i)) (type_name ?dt)"
  let ?r = "make_document_reference (varint d) doc ?dt flags"
  obtain p0 ps where ps: "index_properties ix = p0 # ps"
    using assms(3) by (cases "index_properties ix") (auto simp: insert_index_def Let_def)
  let ?p = "?q @ [string_bytes (property_name p0)]"
  obtain v cache1 ops1 st2 where v: "?g (property_name p0) = Inr v"
    and 1: "insert_tree_once d db flags True (PathKey ?p v) (cache, ops) = Inr (cache1, ops1)"
    and 2: "foldM (insert_index_level d db flags True (\<lambda>k. rmap KeyOwned (?g k))) (PathIterator (?p @ [v]), v = [], cache1, ops1) ps = Inr st2"
    and 3: "rbind (insert_reference d db (DocumentRefAndSerialization doc bs flags) ?dt True ix (fst st2) (fst (snd st2)) (snd (snd (snd st2))))
        (\<lambda>ops. Inr (fst (snd (snd st2)), ops)) = Inr (cache', ops')"
    using assms(3) unfolding insert_index_def Let_def assms(2) info_field_known ps
    by (auto simp: rbind_eq_Inr rmap_eq_Inr)
  obtain ts1 where t1: "batch_of ops1 = batch_of ops @ ts1" "\<forall>o' \<in> set ts1. tree_op (length ?p) (?p @ [v]) o'"
    using tree_once_known[OF assms(1) _ 1] by auto
  obtain vs cache2 ops2 ts2 where t2: "mapM (\<lambda>p. ?g (property_name p)) ps = Inr vs"
    "st2 = (PathIterator ((?p @ [v]) @ interleave_path ps vs), v = [] \<or> [] \<in> set vs, cache2, ops2)"
    "batch_of ops2 = batch_of ops1 @ ts2" "\<forall>o' \<in> set ts2. tree_op (length (?p @ [v])) ((?p @ [v]) @ interleave_path ps vs) o'"
    using insert_levels_known[OF assms(1) 2] by blast
  let ?e = "(?p @ [v]) @ interleave_path ps vs" and ?nul = "v = [] \<or> [] \<in> set vs"
  have e: "?e = ?q @ interleave_path (index_properties ix) (v # vs)" by (simp add: ps)
  obtain ts3 where t3: "batch_of ops' = batch_of ops2 @ ts3 @
      [insert_run_op (if \<not> unique ix \<or> ?nul then ?e @ [[0]] else ?e) (if \<not> unique ix \<or> ?nul then doc_id doc else [0]) ?r]"
    "\<forall>o' \<in> set ts3. tree_op (length ?e) (if \<not> unique ix \<or> ?nul then ?e @ [[0]] else ?e) o'"
    "unique ix \<and> \<not> ?nul \<longrightarrow> gdb_has_raw (grove d) db ?e [0] = Inr False"
  proof -
    have "insert_reference d db (DocumentRefAndSerialization doc bs flags) ?dt True ix (PathIterator ?e) ?nul ops2 = Inr ops'"
      using 3 unfolding t2(2) by (auto simp: rbind_eq_Inr)
    from that insert_reference_known[OF assms(1) this] show ?thesis by blast
  qed
  have loc: "entry_location ?q ix (v # vs) (doc_id doc) =
      (if \<not> unique ix \<or> ?nul then ?e @ [[0]] else ?e, if \<not> unique ix \<or> ?nul then doc_id doc else [0])"
    unfolding entry_location_def Let_def e[symmetric] by auto
  have len: "length ?p = 5" by (simp add: contract_document_type_path_def)
  have "tree_op 5 (fst (entry_location ?q ix (v # vs) (doc_id doc))) o'" if "o' \<in> set (ts1 @ ts2 @ ts3)" for o'
    unfolding loc fst_conv
    using that t1(2) t2(4) t3(2) len by (auto elim!: tree_op_mono)
  moreover have "index_values b58 C doc ?dt (info_owner_id i) ix = Inr (v # vs)" by (simp add: index_values_def ps v t2(1))
  ultimately show ?thesis
    using t1(1) t2(3) t3(1,3) loc
    by (intro exI[of _ "v # vs"] exI[of _ "ts1 @ ts2 @ ts3"]
        exI[of _ "fst (entry_location ?q ix (v # vs) (doc_id doc))"] exI[of _ "snd (entry_location ?q ix (v # vs) (doc_id doc))"])
      auto
qed

section \<open>Entries do not overlap\<close>

lemma entry_clash:
  assumes "prefix (interleave_path ps vs @ [[0]]) (interleave_path ps' vs' @ [0] # rest)"
    and "length vs = length ps" "length vs' = length ps'"
    and "\<forall>p \<in> set ps \<union> set ps'. string_bytes (property_name p) \<noteq> [0]"
  shows "property_names ps = property_names ps'"
  using assms
proof (induction ps arbitrary: vs ps' vs')
  case Nil
  then show ?case by (cases ps'; cases vs') (auto simp: property_names_def)
next
  case (Cons p ps)
  obtain v us where vs: "vs = v # us" using Cons.prems(2) by (cases vs) auto
  obtain p' qs v' us' where ps': "ps' = p' # qs" "vs' = v' # us'"
    using Cons.prems vs by (cases ps'; cases vs') auto
  have "property_names ps = property_names qs"
    by (rule Cons.IH[of us qs us']) (use Cons.prems vs ps' in auto)
  then show ?case using Cons.prems(1) vs ps' by (simp add: property_names_def string_bytes_inject)
qed

text \<open>The operations of one index: trees on the way to the entry, then the reference.\<close>

definition index_batch :: "(string \<Rightarrow> bytes option) \<Rightarrow> field_codecs \<Rightarrow> varint_ops \<Rightarrow> path \<Rightarrow> document \<Rightarrow> document_type \<Rightarrow> id32 option \<Rightarrow>
    storage_flags option \<Rightarrow> index \<Rightarrow> batch \<Rightarrow> bool" where
  "index_batch b58 C V q doc dt owner flags ix os \<longleftrightarrow>
     (\<exists>vs ts. index_values b58 C doc dt owner ix = Inr vs \<and> index_properties ix \<noteq> [] \<and>
        os = ts @ [insert_run_op (fst (entry_location q ix vs (doc_id doc))) (snd (entry_location q ix vs (doc_id doc)))
                     (make_document_reference V doc dt flags)] \<and>
        (\<forall>o' \<in> set ts. tree_op (Suc (length q)) (fst (entry_location q ix vs (doc_id doc))) o'))"

definition op_full_path :: "grove_op \<Rightarrow> path" where
  "op_full_path o' = op_path o' @ [op_key o']"

lemma index_batch_paths:
  assumes "index_batch b58 C V q doc dt owner flags ix os" "o' \<in> set os" "index_values b58 C doc dt owner ix = Inr vs"
  shows "\<exists>rest. prefix (op_full_path o') (q @ interleave_path (index_properties ix) vs @ [0] # rest) \<and>
    Suc (length q) < length (op_full_path o') \<and> \<not> deletes o'"
proof -
  let ?loc = "entry_location q ix vs (doc_id doc)"
  obtain ts where ts: "index_properties ix \<noteq> []"
      "os = ts @ [insert_run_op (fst ?loc) (snd ?loc) (make_document_reference V doc dt flags)]"
      "\<forall>o' \<in> set ts. tree_op (Suc (length q)) (fst ?loc) o'"
    using assms(1,3) by (auto simp: index_batch_def)
  let ?rest = "if \<not> unique ix \<or> [] \<in> set vs then [doc_id doc] else []"
  have loc: "fst ?loc @ [snd ?loc] = q @ interleave_path (index_properties ix) vs @ [0] # ?rest"
    by (simp add: entry_location_def Let_def)
  have len: "length vs = length (index_properties ix)" using assms(3) mapM_length by (force simp: index_values_def)
  have "2 \<le> length (interleave_path (index_properties ix) vs)"
    using ts(1) len by (cases "index_properties ix"; cases vs) auto
  then have long: "Suc (length q) < length (fst ?loc @ [snd ?loc])" unfolding loc by (cases "interleave_path (index_properties ix) vs") auto
  from assms(2) ts(2) consider "o' \<in> set ts" | "o' = insert_run_op (fst ?loc) (snd ?loc) (make_document_reference V doc dt flags)"
    by auto
  then show ?thesis
  proof cases
    case 1
    then have "prefix (op_full_path o') (fst ?loc)" "Suc (length q) \<le> length (op_path o')" "\<not> deletes o'"
      using ts(3) by (auto simp: tree_op_def op_full_path_def deletes_def)
    moreover have "prefix (fst ?loc) (fst ?loc @ [snd ?loc])" by simp
    ultimately show ?thesis unfolding loc
      by (intro exI[of _ ?rest]) (auto simp: op_full_path_def intro: prefix_order.trans)
  next
    case 2
    then show ?thesis using loc long
      by (intro exI[of _ ?rest]) (auto simp: op_full_path_def insert_run_op_def deletes_def)
  qed
qed

lemma paths_apart:
  assumes "indexes_named dt" "ix \<in> set (indices dt)" "ix' \<in> set (indices dt)"
    and "length vs = length (index_properties ix)" "length vs' = length (index_properties ix')"
    and "prefix (q @ interleave_path (index_properties ix) vs @ [[0]]) path"
    and "prefix path (q @ interleave_path (index_properties ix') vs' @ [0] # rest)"
  shows "property_names (index_properties ix) = property_names (index_properties ix')"
proof (rule entry_clash)
  show "prefix (interleave_path (index_properties ix) vs @ [[0]]) (interleave_path (index_properties ix') vs' @ [0] # rest)"
    using prefix_order.trans[OF assms(6,7)] by simp
  show "\<forall>p \<in> set (index_properties ix) \<union> set (index_properties ix'). string_bytes (property_name p) \<noteq> [0]"
    using assms(1-3) by (auto simp: indexes_named_def)
qed (fact assms(4,5))+

lemma path_not_primary:
  assumes "indexes_named dt" "ix \<in> set (indices dt)" "index_properties ix \<noteq> []" "length vs = length (index_properties ix)"
    and "prefix path (q @ interleave_path (index_properties ix) vs @ [0] # rest)"
  shows "\<not> prefix (q @ [[0]]) path"
proof
  assume "prefix (q @ [[0]]) path"
  from prefix_order.trans[OF this assms(5)] have "prefix [[0]] (interleave_path (index_properties ix) vs @ [0] # rest)" by simp
  moreover obtain p0 ps v us where "index_properties ix = p0 # ps" "vs = v # us"
    using assms(3,4) by (cases "index_properties ix"; cases vs) auto
  ultimately show False using assms(1,2) by (auto simp: indexes_named_def)
qed

lemma index_values_length: "index_values b58 C doc dt owner ix = Inr vs \<Longrightarrow> length vs = length (index_properties ix)"
  by (auto simp: index_values_def dest: mapM_length)

lemma entries_apart:
  assumes "indexes_named dt" "ix \<in> set (indices dt)" "ix' \<in> set (indices dt)" "property_names (index_properties ix) \<noteq> property_names (index_properties ix')"
    and "index_batch b58 C V q doc dt owner flags ix' os" "o' \<in> set os" "index_values b58 C doc dt owner ix = Inr vs"
  shows "\<not> writes (fst (entry_location q ix vs (doc_id doc))) (snd (entry_location q ix vs (doc_id doc))) o'"
proof
  let ?loc = "entry_location q ix vs (doc_id doc)"
  assume "writes (fst ?loc) (snd ?loc) o'"
  then have "op_full_path o' = fst ?loc @ [snd ?loc]" by (simp add: writes_def op_full_path_def)
  then have 1: "prefix (q @ interleave_path (index_properties ix) vs @ [[0]]) (op_full_path o')"
    by (simp add: entry_location_def Let_def)
  obtain vs' where vs': "index_values b58 C doc dt owner ix' = Inr vs'"
    using assms(5) by (auto simp: index_batch_def)
  obtain rest where 2: "prefix (op_full_path o') (q @ interleave_path (index_properties ix') vs' @ [0] # rest)"
    using index_batch_paths[OF assms(5,6) vs'] by blast
  from paths_apart[OF assms(1-3) index_values_length[OF assms(7)] index_values_length[OF vs'] 1 2] assms(4)
  show False by contradiction
qed

lemma own_index_writes:
  assumes "index_batch b58 C V q doc dt owner flags ix os" "index_values b58 C doc dt owner ix = Inr vs"
    and "o' \<in> set os" "writes (fst (entry_location q ix vs (doc_id doc))) (snd (entry_location q ix vs (doc_id doc))) o'"
  shows "op_op o' = Insert (make_document_reference V doc dt flags)"
proof -
  let ?loc = "entry_location q ix vs (doc_id doc)"
  obtain ts where ts: "os = ts @ [insert_run_op (fst ?loc) (snd ?loc) (make_document_reference V doc dt flags)]"
      "\<forall>o' \<in> set ts. tree_op (Suc (length q)) (fst ?loc) o'"
    using assms(1,2) by (auto simp: index_batch_def)
  have "o' \<notin> set ts"
  proof
    assume "o' \<in> set ts"
    with ts(2) have "prefix (op_path o' @ [op_key o']) (fst ?loc)" by (simp add: tree_op_def)
    with assms(4) show False by (auto simp: writes_def dest: prefix_length_le)
  qed
  with assms(3) ts(1) show ?thesis by (auto simp: insert_run_op_def)
qed

lemma indices_last_write:
  assumes dt: "indexes_named dt" and oss: "list_all2 (index_batch b58 C V q doc dt owner flags) (indices dt) oss"
    and ix: "ix \<in> set (indices dt)" "index_values b58 C doc dt owner ix = Inr vs"
  shows "last_write (concat oss) (fst (entry_location q ix vs (doc_id doc))) (snd (entry_location q ix vs (doc_id doc))) =
    Some (Insert (make_document_reference V doc dt flags))"
proof (rule last_write_unique)
  let ?loc = "entry_location q ix vs (doc_id doc)"
  obtain os where os: "os \<in> set oss" "index_batch b58 C V q doc dt owner flags ix os"
    using list_all2_left[OF oss ix(1)] by blast
  obtain ts where "os = ts @ [insert_run_op (fst ?loc) (snd ?loc) (make_document_reference V doc dt flags)]"
    using os(2) ix(2) by (auto simp: index_batch_def)
  then have "insert_run_op (fst ?loc) (snd ?loc) (make_document_reference V doc dt flags) \<in> set (concat oss)"
    using os(1) by (force simp: set_concat)
  then show "\<exists>o' \<in> set (concat oss). writes (fst ?loc) (snd ?loc) o'"
    by (rule bexI[rotated]) (simp add: writes_def insert_run_op_def)
  show "\<forall>o' \<in> set (concat oss). writes (fst ?loc) (snd ?loc) o' \<longrightarrow> op_op o' = Insert (make_document_reference V doc dt flags)"
  proof (intro ballI impI)
    fix o' assume o': "o' \<in> set (concat oss)" "writes (fst ?loc) (snd ?loc) o'"
    then obtain os' where "os' \<in> set oss" "o' \<in> set os'" by auto
    then obtain ix' where ix': "ix' \<in> set (indices dt)" "index_batch b58 C V q doc dt owner flags ix' os'"
      using list_all2_right[OF oss] by blast
    have "property_names (index_properties ix) = property_names (index_properties ix')"
      using entries_apart[OF dt ix(1) ix'(1) _ ix'(2) \<open>o' \<in> set os'\<close> ix(2)] o'(2) by blast
    then have "ix = ix'" using dt ix(1) ix'(1) by (auto simp: indexes_named_def distinct_map dest: inj_onD)
    with own_index_writes[OF ix'(2) _ \<open>o' \<in> set os'\<close>] ix(2) o'(2)
    show "op_op o' = Insert (make_document_reference V doc dt flags)" by simp
  qed
qed

lemma indices_known:
  assumes "grove_contract (grove d)" "document_info i = DocumentRefAndSerialization doc bs flags"
    and "foldM (insert_index b58 C d db i True) (cache, ops) ixs = Inr (cache', ops')"
  shows "\<exists>oss. batch_of ops' = batch_of ops @ concat oss \<and>
    list_all2 (index_batch b58 C (varint d) (contract_document_type_path (contract_id (info_contract i)) (type_name (info_document_type i)))
      doc (info_document_type i) (info_owner_id i) flags) ixs oss \<and>
    (\<forall>ix \<in> set ixs. \<forall>vs. index_values b58 C doc (info_document_type i) (info_owner_id i) ix = Inr vs \<longrightarrow> unique ix \<longrightarrow> [] \<notin> set vs \<longrightarrow>
       gdb_has_raw (grove d) db
         (contract_document_type_path (contract_id (info_contract i)) (type_name (info_document_type i)) @
            interleave_path (index_properties ix) vs) [0] = Inr False)"
  using assms(3)
proof (induction ixs arbitrary: cache ops)
  case Nil
  then show ?case by simp
next
  case (Cons ix ixs)
  let ?dt = "info_document_type i"
  let ?q = "contract_document_type_path (contract_id (info_contract i)) (type_name ?dt)"
  obtain cache1 ops1 where 1: "insert_index b58 C d db i True (cache, ops) ix = Inr (cache1, ops1)"
    "foldM (insert_index b58 C d db i True) (cache1, ops1) ixs = Inr (cache', ops')"
    using Cons.prems by (auto simp: rbind_eq_Inr)
  obtain vs ts p k where v: "index_values b58 C doc ?dt (info_owner_id i) ix = Inr vs" "(p, k) = entry_location ?q ix vs (doc_id doc)"
    "batch_of ops1 = batch_of ops @ ts @ [insert_run_op p k (make_document_reference (varint d) doc ?dt flags)]"
    "\<forall>o' \<in> set ts. tree_op 5 p o'" "unique ix \<and> [] \<notin> set vs \<longrightarrow> gdb_has_raw (grove d) db p k = Inr False"
    using insert_index_known[OF assms(1,2) 1(1)] by blast
  have "index_properties ix \<noteq> []" using 1(1) by (auto simp: insert_index_def Let_def)
  moreover have "Suc (length ?q) = 5" by (simp add: contract_document_type_path_def)
  ultimately have "index_batch b58 C (varint d) ?q doc ?dt (info_owner_id i) flags ix
      (ts @ [insert_run_op p k (make_document_reference (varint d) doc ?dt flags)])"
    unfolding index_batch_def using v(1,4) by (intro exI[of _ vs] exI[of _ ts]) (simp flip: v(2))
  moreover have "unique ix \<longrightarrow> [] \<notin> set vs \<longrightarrow> gdb_has_raw (grove d) db (?q @ interleave_path (index_properties ix) vs) [0] = Inr False"
    using v(2,5) by (auto simp: entry_location_def)
  moreover obtain oss where "batch_of ops' = batch_of ops1 @ concat oss"
      "list_all2 (index_batch b58 C (varint d) ?q doc ?dt (info_owner_id i) flags) ixs oss"
      "\<forall>ix \<in> set ixs. \<forall>vs. index_values b58 C doc ?dt (info_owner_id i) ix = Inr vs \<longrightarrow> unique ix \<longrightarrow> [] \<notin> set vs \<longrightarrow>
         gdb_has_raw (grove d) db (?q @ interleave_path (index_properties ix) vs) [0] = Inr False"
    using Cons.IH[OF 1(2)] by blast
  ultimately show ?case using v(1,3)
    by (intro exI[of _ "(ts @ [insert_run_op p k (make_document_reference (varint d) doc ?dt flags)]) # oss"]) auto
qed

section \<open>Primary storage\<close>

text \<open>All operations on the primary storage lie below the key \<open>[0]\<close> of the document type.\<close>

lemma index_op_not_primary:
  assumes "indexes_named dt" "ix \<in> set (indices dt)" "index_batch b58 C V q doc dt owner flags ix os" "o' \<in> set os"
  shows "\<not> prefix (q @ [[0]]) (op_full_path o')"
proof -
  obtain vs where vs: "index_values b58 C doc dt owner ix = Inr vs" "index_properties ix \<noteq> []" using assms(3) by (auto simp: index_batch_def)
  then obtain rest where "prefix (op_full_path o') (q @ interleave_path (index_properties ix) vs @ [0] # rest)"
    using index_batch_paths[OF assms(3,4)] by blast
  then show ?thesis by (rule path_not_primary[OF assms(1,2) vs(2) index_values_length[OF vs(1)]])
qed

lemma primary_known:
  assumes "grove_contract (grove d)" "document_info i = DocumentRefAndSerialization doc bs flags"
    and "\<not> documents_keep_history (info_document_type i)"
    and "add_document_to_primary_storage C d db i block check True ops = Inr ops'"
  shows "batch_of ops' = batch_of ops @
      [insert_run_op (contract_documents_primary_key_path (contract_id (info_contract i)) (type_name (info_document_type i))) (doc_id doc)
         (Item bs (map_to_some_element_flags (varint d) flags))] \<and>
    (\<not> check \<longrightarrow> gdb_has_raw (grove d) db
       (contract_documents_primary_key_path (contract_id (info_contract i)) (type_name (info_document_type i))) (doc_id doc) = Inr False)"
proof -
  let ?p = "contract_documents_primary_key_path (contract_id (info_contract i)) (type_name (info_document_type i))"
  let ?e = "Item bs (map_to_some_element_flags (varint d) flags)"
  have item: "primary_item C d i = Inr (PathFixedSizeKeyElement ?p (doc_id doc) ?e)"
    by (simp add: primary_item_def assms(2) Let_def)
  show ?thesis
  proof (cases check)
    case True
    with assms(3,4) item show ?thesis by (simp add: add_document_to_primary_storage_def for_path_key_element_def flip: append_assoc) auto
  next
    case False
    with assms(3,4) item obtain ops1 where "batch_insert_known d db ?p (doc_id doc) ?e None ops = Inr (True, ops1)" "ops' = ops1"
      by (auto simp: add_document_to_primary_storage_def stateless_size_def rbind_eq_Inr split: if_splits)
    then obtain ops2 where "grove_has_raw d db ?p (doc_id doc) None ops = Inr (False, ops2)"
      "ops' = ops2 @ [for_path_key_element ?p (doc_id doc) ?e]"
      by (auto simp: batch_insert_known_def rbind_eq_Inr)
    with grove_has_raw_ops[OF assms(1) this(1)] False show ?thesis by (auto simp: for_path_key_element_def)
  qed
qed

text \<open>A batch whose operations below \<open>[0]\<close> come first, followed by those of the indexes.\<close>

lemma stored_batch:
  assumes G: "grove_contract (grove d)" "batching_enabled (config d)" and dt: "indexes_named dt"
    and oss: "list_all2 (index_batch b58 C V q doc dt owner flags) (indices dt) oss"
    and os: "\<forall>o' \<in> set os. prefix (q @ [[0]]) (op_full_path o') \<and> \<not> deletes o'"
    and ap: "grove_apply_batch d db (os @ concat oss) False = Inr db'"
  shows "last_write os p k = Some (Insert e) \<Longrightarrow> \<exists>e'. gdb_get_raw (grove d) db' p k = Inr e' \<and> stored_as e e'"
    and "ix \<in> set (indices dt) \<Longrightarrow> index_values b58 C doc dt owner ix = Inr vs \<Longrightarrow>
      \<exists>e'. gdb_get_raw (grove d) db' (fst (entry_location q ix vs (doc_id doc))) (snd (entry_location q ix vs (doc_id doc))) = Inr e' \<and>
        stored_as (make_document_reference V doc dt flags) e'"
proof -
  have ops: "\<exists>ix \<in> set (indices dt). index_batch b58 C V q doc dt owner flags ix os'" if "os' \<in> set oss" for os'
    using list_all2_right[OF oss that] by blast
  have index_op: "\<not> prefix (q @ [[0]]) (op_full_path o') \<and> \<not> deletes o'" if "o' \<in> set (concat oss)" for o'
  proof -
    obtain os' ix where "o' \<in> set os'" "ix \<in> set (indices dt)" and b: "index_batch b58 C V q doc dt owner flags ix os'"
      using \<open>o' \<in> set (concat oss)\<close> ops by fastforce
    moreover obtain vs where "index_values b58 C doc dt owner ix = Inr vs" using b by (auto simp: index_batch_def)
    ultimately show ?thesis using index_op_not_primary[OF dt] index_batch_paths[OF b] by blast
  qed
  have no_deletes: "\<not> deletes o'" if "o' \<in> set (os @ concat oss)" for o' using that os index_op by auto
  show "\<exists>e'. gdb_get_raw (grove d) db' p k = Inr e' \<and> stored_as e e'" if w: "last_write os p k = Some (Insert e)"
  proof (rule applied_batch_raw[OF G ap])
    obtain o' where o': "o' \<in> set os" "writes p k o'" using w last_write_None[of os p k] by auto
    have "\<not> writes p k o''" if "o'' \<in> set (concat oss)" for o''
      using index_op[OF that] os o' by (auto simp: writes_def op_full_path_def)
    then have "last_write (concat oss) p k = None" by (simp add: last_write_None)
    with w show "last_write (os @ concat oss) p k = Some (Insert e)" by (simp add: last_write_append)
  qed (use no_deletes in blast)
  show "\<exists>e'. gdb_get_raw (grove d) db' (fst (entry_location q ix vs (doc_id doc))) (snd (entry_location q ix vs (doc_id doc))) = Inr e' \<and>
      stored_as (make_document_reference V doc dt flags) e'"
    if "ix \<in> set (indices dt)" "index_values b58 C doc dt owner ix = Inr vs"
    by (rule applied_batch_raw[OF G ap])
      (use no_deletes indices_last_write[OF dt oss that] in \<open>auto simp: last_write_append\<close>)
qed

section \<open>Insertion\<close>

abbreviation info_type_path :: "'j document_and_contract_info \<Rightarrow> path" where
  "info_type_path i \<equiv> contract_document_type_path (contract_id (info_contract i)) (type_name (info_document_type i))"

abbreviation info_primary_path :: "'j document_and_contract_info \<Rightarrow> path" where
  "info_primary_path i \<equiv> contract_documents_primary_key_path (contract_id (info_contract i)) (type_name (info_document_type i))"

lemma applied_drive_batch:
  assumes "apply_batch_drive_operations d db True bops ops = Inr (db', ops')" "batching_enabled (config d)"
  shows "grove_apply_batch d db (batch_of bops) False = Inr db'"
  using assms
  by (auto simp: apply_batch_drive_operations_def apply_batch_grovedb_operations_def rbind_eq_Inr rmap_eq_Inr
      grove_apply_batch_def grove_apply_batch_with_add_costs_def push_result_eq_Inr split: if_splits)

lemma insertion_batch:
  assumes G: "grove_contract (grove d)"
    and i: "document_info i = DocumentRefAndSerialization doc bs flags" "\<not> documents_keep_history (info_document_type i)"
    and "add_document_for_contract_operations cbor_decode b58 C d db i False block True = Inr bops"
  obtains oss where
    "list_all2 (index_batch b58 C (varint d) (info_type_path i) doc (info_document_type i) (info_owner_id i) flags)
       (indices (info_document_type i)) oss"
    "batch_of bops = [insert_run_op (info_primary_path i) (doc_id doc) (Item bs (map_to_some_element_flags (varint d) flags))] @ concat oss"
    "gdb_has_raw (grove d) db (info_primary_path i) (doc_id doc) = Inr False"
    "\<forall>ix \<in> set (indices (info_document_type i)). \<forall>vs. index_values b58 C doc (info_document_type i) (info_owner_id i) ix = Inr vs \<longrightarrow>
       unique ix \<longrightarrow> [] \<notin> set vs \<longrightarrow>
       gdb_has_raw (grove d) db (info_type_path i @ interleave_path (index_properties ix) vs) [0] = Inr False"
proof -
  obtain ops1 cache where prim: "add_document_to_primary_storage C d db i block False True [] = Inr ops1"
    and ix: "foldM (insert_index b58 C d db i True) ({}, ops1) (indices (info_document_type i)) = Inr (cache, bops)"
    using assms(4) by (auto simp: add_document_for_contract_operations_def Let_def insert_document_operations_def insert_indices_def
        rbind_eq_Inr rmap_eq_Inr)
  obtain oss where oss: "batch_of bops = batch_of ops1 @ concat oss"
      "list_all2 (index_batch b58 C (varint d) (info_type_path i) doc (info_document_type i) (info_owner_id i) flags)
        (indices (info_document_type i)) oss"
      "\<forall>ix \<in> set (indices (info_document_type i)). \<forall>vs. index_values b58 C doc (info_document_type i) (info_owner_id i) ix = Inr vs \<longrightarrow>
         unique ix \<longrightarrow> [] \<notin> set vs \<longrightarrow>
         gdb_has_raw (grove d) db (info_type_path i @ interleave_path (index_properties ix) vs) [0] = Inr False"
    using indices_known[OF G i(1) ix] by blast
  show thesis
    by (rule that[OF oss(2) _ _ oss(3)]) (use primary_known[OF G i prim] oss(1) in simp_all)
qed

lemma inserted_parts:
  assumes G: "grove_contract (grove d)" "batching_enabled (config d)"
    and i: "document_info i = DocumentRefAndSerialization doc bs flags" "\<not> documents_keep_history (info_document_type i)"
    and "add_document_for_contract cbor_decode b58 C d db i False block True = Inr (db', fee)"
  obtains oss where
    "list_all2 (index_batch b58 C (varint d) (info_type_path i) doc (info_document_type i) (info_owner_id i) flags)
       (indices (info_document_type i)) oss"
    "grove_apply_batch d db ([insert_run_op (info_primary_path i) (doc_id doc) (Item bs (map_to_some_element_flags (varint d) flags))] @
       concat oss) False = Inr db'"
    "gdb_has_raw (grove d) db (info_primary_path i) (doc_id doc) = Inr False"
    "\<forall>ix \<in> set (indices (info_document_type i)). \<forall>vs. index_values b58 C doc (info_document_type i) (info_owner_id i) ix = Inr vs \<longrightarrow>
       unique ix \<longrightarrow> [] \<notin> set vs \<longrightarrow>
       gdb_has_raw (grove d) db (info_type_path i @ interleave_path (index_properties ix) vs) [0] = Inr False"
proof -
  obtain bops ops' where add: "add_document_for_contract_operations cbor_decode b58 C d db i False block True = Inr bops"
    and ap: "apply_batch_drive_operations d db True bops [] = Inr (db', ops')"
    using assms(5) by (auto simp: add_document_for_contract_def add_document_for_contract_apply_and_add_to_operations_def rbind_eq_Inr)
  show thesis
    by (rule insertion_batch[OF G(1) i add], rule that) (use applied_drive_batch[OF ap G(2)] in simp_all)
qed

lemma inserted_document_stored:
  assumes G: "grove_contract (grove d)" "batching_enabled (config d)"
    and i: "document_info i = DocumentRefAndSerialization doc bs flags" "\<not> documents_keep_history (info_document_type i)"
    and "add_document_for_contract cbor_decode b58 C d db i False block True = Inr (db', fee)"
    and "indexes_named (info_document_type i)"
  shows "\<exists>f. gdb_get_raw (grove d) db' (info_primary_path i) (doc_id doc) = Inr (Item bs f)"
    and "ix \<in> set (indices (info_document_type i)) \<Longrightarrow>
      \<exists>vs f. index_values b58 C doc (info_document_type i) (info_owner_id i) ix = Inr vs \<and>
        gdb_get_raw (grove d) db' (fst (entry_location (info_type_path i) ix vs (doc_id doc)))
          (snd (entry_location (info_type_path i) ix vs (doc_id doc))) =
          Inr (Reference (UpstreamRootHeightReference 4 [[0], doc_id doc]) (Some 1) f)"
proof -
  obtain oss where oss: "list_all2 (index_batch b58 C (varint d) (info_type_path i) doc (info_document_type i) (info_owner_id i) flags)
       (indices (info_document_type i)) oss"
    and ap: "grove_apply_batch d db ([insert_run_op (info_primary_path i) (doc_id doc) (Item bs (map_to_some_element_flags (varint d) flags))] @
       concat oss) False = Inr db'"
    by (rule inserted_parts[OF assms(1-5)])
  have os: "\<forall>o' \<in> set [insert_run_op (info_primary_path i) (doc_id doc) (Item bs (map_to_some_element_flags (varint d) flags))].
      prefix (info_type_path i @ [[0]]) (op_full_path o') \<and> \<not> deletes o'"
    by (simp add: insert_run_op_def op_full_path_def deletes_def contract_document_type_path_def contract_documents_primary_key_path_def)
  note stored = stored_batch[OF G assms(6) oss os ap]
  show "\<exists>f. gdb_get_raw (grove d) db' (info_primary_path i) (doc_id doc) = Inr (Item bs f)"
    using stored(1)[of "info_primary_path i" "doc_id doc" "Item bs (map_to_some_element_flags (varint d) flags)"]
    by (auto simp: insert_run_op_def writes_def)
  show "\<exists>vs f. index_values b58 C doc (info_document_type i) (info_owner_id i) ix = Inr vs \<and>
        gdb_get_raw (grove d) db' (fst (entry_location (info_type_path i) ix vs (doc_id doc)))
          (snd (entry_location (info_type_path i) ix vs (doc_id doc))) =
          Inr (Reference (UpstreamRootHeightReference 4 [[0], doc_id doc]) (Some 1) f)"
    if ix: "ix \<in> set (indices (info_document_type i))"
  proof -
    obtain os' where "index_batch b58 C (varint d) (info_type_path i) doc (info_document_type i) (info_owner_id i) flags ix os'"
      using list_all2_left[OF oss ix] by blast
    then obtain vs where vs: "index_values b58 C doc (info_document_type i) (info_owner_id i) ix = Inr vs"
      by (auto simp: index_batch_def)
    then show ?thesis using stored(2)[OF ix vs] i(2) by (auto simp: make_document_reference_def)
  qed
qed

text \<open>C3: a document that was inserted, of a type that keeps no history, can be read under its id, which was
  free before; and every index of its type holds a reference to that very place, under the values the document has
  for the properties of the index.\<close>

theorem document_inserted:
  assumes "grove_contract (grove d)" "batching_enabled (config d)" "indexes_named (info_document_type i)"
    and "document_info i = DocumentRefAndSerialization doc bs flags" "\<not> documents_keep_history (info_document_type i)"
    and "add_document_for_contract cbor_decode b58 C d db i False block True = Inr (db', fee)"
  shows "gdb_has_raw (grove d) db (info_primary_path i) (doc_id doc) = Inr False \<and>
    (\<exists>f. gdb_get (grove d) db' (info_primary_path i) (doc_id doc) = Inr (Item bs f)) \<and>
    (\<forall>ix \<in> set (indices (info_document_type i)).
       \<exists>vs p k r n f. index_values b58 C doc (info_document_type i) (info_owner_id i) ix = Inr vs \<and>
         (p, k) = entry_location (info_type_path i) ix vs (doc_id doc) \<and>
         gdb_get_raw (grove d) db' p k = Inr (Reference r n f) \<and>
         reference_target p r = Some (info_primary_path i, doc_id doc))"
proof (intro conjI ballI)
  show "gdb_has_raw (grove d) db (info_primary_path i) (doc_id doc) = Inr False"
    by (rule inserted_parts[OF assms(1,2,4-6)])
  show "\<exists>f. gdb_get (grove d) db' (info_primary_path i) (doc_id doc) = Inr (Item bs f)"
    using inserted_document_stored(1)[OF assms(1,2,4-6,3)] grove_contract.get_stored[OF assms(1)] by fastforce
  fix ix assume "ix \<in> set (indices (info_document_type i))"
  from inserted_document_stored(2)[OF assms(1,2,4-6,3) this] obtain vs f where
    vs: "index_values b58 C doc (info_document_type i) (info_owner_id i) ix = Inr vs"
    "gdb_get_raw (grove d) db' (fst (entry_location (info_type_path i) ix vs (doc_id doc)))
       (snd (entry_location (info_type_path i) ix vs (doc_id doc))) = Inr (Reference (UpstreamRootHeightReference 4 [[0], doc_id doc]) (Some 1) f)"
    by blast
  have "reference_target (fst (entry_location (info_type_path i) ix vs (doc_id doc))) (UpstreamRootHeightReference 4 [[0], doc_id doc]) =
      Some (info_primary_path i, doc_id doc)"
    by (simp add: entry_location_def Let_def contract_document_type_path_def contract_documents_primary_key_path_def)
  with vs show "\<exists>vs p k r n f. index_values b58 C doc (info_document_type i) (info_owner_id i) ix = Inr vs \<and>
         (p, k) = entry_location (info_type_path i) ix vs (doc_id doc) \<and>
         gdb_get_raw (grove d) db' p k = Inr (Reference r n f) \<and>
         reference_target p r = Some (info_primary_path i, doc_id doc)"
    by (intro exI[of _ vs] exI[of _ "fst (entry_location (info_type_path i) ix vs (doc_id doc))"]
        exI[of _ "snd (entry_location (info_type_path i) ix vs (doc_id doc))"] exI[of _ "UpstreamRootHeightReference 4 [[0], doc_id doc]"]
        exI[of _ "Some 1"] exI[of _ f]) simp
qed

text \<open>C8: two documents of one type that were inserted one after the other have different ids, and differ in
  the values of every unique index in which the first has no empty value.\<close>

theorem unique_indexes_enforced:
  assumes "grove_contract (grove d)" "batching_enabled (config d)" "indexes_named (info_document_type i)"
    and "document_info i = DocumentRefAndSerialization doc bs flags" "\<not> documents_keep_history (info_document_type i)"
    and "add_document_for_contract cbor_decode b58 C d db i False block True = Inr (db', fee)"
    and "document_info i' = DocumentRefAndSerialization doc' bs' flags'"
    and "info_contract i' = info_contract i" "info_document_type i' = info_document_type i"
    and "add_document_for_contract cbor_decode b58 C d db' i' False block' True = Inr (db'', fee')"
  shows "doc_id doc' \<noteq> doc_id doc \<and>
    (\<forall>ix \<in> set (indices (info_document_type i)). unique ix \<longrightarrow>
       (\<forall>vs. index_values b58 C doc (info_document_type i) (info_owner_id i) ix = Inr vs \<longrightarrow> [] \<notin> set vs \<longrightarrow>
          index_values b58 C doc' (info_document_type i) (info_owner_id i') ix \<noteq> Inr vs))"
proof -
  have i': "\<not> documents_keep_history (info_document_type i')" by (simp add: assms)
  have free: "gdb_has_raw (grove d) db' (info_primary_path i') (doc_id doc') = Inr False"
    "\<forall>ix \<in> set (indices (info_document_type i')). \<forall>vs. index_values b58 C doc' (info_document_type i') (info_owner_id i') ix = Inr vs \<longrightarrow>
       unique ix \<longrightarrow> [] \<notin> set vs \<longrightarrow>
       gdb_has_raw (grove d) db' (info_type_path i' @ interleave_path (index_properties ix) vs) [0] = Inr False"
    by (rule inserted_parts[OF assms(1,2,7) i' assms(10)], assumption)+
  note present = grove_contract.has_raw_present[OF assms(1)]
  have "gdb_has_raw (grove d) db' (info_primary_path i) (doc_id doc) = Inr True"
    using inserted_document_stored(1)[OF assms(1,2,4-6,3)] present by blast
  then have "doc_id doc' \<noteq> doc_id doc" using free(1) assms(8,9) by auto
  moreover have "index_values b58 C doc' (info_document_type i) (info_owner_id i') ix \<noteq> Inr vs"
    if "ix \<in> set (indices (info_document_type i))" "unique ix" "[] \<notin> set vs"
      "index_values b58 C doc (info_document_type i) (info_owner_id i) ix = Inr vs" for ix vs
  proof -
    have "gdb_has_raw (grove d) db' (info_type_path i @ interleave_path (index_properties ix) vs) [0] = Inr True"
      using inserted_document_stored(2)[OF assms(1,2,4-6,3) that(1)] that(2-4) present
      by (auto simp: entry_location_def)
    with free(2) that(1-3) assms(8,9) show ?thesis by auto
  qed
  ultimately show ?thesis by blast
qed

section \<open>Insertion and queries\<close>

lemma interleave_inject:
  assumes "interleave_path ps vs @ tail = interleave_path ps vs' @ tail'" "length vs = length ps" "length vs' = length ps"
  shows "vs = vs' \<and> tail = tail'"
  using assms
proof (induction ps arbitrary: vs vs')
  case (Cons p ps)
  then show ?case by (cases vs; cases vs') auto
qed simp



section \<open>Update\<close>

lemma update_levels_unchanged:
  assumes "\<forall>p \<in> set ps. \<exists>v. g (property_name p) = Inr v \<and> g' (property_name p) = Inr (KeyOwned v)" "\<not> us_changed u"
  shows "\<exists>u'. foldM (update_index_level d db flags ap g g') (u, st) ps = Inr (u', st) \<and> \<not> us_changed u'"
  using assms
proof (induction ps arbitrary: u)
  case (Cons p ps)
  then obtain v where "g (property_name p) = Inr v" "g' (property_name p) = Inr (KeyOwned v)" by auto
  with Cons show ?case by (simp add: update_index_level_def insert_tree_if_changed_def Let_def)
qed simp

lemma update_index_unchanged:
  assumes "\<forall>p \<in> set (index_properties ix). \<exists>v. g (property_name p) = Inr v \<and> g' (property_name p) = Inr (KeyOwned v)"
    and "index_properties ix \<noteq> []"
  shows "update_index d db flags ap q document_id r g g' st ix = Inr st"
proof -
  obtain p ps where ps: "index_properties ix = p # ps" using assms(2) by (cases "index_properties ix") auto
  then obtain v where v: "g (property_name p) = Inr v" "g' (property_name p) = Inr (KeyOwned v)" using assms(1) by auto
  let ?n = "string_bytes (property_name p)"
  let ?u = "\<lparr>us_changed = False, us_all_null = (v = []), us_path = (q @ [?n]) @ [v], us_old_path = map KeyOwned (q @ [?n]) @ [KeyOwned v]\<rparr>"
  obtain u' where "foldM (update_index_level d db flags ap g g') (?u, st) ps = Inr (u', st)" "\<not> us_changed u'"
    using update_levels_unchanged[where ps = ps and g = g and g' = g' and u = ?u and d = d and db = db and flags = flags and
        ap = ap and st = st] assms(1) ps by auto
  then show ?thesis by (cases st) (simp add: update_index_def ps v Let_def insert_tree_if_changed_def)
qed

lemma info_field_stored:
  "info_field b58 C (DocumentWithoutSerialization doc flags) dt owner =
     (\<lambda>k. rmap KeyOwned (document_field_or_empty b58 C doc dt owner k))"
  by (rule ext) (auto simp: info_field_def document_field_or_empty_def raw_key_def rmap_def drive_key_info_default_def
      split: sum.splits option.splits)


section \<open>Deletion\<close>

text \<open>The key a deletion is asked to delete in an index: it does not look at empty values.\<close>

definition delete_location :: "path \<Rightarrow> index \<Rightarrow> bytes list \<Rightarrow> bytes \<Rightarrow> path \<times> bytes" where
  "delete_location q ix vs document_id =
     (let p = q @ interleave_path (index_properties ix) vs in if \<not> unique ix then (p @ [[0]], document_id) else (p, [0]))"

lemma delete_location_entry: "\<not> (unique ix \<and> [] \<in> set vs) \<Longrightarrow> delete_location q ix vs i = entry_location q ix vs i"
  by (auto simp: delete_location_def entry_location_def Let_def)

lemma delete_location_path:
  "\<exists>rest. fst (delete_location q ix vs i) @ [snd (delete_location q ix vs i)] = q @ interleave_path (index_properties ix) vs @ [0] # rest"
  by (simp add: delete_location_def Let_def)

lemma delete_index_path_known:
  "delete_index_path (\<lambda>k. rmap KeyOwned (g k)) ps = Inr path \<longleftrightarrow>
     (\<exists>vs. mapM (\<lambda>p. g (property_name p)) ps = Inr vs \<and> path = map KeyOwned (interleave_path ps vs))"
proof (induction ps arbitrary: path)
  case Nil
  then show ?case by (simp add: delete_index_path_def eq_commute)
next
  case (Cons p ps)
  show ?case
  proof (cases "g (property_name p)")
    case (Inr v)
    have "delete_index_path (\<lambda>k. rmap KeyOwned (g k)) (p # ps) = Inr path \<longleftrightarrow>
        (\<exists>path'. delete_index_path (\<lambda>k. rmap KeyOwned (g k)) ps = Inr path' \<and>
           path = KeyOwned (string_bytes (property_name p)) # KeyOwned v # path')"
      by (auto simp: delete_index_path_def Inr rmap_eq_Inr rbind_eq_Inr)
    then show ?thesis by (auto simp: Cons.IH Inr rbind_eq_Inr)
  qed (simp add: delete_index_path_def)
qed

lemma known_keys [simp]: "mapM known_key (map KeyOwned p) = Inr p"
  by (induction p) simp_all

definition index_deletes :: "'db grovedb \<Rightarrow> 'db \<Rightarrow> path \<Rightarrow> bytes \<Rightarrow> bytes list \<Rightarrow> index \<Rightarrow> batch \<Rightarrow> bool" where
  "index_deletes G db q document_id vs ix os \<longleftrightarrow>
     index_properties ix \<noteq> [] \<and> length vs = length (index_properties ix) \<and>
     (\<forall>o' \<in> set os. prefix (op_full_path o') (fst (delete_location q ix vs document_id) @ [snd (delete_location q ix vs document_id)])) \<and>
     ((\<exists>r n f. gdb_get_raw G db (fst (delete_location q ix vs document_id)) (snd (delete_location q ix vs document_id)) = Inr (Reference r n f)) \<longrightarrow>
        last_write os (fst (delete_location q ix vs document_id)) (snd (delete_location q ix vs document_id)) = Some Delete)"

lemma index_deletes_path:
  assumes "index_deletes G db q document_id vs ix os" "o' \<in> set os"
  shows "\<exists>rest. prefix (op_full_path o') (q @ interleave_path (index_properties ix) vs @ [0] # rest)"
proof -
  obtain rest where rest: "fst (delete_location q ix vs document_id) @ [snd (delete_location q ix vs document_id)] =
      q @ interleave_path (index_properties ix) vs @ [0] # rest" using delete_location_path by blast
  have "prefix (op_full_path o') (fst (delete_location q ix vs document_id) @ [snd (delete_location q ix vs document_id)])"
    using assms unfolding index_deletes_def by blast
  then show ?thesis unfolding rest by blast
qed

lemma delete_reference_known:
  assumes G: "grove_contract (grove d)" and q: "4 \<le> length q"
    and "delete_reference d db q document_id (\<lambda>k. rmap KeyOwned (g k)) True ops ix = Inr ops'"
  shows "\<exists>vs os. mapM (\<lambda>p. g (property_name p)) (index_properties ix) = Inr vs \<and> batch_of ops' = batch_of ops @ os \<and>
    index_deletes (grove d) db q document_id vs ix os"
proof -
  have ne: "index_properties ix \<noteq> []" using assms(3) by (auto simp: delete_reference_def)
  then obtain path where path: "delete_index_path (\<lambda>k. rmap KeyOwned (g k)) (index_properties ix) = Inr path"
    and run: "(if \<not> unique ix
       then batch_delete_up_tree_while_empty d db ((map KeyOwned q @ path) @ [KeyOwned [0]]) document_id (Some CONTRACT_DOCUMENTS_PATH_HEIGHT) True ops
       else batch_delete_up_tree_while_empty d db (map KeyOwned q @ path) [0] (Some CONTRACT_DOCUMENTS_PATH_HEIGHT) True ops) = Inr ops'"
    using assms(3) unfolding delete_reference_def Let_def if_not_P[OF ne] rbind_eq_Inr by blast
  obtain vs where vs: "mapM (\<lambda>p. g (property_name p)) (index_properties ix) = Inr vs"
    and p: "path = map KeyOwned (interleave_path (index_properties ix) vs)"
    using path delete_index_path_known by blast
  have del: "batch_delete_up_tree_while_empty d db (map KeyOwned (fst (delete_location q ix vs document_id)))
        (snd (delete_location q ix vs document_id)) (Some CONTRACT_DOCUMENTS_PATH_HEIGHT) True ops = Inr ops'"
    using run by (simp add: p delete_location_def Let_def split: if_splits)
  let ?p = "fst (delete_location q ix vs document_id)" and ?k = "snd (delete_location q ix vs document_id)"
  obtain r c where r: "gdb_delete_up_tree (grove d) db ?p ?k (Some CONTRACT_DOCUMENTS_PATH_HEIGHT) (batch_of ops) = (Inr r, c)"
    "ops' = (ops @ [CalculatedCostOperation c]) @ (case r of Some os \<Rightarrow> map GroveOperation os | None \<Rightarrow> [])"
    using del by (auto simp: batch_delete_up_tree_while_empty_def rbind_eq_Inr push_result_eq_Inr prod_eq_iff split: option.splits)
  let ?os = "case r of Some os \<Rightarrow> os | None \<Rightarrow> []"
  have map_ops: "batch_of (map GroveOperation os) = os" for os by (induction os) simp_all
  have "batch_of ops' = batch_of ops @ ?os" unfolding r(2) by (cases r) (simp_all add: map_ops)
  moreover have len: "length vs = length (index_properties ix)" using mapM_length[OF vs] .
  have "unat CONTRACT_DOCUMENTS_PATH_HEIGHT < length ?p"
    using q ne len by (cases "index_properties ix"; cases vs) (auto simp: delete_location_def Let_def CONTRACT_DOCUMENTS_PATH_HEIGHT_def)
  note entry = grove_contract.delete_up_tree_entry[OF G r(1) _ this]
  have "index_deletes (grove d) db q document_id vs ix ?os"
    unfolding index_deletes_def
  proof (intro conjI ballI impI ne len)
    show "prefix (op_full_path o') (?p @ [?k])" if "o' \<in> set ?os" for o'
      using that r(1) grove_contract.delete_up_tree[OF G] by (fastforce simp: op_full_path_def split: option.splits)
    show "last_write ?os ?p ?k = Some Delete" if "\<exists>t n f. gdb_get_raw (grove d) db ?p ?k = Inr (Reference t n f)"
      using that entry by auto
  qed
  ultimately show ?thesis using vs by blast
qed

lemma delete_references_known:
  assumes "grove_contract (grove d)" "4 \<le> length q"
    and "foldM (delete_reference d db q document_id (\<lambda>k. rmap KeyOwned (g k)) True) ops ixs = Inr ops'"
  shows "\<exists>oss. batch_of ops' = batch_of ops @ concat oss \<and>
    list_all2 (\<lambda>ix os. \<exists>vs. mapM (\<lambda>p. g (property_name p)) (index_properties ix) = Inr vs \<and>
       index_deletes (grove d) db q document_id vs ix os) ixs oss"
  using assms(3)
proof (induction ixs arbitrary: ops)
  case Nil
  then show ?case by simp
next
  case (Cons ix ixs)
  obtain ops1 where 1: "delete_reference d db q document_id (\<lambda>k. rmap KeyOwned (g k)) True ops ix = Inr ops1"
    "foldM (delete_reference d db q document_id (\<lambda>k. rmap KeyOwned (g k)) True) ops1 ixs = Inr ops'"
    using Cons.prems by (auto simp: rbind_eq_Inr)
  obtain vs os where "mapM (\<lambda>p. g (property_name p)) (index_properties ix) = Inr vs" "batch_of ops1 = batch_of ops @ os"
    "index_deletes (grove d) db q document_id vs ix os"
    using delete_reference_known[OF assms(1,2) 1(1)] by blast
  moreover obtain oss where "batch_of ops' = batch_of ops1 @ concat oss"
    "list_all2 (\<lambda>ix os. \<exists>vs. mapM (\<lambda>p. g (property_name p)) (index_properties ix) = Inr vs \<and>
       index_deletes (grove d) db q document_id vs ix os) ixs oss"
    using Cons.IH[OF 1(2)] by blast
  ultimately show ?case by (intro exI[of _ "os # oss"]) auto
qed

lemma deletes_last_write:
  assumes dt: "indexes_named dt"
    and oss: "list_all2 (\<lambda>ix os. \<exists>vs. index_values b58 C doc dt owner ix = Inr vs \<and> index_deletes G db q document_id vs ix os) (indices dt) oss"
    and ix: "ix \<in> set (indices dt)" "index_values b58 C doc dt owner ix = Inr vs"
    and stored: "gdb_get_raw G db (fst (delete_location q ix vs document_id)) (snd (delete_location q ix vs document_id)) = Inr (Reference r n f)"
  shows "last_write (concat oss) (fst (delete_location q ix vs document_id)) (snd (delete_location q ix vs document_id)) = Some Delete"
proof -
  let ?p = "fst (delete_location q ix vs document_id)" and ?k = "snd (delete_location q ix vs document_id)"
  let ?R = "\<lambda>ix os. \<exists>vs. index_values b58 C doc dt owner ix = Inr vs \<and> index_deletes G db q document_id vs ix os"
  obtain before after where split: "indices dt = before @ ix # after" using ix(1) by (meson split_list)
  obtain xs os ys where oss': "oss = xs @ os # ys" "?R ix os" "list_all2 ?R after ys"
    using oss unfolding split by (auto simp: list_all2_append1 list_all2_Cons1)
  have own: "last_write os ?p ?k = Some Delete" using oss'(2) ix(2) stored by (auto simp: index_deletes_def)
  have "\<not> writes ?p ?k o'" if o': "o' \<in> set (concat ys)" for o'
  proof
    assume w: "writes ?p ?k o'"
    obtain os' where "os' \<in> set ys" "o' \<in> set os'" using o' by auto
    then obtain ix' vs' where ix': "ix' \<in> set after" "index_values b58 C doc dt owner ix' = Inr vs'" "index_deletes G db q document_id vs' ix' os'"
      using list_all2_right[OF oss'(3)] by blast
    obtain rest where "prefix (op_full_path o') (q @ interleave_path (index_properties ix') vs' @ [0] # rest)"
      using index_deletes_path[OF ix'(3) \<open>o' \<in> set os'\<close>] by blast
    moreover have "prefix (q @ interleave_path (index_properties ix) vs @ [[0]]) (op_full_path o')"
      using w by (simp add: writes_def op_full_path_def delete_location_def Let_def)
    moreover have "ix' \<in> set (indices dt)" using ix'(1) split by simp
    ultimately have "property_names (index_properties ix) = property_names (index_properties ix')"
      using paths_apart[OF dt ix(1) _ index_values_length[OF ix(2)] index_values_length[OF ix'(2)]] by blast
    moreover have "distinct (map (\<lambda>ix. property_names (index_properties ix)) (before @ ix # after))"
      using dt by (simp add: indexes_named_def split)
    ultimately show False using ix'(1) by auto
  qed
  then have "last_write (concat ys) ?p ?k = None" by (simp add: last_write_None)
  with own show ?thesis by (simp add: oss'(1) last_write_append)
qed

lemma deleted_batch:
  assumes G: "grove_contract (grove d)" and dt: "document_type_for_name contract name = Inr dt"
    and stored: "gdb_get (grove d) db (contract_documents_primary_key_path (contract_id contract) name) document_id = Inr (Item bs f)"
    and doc: "document_from_cbor cbor_decode b58 bs None owner = Inr doc"
    and bops: "delete_document_for_contract_operations cbor_decode b58 C d db document_id contract name owner True = Inr bops"
  obtains oss where
    "list_all2 (\<lambda>ix os. \<exists>vs. index_values b58 C doc dt owner ix = Inr vs \<and>
       index_deletes (grove d) db (contract_document_type_path (contract_id contract) name) document_id vs ix os) (indices dt) oss"
    "batch_of bops = \<lparr>op_path = contract_documents_primary_key_path (contract_id contract) name, op_key = document_id,
        op_op = Delete, op_mode = RunOp\<rparr> # concat oss"
proof -
  let ?p = "contract_documents_primary_key_path (contract_id contract) name" and ?q = "contract_document_type_path (contract_id contract) name"
  let ?g = "document_field_or_empty b58 C doc dt owner"
  obtain c ops1 where prim: "batch_delete d db ?p document_id True True [CalculatedCostOperation c] = Inr ops1"
    and refs: "foldM (delete_reference d db ?q document_id (\<lambda>k. rmap KeyOwned (?g k)) True) ops1 (indices dt) = Inr bops"
    using bops dt stored doc
    by (auto simp: delete_document_for_contract_operations_def rbind_eq_Inr Let_def stateless_size_def grove_get_direct_def
        deleted_document_info_def info_field_stored split: if_splits)
  have "batch_of ops1 = [\<lparr>op_path = ?p, op_key = document_id, op_op = Delete, op_mode = RunOp\<rparr>]"
    using prim grove_contract.delete_operation[OF G _ stored]
    by (fastforce simp: batch_delete_def rbind_eq_Inr push_result_eq_Inr prod_eq_iff)
  moreover have "4 \<le> length ?q" by (simp add: contract_document_type_path_def)
  ultimately show thesis
    using delete_references_known[OF G _ refs] that by (auto simp: index_values_def)
qed

lemma deleted_elsewhere:
  assumes "indexes_named dt"
    and oss: "list_all2 (\<lambda>ix os. \<exists>vs. index_values b58 C doc dt owner ix = Inr vs \<and>
       index_deletes G db (contract_document_type_path i name) document_id vs ix os) (indices dt) oss"
    and o': "o' \<in> set (concat oss)"
  shows "\<not> writes (contract_documents_primary_key_path i name) k o'"
proof -
  let ?q = "contract_document_type_path i name"
  obtain os' where "os' \<in> set oss" "o' \<in> set os'" using o' by auto
  then obtain ix' vs' where ix': "ix' \<in> set (indices dt)" "index_deletes G db ?q document_id vs' ix' os'"
    using list_all2_right[OF oss] by blast
  obtain rest where "prefix (op_full_path o') (?q @ interleave_path (index_properties ix') vs' @ [0] # rest)"
    using index_deletes_path[OF ix'(2) \<open>o' \<in> set os'\<close>] by blast
  from path_not_primary[OF assms(1) ix'(1) _ _ this] ix'(2) show ?thesis
    by (auto simp: index_deletes_def writes_def op_full_path_def contract_document_type_path_def contract_documents_primary_key_path_def)
qed

text \<open>C10: what an insertion stored is gone after the deletion of the document: neither the document nor any reference to it in
  an index is found, provided it has no empty value in a unique index.\<close>

theorem inserted_document_deleted:
  assumes "grove_contract (grove d)" "batching_enabled (config d)" "indexes_named (info_document_type i)"
    and "document_info i = DocumentRefAndSerialization doc bs flags" "\<not> documents_keep_history (info_document_type i)"
    and "add_document_for_contract cbor_decode b58 C d db i False block True = Inr (db', fee)"
    and "document_type_for_name (info_contract i) (type_name (info_document_type i)) = Inr (info_document_type i)"
    and "document_from_cbor cbor_decode b58 bs None (info_owner_id i) = Inr doc"
    and "\<forall>ix \<in> set (indices (info_document_type i)). unique ix \<longrightarrow>
      (\<forall>vs. index_values b58 C doc (info_document_type i) (info_owner_id i) ix = Inr vs \<longrightarrow> [] \<notin> set vs)"
    and "delete_document_for_contract cbor_decode b58 C d db' (doc_id doc) (info_contract i) (type_name (info_document_type i))
      (info_owner_id i) block' True = Inr (db'', fee')"
  shows "(\<exists>err. gdb_get (grove d) db'' (info_primary_path i) (doc_id doc) = Inl err \<and> not_found err) \<and>
    (\<forall>ix \<in> set (indices (info_document_type i)). \<forall>vs. index_values b58 C doc (info_document_type i) (info_owner_id i) ix = Inr vs \<longrightarrow>
       (\<exists>err. gdb_get (grove d) db'' (fst (entry_location (info_type_path i) ix vs (doc_id doc)))
          (snd (entry_location (info_type_path i) ix vs (doc_id doc))) = Inl err \<and> not_found err))"
proof -
  let ?dt = "info_document_type i" and ?owner = "info_owner_id i" and ?q = "info_type_path i" and ?p = "info_primary_path i"
  let ?o = "\<lparr>op_path = ?p, op_key = doc_id doc, op_op = Delete, op_mode = RunOp\<rparr>"
  note stored = inserted_document_stored[OF assms(1,2,4-6,3)]
  obtain f where prim: "gdb_get (grove d) db' ?p (doc_id doc) = Inr (Item bs f)"
    using stored(1) grove_contract.get_stored[OF assms(1)] by fastforce
  obtain bops ops' where bops: "delete_document_for_contract_operations cbor_decode b58 C d db' (doc_id doc) (info_contract i)
      (type_name ?dt) ?owner True = Inr bops" and run: "apply_batch_drive_operations d db' True bops [] = Inr (db'', ops')"
    using assms(10) by (auto simp: delete_document_for_contract_def delete_document_for_contract_apply_and_add_to_operations_def rbind_eq_Inr)
  obtain oss where oss: "list_all2 (\<lambda>ix os. \<exists>vs. index_values b58 C doc ?dt ?owner ix = Inr vs \<and>
       index_deletes (grove d) db' ?q (doc_id doc) vs ix os) (indices ?dt) oss" and b: "batch_of bops = ?o # concat oss"
    by (rule deleted_batch[OF assms(1,7) prim assms(8) bops])
  have ap: "grove_apply_batch d db' (?o # concat oss) False = Inr db''" using applied_drive_batch[OF run assms(2)] b by simp
  have "last_write (concat oss) ?p (doc_id doc) = None"
    using deleted_elsewhere[OF assms(3) oss] by (simp add: last_write_None)
  then have "last_write ([?o] @ concat oss) ?p (doc_id doc) = Some Delete" unfolding last_write_append by (simp add: writes_def)
  then have 1: "\<exists>err. gdb_get (grove d) db'' ?p (doc_id doc) = Inl err \<and> not_found err"
    using grove_apply_batch_batched[OF ap assms(2)] grove_contract.apply_delete[OF assms(1)] by fastforce
  have 2: "\<exists>err. gdb_get (grove d) db'' (fst (entry_location ?q ix vs (doc_id doc))) (snd (entry_location ?q ix vs (doc_id doc))) = Inl err \<and> not_found err"
    if ix: "ix \<in> set (indices ?dt)" and vs: "index_values b58 C doc ?dt ?owner ix = Inr vs" for ix vs
  proof -
    have loc: "delete_location ?q ix vs (doc_id doc) = entry_location ?q ix vs (doc_id doc)"
      using assms(9) ix vs by (intro delete_location_entry) blast
    obtain g where "gdb_get_raw (grove d) db' (fst (delete_location ?q ix vs (doc_id doc))) (snd (delete_location ?q ix vs (doc_id doc))) =
        Inr (Reference (UpstreamRootHeightReference 4 [[0], doc_id doc]) (Some 1) g)"
      using stored(2)[OF ix] vs loc by auto
    from deletes_last_write[OF assms(3) oss ix vs this]
    have "last_write ([?o] @ concat oss) (fst (entry_location ?q ix vs (doc_id doc))) (snd (entry_location ?q ix vs (doc_id doc))) = Some Delete"
      unfolding last_write_append loc by simp
    then show ?thesis using grove_apply_batch_batched[OF ap assms(2)] grove_contract.apply_delete[OF assms(1)] by fastforce
  qed
  from 1 2 show ?thesis by blast
qed


section \<open>Examples\<close>

definition account_index :: "string list \<Rightarrow> bool \<Rightarrow> index" where
  "account_index names uniq = \<lparr>index_properties = map (\<lambda>f. \<lparr>property_name = f, ascending = True\<rparr>) names, unique = uniq\<rparr>"

definition account_type :: "index list \<Rightarrow> document_type" where
  "account_type ixs = \<lparr>type_name = ''account'', indices = ixs,
     properties = map (\<lambda>f. (f, DocumentField FInteger False)) [''a'', ''b''],
     required_fields = {}, documents_keep_history = False, documents_mutable = True\<rparr>"

definition account_contract :: "index list \<Rightarrow> json data_contract" where
  "account_contract ixs = visit_contract\<lparr>document_types := [(''account'', account_type ixs)]\<rparr>"

text \<open>The documents are those a decoder of constant maps reads.\<close>

definition account :: "u8 \<Rightarrow> (string, cbor) btree \<Rightarrow> document" where
  "account n props = \<lparr>doc_id = replicate 32 n, doc_properties = props, doc_owner_id = replicate 32 8\<rparr>"

definition account_decode :: "u8 \<Rightarrow> (string, cbor) btree \<Rightarrow> bytes \<Rightarrow> (string, cbor) btree option" where
  "account_decode n props bs = Some ((''$id'', CBytes (replicate 32 n)) # props)"

definition account_info :: "index list \<Rightarrow> u8 \<Rightarrow> (string, cbor) btree \<Rightarrow> json document_and_contract_info" where
  "account_info ixs n props = \<lparr>document_info = DocumentRefAndSerialization (account n props) [0, 0, 0, 1] None,
     info_contract = account_contract ixs, info_document_type = account_type ixs, info_owner_id = Some (replicate 32 8)\<rparr>"

definition some_block :: storage_block_info where
  "some_block = \<lparr>time_ms = 0, height = 0, block_epoch = epoch_at 0\<rparr>"

lemma free_fee:
  assumes "set ops \<subseteq> {CalculatedCostOperation no_cost}"
  shows "drive_fee reference_drive ops block = Inr fee_result_default"
proof -
  have one: "operation_fee (\<lambda>_. 0) e (CalculatedCostOperation no_cost) = Inr fee_result_default" for e
    by (simp add: operation_fee_def storage_fee_of_cost_def ephemeral_cost_def byte_cost_def no_cost_def checked_mul_def
        checked_add_def and_then_def split_removed_def fee_result_default_def)
  have add: "checked_add_assign reference_int_map_insert reference_int_map_remove fee_result_default fee_result_default = Inr fee_result_default"
    by (simp add: checked_add_assign_def fee_result_default_def checked_add_def removed_bytes_checked_add_assign_def)
  have "mapM (operation_fee (\<lambda>_. 0) (block_epoch block)) ops = Inr (map (\<lambda>_. fee_result_default) ops)"
    using assms by (induction ops) (auto simp: one)
  moreover have "foldM (checked_add_assign reference_int_map_insert reference_int_map_remove) fee_result_default
      (map (\<lambda>_. fee_result_default) ops) = Inr fee_result_default"
    by (induction ops) (simp_all add: add)
  ultimately show ?thesis by (simp add: drive_fee_def calculate_fee_def consume_to_fees_def reference_drive_def)
qed

lemma account_field:
  assumes "- (2 ^ 63) \<le> v" "v < 2 ^ 63"
  shows "document_field_or_empty no_base58 reference_codecs (account n ((''a'', CInteger v) # props)) (account_type ixs) owner ''a'' =
      Inr (encode_signed_integer (word_of_int v))"
    and "document_field_or_empty no_base58 reference_codecs (account n [(''b'', CInteger v)]) (account_type ixs) owner ''b'' =
      Inr (encode_signed_integer (word_of_int v))"
  using assms length_encodings(1)[of "word_of_int v"]
  by (simp_all add: document_field_or_empty_def get_raw_for_document_type_def account_def account_type_def bt_get_def rmap_def
      serialize_value_for_key_def encode_value_for_tree_keys_def integer_value_def int_to_i64_def MAX_INDEX_SIZE_def)

lemma account_no_field:
  "document_field_or_empty no_base58 reference_codecs (account n [(''b'', w)]) (account_type ixs) owner ''a'' = Inr []"
  "document_field_or_empty no_base58 reference_codecs (account n [(''a'', w)]) (account_type ixs) owner ''b'' = Inr []"
  by (simp_all add: document_field_or_empty_def get_raw_for_document_type_def account_def bt_get_def)

text \<open>How the reference drive answers.\<close>

lemma reference_has_raw [simp]:
  "grove_has_raw reference_drive db p k None ops = Inr (map_of db (p, k) \<noteq> None, ops @ [CalculatedCostOperation no_cost])"
  by (simp add: grove_has_raw_def push_drive_operation_result_def reference_drive_def reference_grove_def drive_config_default_def)

lemma reference_apply [simp]:
  "batch_of bops \<noteq> [] \<Longrightarrow> apply_batch_drive_operations reference_drive db True bops ops =
     Inr (foldl store_write db (batch_of bops), (ops @ [CalculatedCostOperation no_cost]) @ filter (\<lambda>o'. \<not> is_grove_operation o') bops)"
  by (simp add: apply_batch_drive_operations_def apply_batch_grovedb_operations_def grove_apply_batch_with_add_costs_def
      push_drive_operation_result_def reference_drive_def reference_grove_def drive_config_default_def)

lemma doc_id_account [simp]: "doc_id (account n props) = replicate 32 n"
  by (simp add: account_def)

lemma account_type_simps [simp]:
  "indices (account_type ixs) = ixs" "documents_keep_history (account_type ixs) = False" "documents_mutable (account_type ixs) = True"
  "type_name (account_type ixs) = ''account''"
  by (simp_all add: account_type_def)

lemma account_info_simps [simp]:
  "document_info (account_info ixs n props) = DocumentRefAndSerialization (account n props) [0, 0, 0, 1] None"
  "info_contract (account_info ixs n props) = account_contract ixs" "info_document_type (account_info ixs n props) = account_type ixs"
  "info_owner_id (account_info ixs n props) = Some (replicate 32 8)"
  by (simp_all add: account_info_def)

lemma account_index_simps [simp]:
  "index_properties (account_index names uniq) = map (\<lambda>f. \<lparr>property_name = f, ascending = True\<rparr>) names"
  "unique (account_index names uniq) = uniq"
  by (simp_all add: account_index_def)

lemmas insert_eval = add_document_for_contract_operations_def insert_document_operations_def Let_def
  add_document_to_primary_storage_def primary_item_def stateless_size_def batch_insert_known_def insert_indices_def
  insert_index_def info_field_known insert_tree_once_def batch_empty_tree_known_def insert_index_level_def insert_reference_def

lemmas insert_run_eval = insert_eval add_document_for_contract_def add_document_for_contract_apply_and_add_to_operations_def
  for_empty_tree_def for_path_key_element_def free_fee

abbreviation account_field_of :: "index list \<Rightarrow> u8 \<Rightarrow> (string, cbor) btree \<Rightarrow> string \<Rightarrow> error + bytes" where
  "account_field_of ixs n props \<equiv>
     document_field_or_empty no_base58 reference_codecs (account n props) (account_type ixs) (Some (replicate 32 8))"

definition two_indexes :: "index list" where
  "two_indexes = [account_index [''a''] True, account_index [''a'', ''b''] False]"

definition one_index :: "index list" where
  "one_index = [account_index [''a''] True]"

definition pair_index :: "index list" where
  "pair_index = [account_index [''a'', ''b''] True]"

abbreviation insert_account :: "store \<Rightarrow> index list \<Rightarrow> u8 \<Rightarrow> (string, cbor) btree \<Rightarrow> error + (store \<times> fee_result)" where
  "insert_account db ixs n props \<equiv> add_document_for_contract (account_decode n props) no_base58 reference_codecs reference_drive db
     (account_info ixs n props) False some_block True"

lemma store_insert [simp]: "store_write st (insert_run_op p k e) = ((p, k), e) # st"
  by (simp add: store_write_def insert_run_op_def)

lemma account_keys:
  "encode_signed_integer 1 \<noteq> encode_signed_integer 2" "encode_signed_integer 1 \<noteq> []" "encode_signed_integer 2 \<noteq> []"
  by (simp_all add: encode_signed_integer_def flip_sign_bit_def u64_to_be_def be_bytes_eval)

lemma account_inserted:
  "\<exists>db'. insert_account [] two_indexes 1 [(''a'', CInteger 1)] = Inr (db', fee_result_default)"
  "\<exists>db'. insert_account [] pair_index 1 [(''b'', CInteger 1)] = Inr (db', fee_result_default)"
  by (simp_all add: insert_run_eval two_indexes_def pair_index_def account_field account_no_field account_keys)

definition account_store :: store where
  "account_store = (let i = account_info one_index 1 [(''a'', CInteger 1)]; p = info_type_path i @ [string_bytes ''a'']
     in [((p @ [encode_signed_integer 1], [0]), make_document_reference (varint reference_drive) (account 1 [(''a'', CInteger 1)]) (account_type one_index) None),
         ((p, encode_signed_integer 1), empty_tree),
         ((info_primary_path i, replicate 32 1), Item [0, 0, 0, 1] None)])"

lemma account_lookup:
  "map_of account_store (contract_documents_primary_key_path (contract_id (account_contract one_index)) ''account'', replicate 32 2) = None"
  "map_of account_store (contract_document_type_path (contract_id (account_contract one_index)) ''account'' @ [string_bytes ''a''],
     encode_signed_integer 2) = None"
  "map_of account_store (contract_document_type_path (contract_id (account_contract one_index)) ''account'' @
     [string_bytes ''a'', encode_signed_integer 2], [0]) = None"
  using account_keys account_keys(1)[symmetric]
  by (simp_all add: account_store_def Let_def contract_document_type_path_def contract_documents_primary_key_path_def string_bytes_def)

lemma one_account_inserted:
  "insert_account [] one_index 1 [(''a'', CInteger 1)] = Inr (account_store, fee_result_default)"
  by (simp add: insert_run_eval one_index_def account_field account_keys account_store_def map_to_some_element_flags_def)

lemma second_account_inserted:
  "\<exists>db''. add_document_for_contract (account_decode 1 [(''a'', CInteger 1)]) no_base58 reference_codecs reference_drive account_store
     (account_info one_index 2 [(''a'', CInteger 2)]) False some_block True = Inr (db'', fee_result_default)"
  using account_lookup by (simp add: insert_run_eval one_index_def account_field account_keys)

lemma accounts_named: "indexes_named (account_type two_indexes)" "indexes_named (account_type pair_index)" "indexes_named (account_type one_index)"
  by (auto simp: indexes_named_def one_index_def two_indexes_def pair_index_def property_names_def string_bytes_def)

lemma account_decoded:
  "document_from_cbor (account_decode n [(f, v)]) no_base58 [0, 0, 0, m] None (info_owner_id (account_info ixs n props)) = Inr (account n [(f, v)])"
  if "f \<noteq> ''$id''"
  using that
  by (simp add: document_from_cbor_def decode_versioned_def account_decode_def check_protocol_version_bytes_def take_system_id_def
      bytes_for_system_value_from_tree_map_def bytes_for_system_value_def bt_get_def bt_remove_def account_def)

lemma reference_batching: "batching_enabled (config reference_drive)"
  by (simp add: reference_drive_def drive_config_default_def)

lemmas reference_facts = reference_drive_contract reference_batching

theorem document_inserted_witness:
  "\<exists>db' fee. insert_account [] two_indexes 1 [(''a'', CInteger 1)] = Inr (db', fee) \<and>
    (\<exists>f. gdb_get (grove reference_drive) db' (info_primary_path (account_info two_indexes 1 [(''a'', CInteger 1)])) (replicate 32 1) =
       Inr (Item [0, 0, 0, 1] f))"
proof -
  let ?i = "account_info two_indexes 1 [(''a'', CInteger 1)]"
  obtain db' where r: "insert_account [] two_indexes 1 [(''a'', CInteger 1)] = Inr (db', fee_result_default)"
    using account_inserted(1) by blast
  from document_inserted[OF reference_facts _ _ _ r] r accounts_named show ?thesis by (simp add: account_def)
qed

theorem unique_indexes_enforced_witness:
  "\<exists>db' fee. add_document_for_contract (account_decode 1 [(''a'', CInteger 1)]) no_base58 reference_codecs reference_drive account_store
      (account_info one_index 2 [(''a'', CInteger 2)]) False some_block True = Inr (db', fee) \<and>
    doc_id (account 2 [(''a'', CInteger 2)]) \<noteq> doc_id (account 1 [(''a'', CInteger 1)])"
proof -
  obtain db'' where r': "add_document_for_contract (account_decode 1 [(''a'', CInteger 1)]) no_base58 reference_codecs reference_drive account_store
      (account_info one_index 2 [(''a'', CInteger 2)]) False some_block True = Inr (db'', fee_result_default)"
    using second_account_inserted by blast
  from unique_indexes_enforced[OF reference_facts _ _ _ one_account_inserted _ _ _ r'] r' accounts_named show ?thesis by auto
qed


definition account_query :: "index list \<Rightarrow> int \<Rightarrow> json drive_query" where
  "account_query ixs v = (visit_query [visit_clause ''a'' Equal v] None [] (account_contract ixs))\<lparr>dq_document_type := account_type ixs\<rparr>"

lemma account_query_index:
  "find_best_index (account_query one_index 1) = Inr (account_index [''a''] True)"
  "find_best_index (account_query pair_index 1) = Inr (account_index [''a'', ''b''] True)"
  by (simp_all add: find_best_index_def account_query_def visit_query_def query_fields_def visit_clause_def add_order_field_def
      index_for_types_def matches_def in_field_allowed_def MAX_INDEX_DIFFERENCE_def one_index_def pair_index_def)

lemma account_key:
  "serialize_value_for_key no_base58 reference_codecs (account_type ixs) ''a'' (CInteger 1) = Inr (encode_signed_integer 1)"
  using length_encodings(1)[of 1]
  by (simp add: serialize_value_for_key_def account_type_def bt_get_def encode_value_for_tree_keys_def integer_value_def
      int_to_i64_def MAX_INDEX_SIZE_def)

lemma account_query_fits:
  "clauses_fit (dq_clauses (account_query ixs 1)) [\<lparr>property_name = ''a'', ascending = True\<rparr>] []"
  "clauses_fit (dq_clauses (account_query ixs 1)) [\<lparr>property_name = ''a'', ascending = True\<rparr>] [\<lparr>property_name = ''b'', ascending = True\<rparr>]"
  "range_clauses (dq_clauses (account_query ixs 1)) = []" "dq_document_type (account_query ixs 1) = account_type ixs"
  by (simp_all add: account_query_def clauses_fit_def property_names_def visit_query_def equal_clause_for_def bt_get_def visit_clause_def range_clauses_def)

lemma account_path_query:
  "\<exists>pq. get_non_primary_key_path_query no_base58 reference_codecs (account_query one_index 1) p None = Inr pq"
  "\<exists>pq. get_non_primary_key_path_query no_base58 reference_codecs (account_query pair_index 1) p None = Inr pq"
  unfolding get_non_primary_key_path_query_def account_query_index
  by (simp_all add: account_key intermediate_values_def intermediate_clauses_def
        last_clause_of_def left_over_properties_def account_query_def visit_query_def visit_clause_def equal_clause_for_def bt_get_def
        List.map_filter_simps on_field_def final_query_def last_clause_query_def is_range_def order_for_range_def
        to_path_query_def starts_at_key_def clause_items_def clause_key_def find_property_def Let_def rmap_def)



lemma reference_get_direct [simp]:
  "grove_get_direct reference_drive db p (KeyRefRequest k) None ops =
     rbind (map_err GroveDB (store_get db p k)) (\<lambda>e. Inr (Some e, ops @ [CalculatedCostOperation no_cost]))"
  by (simp add: grove_get_direct_def reference_drive_def reference_grove_def)

lemma reference_delete [simp]:
  "batch_delete reference_drive db p k b True ops = Inr ((ops @ [CalculatedCostOperation no_cost]) @
     [GroveOperation \<lparr>op_path = p, op_key = k, op_op = Delete, op_mode = RunOp\<rparr>])"
  by (simp add: batch_delete_def push_drive_operation_result_def reference_drive_def reference_grove_def)

lemma reference_delete_up_tree [simp]:
  "batch_delete_up_tree_while_empty reference_drive db (map KeyOwned p) k (Some h) True ops = Inr ((ops @ [CalculatedCostOperation no_cost]) @
     [GroveOperation \<lparr>op_path = p, op_key = k, op_op = Delete, op_mode = RunOp\<rparr>])"
  by (simp add: batch_delete_up_tree_while_empty_def push_drive_operation_result_def reference_drive_def reference_grove_def)

lemma account_type_found: "document_type_for_name (account_contract ixs) ''account'' = Inr (account_type ixs)"
  by (simp add: document_type_for_name_def account_contract_def bt_get_def)

lemma account_deleted:
  "\<exists>db'. delete_document_for_contract (account_decode 1 [(''a'', CInteger 1)]) no_base58 reference_codecs reference_drive account_store
     (replicate 32 1) (account_contract one_index) ''account'' (Some (replicate 32 8)) some_block True = Inr (db', fee_result_default)"
proof -
  let ?q = "contract_document_type_path (contract_id (account_contract one_index)) ''account''"
  let ?p = "contract_documents_primary_key_path (contract_id (account_contract one_index)) ''account''"
  have get: "store_get account_store ?p (replicate 32 1) = Inr (Item [0, 0, 0, 1] None)"
    by (simp add: store_get_def store_follow_def account_store_def Let_def contract_document_type_path_def
        contract_documents_primary_key_path_def string_bytes_def)
  have doc: "document_from_cbor (account_decode 1 [(''a'', CInteger 1)]) no_base58 [0, 0, 0, 1] None (Some (replicate 32 8)) =
      Inr (account 1 [(''a'', CInteger 1)])"
    using account_decoded[of "''a''" 1 "CInteger 1" 1 one_index "[]"] by simp
  have "delete_reference reference_drive account_store ?q (replicate 32 1)
      (info_field no_base58 reference_codecs (DocumentWithoutSerialization (account 1 [(''a'', CInteger 1)]) None) (account_type one_index)
        (Some (replicate 32 8))) True ops (account_index [''a''] True) =
      Inr ((ops @ [CalculatedCostOperation no_cost]) @ [GroveOperation \<lparr>op_path = ?q @ [string_bytes ''a'', encode_signed_integer 1],
        op_key = [0], op_op = Delete, op_mode = RunOp\<rparr>])" for ops
    using reference_delete_up_tree[of account_store "?q @ [string_bytes ''a'', encode_signed_integer 1]" "[0]"]
    by (simp add: delete_reference_def delete_index_path_def info_field_stored account_field)
  then show ?thesis
    using get doc
    by (simp add: delete_document_for_contract_def delete_document_for_contract_apply_and_add_to_operations_def
        delete_document_for_contract_operations_def account_type_found Let_def stateless_size_def deleted_document_info_def
        from_some_element_flags_ref_def free_fee one_index_def)
qed

theorem inserted_document_deleted_witness:
  "\<exists>db' fee. delete_document_for_contract (account_decode 1 [(''a'', CInteger 1)]) no_base58 reference_codecs reference_drive account_store
     (replicate 32 1) (account_contract one_index) ''account'' (Some (replicate 32 8)) some_block True = Inr (db', fee) \<and>
   (\<exists>err. gdb_get (grove reference_drive) db' (info_primary_path (account_info one_index 1 [(''a'', CInteger 1)])) (replicate 32 1) = Inl err \<and> not_found err)"
proof -
  obtain db' where r: "delete_document_for_contract (account_decode 1 [(''a'', CInteger 1)]) no_base58 reference_codecs reference_drive account_store
     (replicate 32 1) (account_contract one_index) ''account'' (Some (replicate 32 8)) some_block True = Inr (db', fee_result_default)"
    using account_deleted by blast
  have vs: "index_values no_base58 reference_codecs (account 1 [(''a'', CInteger 1)]) (account_type one_index) (Some (replicate 32 8))
      (account_index [''a''] True) = Inr [encode_signed_integer 1]"
    by (simp add: index_values_def account_field)
  from inserted_document_deleted[OF reference_facts _ _ _ one_account_inserted _ account_decoded[of "''a''" 1 "CInteger 1" 1 one_index], where block' = some_block and db'' = db' and fee' = fee_result_default]
  show ?thesis using accounts_named(3) r vs account_keys(2) by (simp add: account_type_found one_index_def)
qed


end
