(* ===== verification/Applied.thy ===== *)
theory Applied
  imports DocApi DocIndex
begin

text \<open>
  What applying a contract leaves in the database, how it is read back through the cache, and what batches of
  documents do.
\<close>

section \<open>The batch of a contract\<close>

text \<open>Insertions of trees for the documents of a contract.\<close>

definition document_tree :: "bytes \<Rightarrow> grove_op \<Rightarrow> bool" where
  "document_tree cid o' \<longleftrightarrow> (\<exists>f. op_op o' = Insert (Tree None f)) \<and> prefix (contract_documents_path cid) (op_path o')"

lemma tree_op_last:
  assumes "tree_op (length q) (q @ [k]) o'"
  shows "op_path o' = q"
proof -
  obtain zs where zs: "q @ [k] = op_path o' @ [op_key o'] @ zs" "length q \<le> length (op_path o')"
    using assms by (auto simp: tree_op_def prefix_def)
  from arg_cong[where f = length, OF zs(1)] zs(2) have "zs = []" by simp
  with zs(1) show ?thesis by simp
qed

lemma empty_tree_batch:
  assumes "batch_insert_empty_tree d p (KeyRef k) flags ops = Inr ops'"
  shows "\<exists>f. batch_of ops' = batch_of ops @ [insert_run_op p k (Tree None f)]"
  using assms for_empty_tree_op[of "varint d" p k flags] by auto

lemma empty_tree_appends:
  assumes "batch_insert_empty_tree d p (KeyRef k) flags ops = Inr ops'" "prefix (contract_documents_path cid) p"
  shows "appends (document_tree cid) (batch_of ops) (batch_of ops')"
  using empty_tree_batch[OF assms(1)] assms(2) by (auto simp: appends_def document_tree_def insert_run_op_def)

lemma index_trees_append:
  assumes "insert_index_trees ins dt ops = Inr ops'"
    and "\<And>b ops ops'. ins b ops = Inr ops' \<Longrightarrow> appends Q (batch_of ops) (batch_of ops')"
  shows "appends Q (batch_of ops) (batch_of ops')"
proof -
  obtain st where "foldM (insert_index_tree_once ins) ({}, ops) (top_level_indices dt) = Inr st" "ops' = snd st"
    using assms(1) by (auto simp: insert_index_trees_def rmap_eq_Inr)
  moreover have "appends Q (batch_of (snd s)) (batch_of (snd s'))" if "insert_index_tree_once ins s ix = Inr s'" for s ix s'
    using that assms(2) by (cases s) (auto simp: insert_index_tree_once_def Let_def rbind_eq_Inr split: if_splits)
  ultimately show ?thesis using foldM_appends[where g = "\<lambda>s. batch_of (snd s)"] by fastforce
qed

lemma document_type_appends:
  assumes "insert_document_type d cid flags (KeyRef [0]) ops e = Inr ops'"
  shows "appends (document_tree cid) (batch_of ops) (batch_of ops')"
proof -
  let ?p = "contract_documents_path cid"
  let ?q = "?p @ [string_bytes (fst e)]"
  obtain ops1 ops2 where s: "batch_insert_empty_tree d ?p (KeyRef (string_bytes (fst e))) flags ops = Inr ops1"
      "batch_insert_empty_tree d ?q (KeyRef [0]) flags ops1 = Inr ops2"
      "insert_index_trees (\<lambda>b. batch_insert_empty_tree d ?q (KeyRef b) flags) (snd e) ops2 = Inr ops'"
    using assms by (auto simp: insert_document_type_def Let_def rbind_eq_Inr simp del: batch_insert_empty_tree.simps)
  have "appends (document_tree cid) (batch_of ops) (batch_of ops1)" by (rule empty_tree_appends[OF s(1)]) simp
  also have "appends (document_tree cid) (batch_of ops1) (batch_of ops2)" by (rule empty_tree_appends[OF s(2)]) simp
  also have "appends (document_tree cid) (batch_of ops2) (batch_of ops')"
    by (rule index_trees_append[OF s(3)]) (rule empty_tree_appends, assumption, simp)
  finally show ?thesis .
qed

lemma updated_type_appends:
  assumes "grove_contract (grove d)" "update_document_type d db cid flags True types ops e = Inr ops'"
  shows "appends (document_tree cid) (batch_of ops) (batch_of ops')"
proof (cases "bt_get (fst e) types")
  case None
  with assms(2) show ?thesis by (intro document_type_appends) (simp add: update_document_type_def)
next
  case (Some old)
  let ?q = "contract_documents_path cid @ [string_bytes (fst e)]"
  have "insert_index_trees (\<lambda>b ops. rmap snd (batch_insert_empty_tree_if_not_exists d db (PathFixedSizeKeyRef ?q b) flags True ops))
      (snd e) ops = Inr ops'"
    using assms(2) Some by (auto simp: update_document_type_def simp del: batch_insert_empty_tree_if_not_exists.simps split: if_splits)
  then show ?thesis
  proof (rule index_trees_append)
    fix b ops ops'
    assume "rmap snd (batch_insert_empty_tree_if_not_exists d db (PathFixedSizeKeyRef ?q b) flags True ops) = Inr ops'"
    then obtain x where "batch_insert_empty_tree_if_not_exists d db (PathFixedSizeKeyRef ?q b) flags True ops = Inr (x, ops')"
      by (auto simp: rmap_eq_Inr simp del: batch_insert_empty_tree_if_not_exists.simps)
    from batch_tree_known[OF assms(1) _ this, of ?q b]
    obtain ts where ts: "batch_of ops' = batch_of ops @ ts" "\<forall>o' \<in> set ts. tree_op (length ?q) (?q @ [b]) o'" by auto
    have "document_tree cid o'" if "o' \<in> set ts" for o'
    proof -
      have t: "tree_op (length ?q) (?q @ [b]) o'" using ts(2) that by blast
      then have "\<exists>f. op_op o' = Insert (Tree None f)" by (simp add: tree_op_def)
      with tree_op_last[OF t] show ?thesis by (simp add: document_tree_def)
    qed
    with ts(1) show "appends (document_tree cid) (batch_of ops) (batch_of ops')" unfolding appends_def list_all_iff by blast
  qed
qed

text \<open>What is stored at key 0 of a contract: itself, or the tree of its history.\<close>

definition contract_entry :: "'j data_contract \<Rightarrow> bytes \<Rightarrow> element_flags option \<Rightarrow> element \<Rightarrow> bool" where
  "contract_entry contract bs f e \<longleftrightarrow>
     (if keeps_history (contract_config contract) then \<exists>g. e = Tree None g else e = Item bs f)"

definition beside_entry :: "bytes \<Rightarrow> grove_op \<Rightarrow> bool" where
  "beside_entry cid o' \<longleftrightarrow> \<not> deletes o' \<and> \<not> writes (contract_root_path cid) [0] o'"

lemma beside_entryI:
  "op_op o' = Insert e \<Longrightarrow> op_path o' \<noteq> contract_root_path cid \<or> op_key o' \<noteq> [0] \<Longrightarrow> beside_entry cid o'"
  by (auto simp: beside_entry_def deletes_def writes_def)

lemma document_tree_beside: "document_tree cid o' \<Longrightarrow> beside_entry cid o'"
  by (auto simp: document_tree_def contract_documents_path_def contract_root_path_def intro!: beside_entryI)

lemma stored_contract_batch:
  assumes "add_contract_to_storage d (Item bs f) contract block True ops = Inr ops'"
  shows "\<exists>e os. contract_entry contract bs f e \<and>
    batch_of ops' = batch_of ops @ insert_run_op (contract_root_path (contract_id contract)) [0] e # os \<and>
    list_all (beside_entry (contract_id contract)) os"
proof (cases "keeps_history (contract_config contract)")
  case True
  let ?root = "contract_root_path (contract_id contract)" and ?p = "contract_keeping_history_storage_path (contract_id contract)"
  let ?t = "encode_unsigned_integer (time_ms block)"
  obtain flags where flags: "batch_insert_empty_tree d ?root (KeyRef [0]) flags ops =
      Inr (ops @ [for_empty_tree (varint d) ?root [0] flags])"
    and ops': "ops' = ops @ [for_empty_tree (varint d) ?root [0] flags, for_path_key_element ?p ?t (Item bs f),
      for_path_key_element ?p [0] (Reference (SiblingReference ?t) (Some 1) f)]"
    using assms True by (auto simp: add_contract_to_storage_def Let_def rbind_eq_Inr)
  obtain g where "for_empty_tree (varint d) ?root [0] flags = GroveOperation (insert_run_op ?root [0] (Tree None g))"
    using for_empty_tree_op by blast
  with ops' have "batch_of ops' = batch_of ops @ insert_run_op ?root [0] (Tree None g) #
      [insert_run_op ?p ?t (Item bs f), insert_run_op ?p [0] (Reference (SiblingReference ?t) (Some 1) f)]"
    by (simp add: for_path_key_element_def)
  moreover have "list_all (beside_entry (contract_id contract))
      [insert_run_op ?p ?t (Item bs f), insert_run_op ?p [0] (Reference (SiblingReference ?t) (Some 1) f)]"
    by (auto simp: insert_run_op_def contract_keeping_history_storage_path_def contract_root_path_def intro!: beside_entryI)
  moreover have "contract_entry contract bs f (Tree None g)" using True by (simp add: contract_entry_def)
  ultimately show ?thesis by blast
next
  case False
  then show ?thesis using assms
    by (auto simp: add_contract_to_storage_def contract_entry_def for_path_key_element_def)
qed

lemma appended_beside:
  assumes "appends (document_tree cid) b b'"
  shows "\<exists>os. b' = b @ os \<and> list_all (beside_entry cid) os"
  using assms document_tree_beside by (auto simp: appends_def list_all_iff)

lemma inserted_contract_batch:
  assumes "insert_contract_operations d (Item bs f) contract block True = Inr ops"
  shows "\<exists>e pre post. contract_entry contract bs f e \<and>
     batch_of ops = pre @ insert_run_op (contract_root_path (contract_id contract)) [0] e # post \<and>
     list_all (beside_entry (contract_id contract)) pre \<and> list_all (beside_entry (contract_id contract)) post"
proof -
  let ?cid = "contract_id contract" and ?docs = "[root_key ContractDocuments]" and ?root = "contract_root_path (contract_id contract)"
  obtain flags ops1 ops2 ops3 where s: "batch_insert_empty_tree d ?docs (KeyRef ?cid) flags [] = Inr ops1"
      "add_contract_to_storage d (Item bs f) contract block True ops1 = Inr ops2"
      "batch_insert_empty_tree d ?root (KeyRef [1]) flags ops2 = Inr ops3"
      "foldM (insert_document_type d ?cid flags (KeyRef [0])) ops3 (document_types contract) = Inr ops"
    using assms by (auto simp: insert_contract_operations_def Let_def rbind_eq_Inr simp del: batch_insert_empty_tree.simps)
  obtain g where g: "batch_of ops1 = [insert_run_op ?docs ?cid (Tree None g)]" using empty_tree_batch[OF s(1)] by auto
  obtain e os where e: "contract_entry contract bs f e" "batch_of ops2 = batch_of ops1 @ insert_run_op ?root [0] e # os"
      "list_all (beside_entry ?cid) os"
    using stored_contract_batch[OF s(2)] by blast
  obtain h where h: "batch_of ops3 = batch_of ops2 @ [insert_run_op ?root [1] (Tree None h)]" using empty_tree_batch[OF s(3)] by blast
  have "appends (document_tree ?cid) (batch_of ops3) (batch_of ops)"
    by (rule foldM_appends[OF s(4)]) (rule document_type_appends)
  then obtain post where post: "batch_of ops = batch_of ops3 @ post" "list_all (beside_entry ?cid) post"
    using appended_beside by blast
  have "beside_entry ?cid (insert_run_op ?docs ?cid (Tree None g))" "beside_entry ?cid (insert_run_op ?root [1] (Tree None h))"
    by (auto simp: insert_run_op_def contract_root_path_def intro!: beside_entryI)
  then have "batch_of ops = [insert_run_op ?docs ?cid (Tree None g)] @ insert_run_op ?root [0] e # (os @ insert_run_op ?root [1] (Tree None h) # post)"
      "list_all (beside_entry ?cid) [insert_run_op ?docs ?cid (Tree None g)]"
      "list_all (beside_entry ?cid) (os @ insert_run_op ?root [1] (Tree None h) # post)"
    using g e(2,3) h post by simp_all
  with e(1) show ?thesis by blast
qed

lemma updated_contract_batch:
  assumes "grove_contract (grove d)" "update_contract_operations d db (Item bs f) contract original block True = Inr ops"
  shows "\<exists>e pre post. contract_entry contract bs f e \<and>
     batch_of ops = pre @ insert_run_op (contract_root_path (contract_id contract)) [0] e # post \<and>
     list_all (beside_entry (contract_id contract)) pre \<and> list_all (beside_entry (contract_id contract)) post"
proof -
  let ?cid = "contract_id contract"
  obtain flags ops1 where s: "add_contract_to_storage d (Item bs f) contract block True [] = Inr ops1"
      "foldM (update_document_type d db ?cid flags True (document_types original)) ops1 (document_types contract) = Inr ops"
    using assms(2) by (auto simp: update_contract_operations_def rbind_eq_Inr)
  obtain e os where e: "contract_entry contract bs f e" "batch_of ops1 = insert_run_op (contract_root_path ?cid) [0] e # os"
      "list_all (beside_entry ?cid) os"
    using stored_contract_batch[OF s(1)] by auto
  have "appends (document_tree ?cid) (batch_of ops1) (batch_of ops)"
    by (rule foldM_appends[OF s(2)]) (rule updated_type_appends[OF assms(1)])
  then obtain post where "batch_of ops = batch_of ops1 @ post" "list_all (beside_entry ?cid) post"
    using appended_beside by blast
  with e have "batch_of ops = [] @ insert_run_op (contract_root_path ?cid) [0] e # (os @ post)"
      "list_all (beside_entry ?cid) []" "list_all (beside_entry ?cid) (os @ post)" by simp_all
  with e(1) show ?thesis by blast
qed

lemma stored_contract_cost: "batch_of (snd (stored_contract_element d db cid apply)) = []"
  by (auto simp: stored_contract_element_def grove_get_direct_def rbind_def split: sum.splits option.splits)

lemma applied_contract_batch:
  assumes "grove_contract (grove d)" "apply_contract_operations E d db contract bs block True flags = Inr ops"
    and "batch_of ops \<noteq> []"
  shows "\<exists>e. contract_entry contract bs (map_to_some_element_flags (varint d) flags) e \<and>
    last_write (batch_of ops) (contract_root_path (contract_id contract)) [0] = Some (Insert e) \<and>
    (\<forall>o' \<in> set (batch_of ops). \<not> deletes o')"
proof -
  let ?cid = "contract_id contract" and ?f = "map_to_some_element_flags (varint d) flags"
  obtain stored ops0 where s: "stored_contract_element d db ?cid True = (stored, ops0)" by fastforce
  have 0: "batch_of ops0 = []" using stored_contract_cost[of d db ?cid True] s by simp
  have "\<exists>ops'. batch_of ops = batch_of ops' \<and> (insert_contract_operations d (Item bs ?f) contract block True = Inr ops' \<or>
      (\<exists>original. update_contract_operations d db (Item bs ?f) contract original block True = Inr ops'))"
    using assms(2,3) s 0
    by (auto simp: apply_contract_operations_def Let_def insert_contract_add_operations_def update_contract_add_operations_def
        rbind_eq_Inr rmap_eq_Inr split: option.splits element.splits if_splits)
  then obtain e pre post where e: "contract_entry contract bs ?f e"
      "batch_of ops = pre @ insert_run_op (contract_root_path ?cid) [0] e # post"
      "list_all (beside_entry ?cid) pre" "list_all (beside_entry ?cid) post"
    using inserted_contract_batch updated_contract_batch[OF assms(1)] by metis
  have "last_write (batch_of ops) (contract_root_path ?cid) [0] = Some (Insert e)"
    by (rule last_write_unique) (use e in \<open>auto simp: beside_entry_def list_all_iff insert_run_op_def writes_def\<close>)
  moreover have "\<forall>o' \<in> set (batch_of ops). \<not> deletes o'"
    using e by (auto simp: beside_entry_def list_all_iff insert_run_op_def deletes_def)
  ultimately show ?thesis using e(1) by blast
qed

lemma applied_contract_entry:
  assumes "grove_contract (grove d)" "batching_enabled (config d)"
    and "apply_contract cost_add E d db contract bs block True flags = Inr (db', fee)"
  shows "\<exists>e. gdb_get (grove d) db' (contract_root_path (contract_id contract)) [0] = Inr e \<and>
    (if keeps_history (contract_config contract) then \<exists>r f. e = Tree r f else \<exists>f. e = Item bs f)"
proof -
  let ?p = "contract_root_path (contract_id contract)"
  obtain ops ops' where ops: "apply_contract_operations E d db contract bs block True flags = Inr ops"
      "apply_batch_drive_operations d db True ops [] = Inr (db', ops')"
    using assms(3) by (auto simp: apply_contract_def rbind_eq_Inr)
  have run: "grove_apply_batch d db (batch_of ops) False = Inr db'" by (rule applied_drive_batch[OF ops(2) assms(2)])
  obtain e where e: "contract_entry contract bs (map_to_some_element_flags (varint d) flags) e"
      "last_write (batch_of ops) ?p [0] = Some (Insert e)" "\<forall>o' \<in> set (batch_of ops). \<not> deletes o'"
    using applied_contract_batch[OF assms(1) ops(1)] grove_apply_batch_batched[OF run assms(2)] by blast
  obtain e' where e': "gdb_get_raw (grove d) db' ?p [0] = Inr e'" "stored_as e e'"
    using applied_batch_raw[OF assms(1,2) run e(2)] e(3) by blast
  then show ?thesis using grove_contract.get_stored[OF assms(1) e'(1)] e(1)
    by (cases e) (auto simp: contract_entry_def split: if_splits)
qed

section \<open>Applied contracts\<close>

text \<open>C12: a contract that was applied, and keeps no history, is stored under its id as it was serialized, and fetching it
  reads it from there.\<close>

theorem applied_contract_read_back:
  assumes "grove_contract (grove d)" "batching_enabled (config d)" "\<not> keeps_history (contract_config contract)"
    and "apply_contract cost_add E d db contract bs block True flags = Inr (db', fee)"
    and "read_contract E bs None = Inr c"
  shows "\<exists>f. gdb_get (grove d) db' (contract_root_path (contract_id contract)) [0] = Inr (Item bs f) \<and>
    (\<forall>stored_flags. from_some_element_flags_ref (varint d) f = Inr stored_flags \<longrightarrow>
      (\<exists>cost. fst (fetch_contract E d db' (contract_id contract) None) =
        Inr (Some \<lparr>fetched_contract = c, fetched_storage_flags = stored_flags, fetch_cost = cost, fetch_fee = None\<rparr>)))"
proof -
  obtain f where f: "gdb_get (grove d) db' (contract_root_path (contract_id contract)) [0] = Inr (Item bs f)"
    using applied_contract_entry[OF assms(1,2,4)] assms(3) by auto
  then show ?thesis using assms(5) by (auto simp: fetch_contract_def Let_def)
qed

text \<open>C19: a contract that keeps history can not be fetched after it was applied: at the key the fetch reads there is the
  tree of its history, not a contract, and not a reference to one.\<close>

theorem history_contract_not_fetched:
  assumes "grove_contract (grove d)" "batching_enabled (config d)" "keeps_history (contract_config contract)"
    and "apply_contract cost_add E d db contract bs block True flags = Inr (db', fee)"
  shows "fst (fetch_contract E d db' (contract_id contract) epoch) =
    Inl (DriveErr (CorruptedContractPath ''contract path did not refer to a contract element''))"
proof -
  obtain r f where "gdb_get (grove d) db' (contract_root_path (contract_id contract)) [0] = Inr (Tree r f)"
    using applied_contract_entry[OF assms(1,2,4)] assms(3) by auto
  then show ?thesis by (simp add: fetch_contract_def Let_def)
qed

text \<open>A contract that is applied again unchanged is refused with the error of an empty batch.\<close>

theorem unchanged_contract_refused:
  assumes "gdb_get (grove d) db (contract_root_path (contract_id contract)) [0] = Inr (Item bs f)"
  shows "apply_contract cost_add E d db contract bs block True flags = Inl (DriveErr BatchIsEmpty)"
proof -
  obtain ops where s: "stored_contract_element d db (contract_id contract) True = (Some (Item bs f), ops)"
    using assms by (simp add: stored_contract_element_def grove_get_direct_def)
  then have "apply_contract_operations E d db contract bs block True flags = Inr ops"
    by (simp add: apply_contract_operations_def Let_def)
  moreover have "batch_of ops = []" using stored_contract_cost[of d db "contract_id contract" True] s by simp
  ultimately show ?thesis
    by (simp add: apply_contract_def apply_batch_drive_operations_def apply_batch_grovedb_operations_def
        grove_apply_batch_with_add_costs_def)
qed

section \<open>Updates\<close>

lemma foldM_each:
  assumes "foldM f s xs = Inr s'" "x \<in> set xs"
  shows "\<exists>s1 s2. f s1 x = Inr s2"
  using assms by (induction xs arbitrary: s) (auto simp: rbind_eq_Inr)

text \<open>C13: an update of a contract that succeeds is of a contract that is not read only, and changes neither whether the contract
  or its documents keep history or are mutable by default, nor, of any document type it had, whether its documents are mutable or
  keep history.\<close>

theorem contract_update_guarded:
  assumes "update_contract_operations d db e contract original block apply = Inr ops"
  shows "\<not> readonly (contract_config original) \<and> \<not> readonly (contract_config contract) \<and>
    keeps_history (contract_config contract) = keeps_history (contract_config original) \<and>
    documents_keep_history_contract_default (contract_config contract) = documents_keep_history_contract_default (contract_config original) \<and>
    documents_mutable_contract_default (contract_config contract) = documents_mutable_contract_default (contract_config original) \<and>
    (\<forall>(name, dt) \<in> set (document_types contract). \<forall>old. bt_get name (document_types original) = Some old \<longrightarrow>
      documents_mutable dt = documents_mutable old \<and> documents_keep_history dt = documents_keep_history old)"
proof -
  obtain ops1 flags where s: "check_contract_update contract original = Inr ()"
      "foldM (update_document_type d db (contract_id contract) flags apply (document_types original)) ops1 (document_types contract) = Inr ops"
    using assms by (auto simp: update_contract_operations_def rbind_eq_Inr)
  have "documents_mutable (snd x) = documents_mutable old \<and> documents_keep_history (snd x) = documents_keep_history old"
    if "x \<in> set (document_types contract)" "bt_get (fst x) (document_types original) = Some old" for x old
    using foldM_each[OF s(2) that(1)] that(2) by (auto simp: update_document_type_def split: if_splits)
  then have "\<forall>(name, dt) \<in> set (document_types contract). \<forall>old. bt_get name (document_types original) = Some old \<longrightarrow>
      documents_mutable dt = documents_mutable old \<and> documents_keep_history dt = documents_keep_history old"
    by fastforce
  moreover have "\<not> readonly (contract_config original) \<and> \<not> readonly (contract_config contract) \<and>
    keeps_history (contract_config contract) = keeps_history (contract_config original) \<and>
    documents_keep_history_contract_default (contract_config contract) = documents_keep_history_contract_default (contract_config original) \<and>
    documents_mutable_contract_default (contract_config contract) = documents_mutable_contract_default (contract_config original)"
    using s(1) by (auto simp: check_contract_update_def Let_def split: if_splits)
  ultimately show ?thesis by blast
qed

section \<open>The cache\<close>

lemma cached_after_get:
  assumes "cache_without_eviction M" "contract_id (fetched_contract i) = cid"
    and "get_contract_with_fetch_info_and_add_to_operations M E d db cache cid epoch tx ops = (cache', Inr (Some i, ops'))"
  shows "\<exists>i'. contract_cache_get M cache' cid tx = Some i' \<and> fetched_contract i' = fetched_contract i"
proof -
  have inserted: "contract_cache_get M (contract_cache_insert M c v tx) (contract_id (fetched_contract v)) tx = Some v" for c v
    using cache_without_eviction.kept[OF assms(1)]
    by (cases tx) (simp_all add: contract_cache_get_def contract_cache_insert_def transactional_get_def transactional_insert_def
        get_cache_def)
  show ?thesis
  proof (cases "contract_cache_get M cache cid tx")
    case None
    with assms(3) have "cache' = contract_cache_insert M cache i tx"
      by (auto simp: get_contract_with_fetch_info_and_add_to_operations_def split: sum.splits option.splits prod.splits)
    with inserted[of cache i] assms(2) show ?thesis by auto
  next
    case (Some j)
    with assms(3) have "i = j \<and> (cache' = cache \<or> (\<exists>fee. cache' = contract_cache_insert M cache (j\<lparr>fetch_fee := fee\<rparr>) tx))"
      by (auto simp: get_contract_with_fetch_info_and_add_to_operations_def split: sum.splits option.splits)
    with Some inserted[of cache "j\<lparr>fetch_fee := fee\<rparr>" for fee] assms(2) show ?thesis by auto
  qed
qed

text \<open>C18: a contract that was read through the cache is read from it again after another version was applied, although the
  database holds the new version.\<close>

theorem applied_update_hidden_by_cache:
  assumes "grove_contract (grove d)" "batching_enabled (config d)" "cache_without_eviction M"
    and "get_contract_with_fetch_info_and_add_to_operations M E d db cache cid epoch tx ops = (cache', Inr (Some i, ops'))"
    and "contract_id (fetched_contract i) = cid" "contract_id contract = cid" "\<not> keeps_history (contract_config contract)"
    and "apply_contract cost_add E d db contract bs block True flags = Inr (db', fee)"
  shows "(\<exists>f. gdb_get (grove d) db' (contract_root_path cid) [0] = Inr (Item bs f)) \<and>
    (\<exists>i'. get_contract_with_fetch_info M E d db' cache' cid None tx = (cache', Inr (Some i')) \<and>
      fetched_contract i' = fetched_contract i)"
proof
  show "\<exists>f. gdb_get (grove d) db' (contract_root_path cid) [0] = Inr (Item bs f)"
    using applied_contract_entry[OF assms(1,2,8)] assms(6,7) by auto
  show "\<exists>i'. get_contract_with_fetch_info M E d db' cache' cid None tx = (cache', Inr (Some i')) \<and>
      fetched_contract i' = fetched_contract i"
    using cached_after_get[OF assms(3,5,4)]
    by (auto simp: get_contract_with_fetch_info_def get_contract_with_fetch_info_and_add_to_operations_def)
qed

section \<open>Documents of a contract given by its identifier\<close>

lemma apply_batch_accumulates:
  assumes "apply_batch_drive_operations d db apply bops ops = Inr (db', ops')" "batching_enabled (config d)"
  shows "\<exists>more. ops' = ops @ more \<and> apply_batch_drive_operations d db apply bops [] = Inr (db', more)"
  using assms
  by (auto simp: apply_batch_drive_operations_def apply_batch_grovedb_operations_def grove_apply_batch_with_add_costs_def
      grove_batch_operations_costs_def push_drive_operation_result_def rbind_eq_Inr rmap_eq_Inr split: prod.splits if_splits)

text \<open>C21: adding a document to a contract given by its identifier does what adding it to the fetched contract does, and its fee
  is that of the operations that fetched the contract followed by those of the insertion.\<close>

theorem document_added_by_contract_id:
  assumes "batching_enabled (config d)"
    and "add_serialized_document_for_contract_id M E C d db cache serialized cid name owner override_document block apply flags tx =
      (cache', Inr (db', fee))"
  shows "\<exists>fetched fetching i inserting.
    get_contract_with_fetch_info_and_add_to_operations M E d db cache cid (Some (block_epoch block)) tx [] =
      (cache', Inr (Some fetched, fetching)) \<and>
    serialized_document_info E serialized (fetched_contract fetched) name owner flags = Inr i \<and>
    add_document_for_contract_apply_and_add_to_operations (cbor_decoder E) (base58_decoder E) C d db i override_document block apply [] =
      Inr (db', inserting) \<and>
    drive_fee d (fetching @ inserting) block = Inr fee"
proof -
  obtain fetched fetching i ops where s:
      "get_contract_with_fetch_info_and_add_to_operations M E d db cache cid (Some (block_epoch block)) tx [] =
        (cache', Inr (Some fetched, fetching))"
      "serialized_document_info E serialized (fetched_contract fetched) name owner flags = Inr i"
      "add_document_for_contract_apply_and_add_to_operations (cbor_decoder E) (base58_decoder E) C d db i override_document block
        apply fetching = Inr (db', ops)"
      "drive_fee d ops block = Inr fee"
    using assms(2) unfolding add_serialized_document_for_contract_id_def with_contract_def
    by (cases "get_contract_with_fetch_info_and_add_to_operations M E d db cache cid (Some (block_epoch block)) tx []")
      (auto simp: rs_result)
  obtain bops where bops: "add_document_for_contract_operations (cbor_decoder E) (base58_decoder E) C d db i override_document block apply = Inr bops"
      "apply_batch_drive_operations d db apply bops fetching = Inr (db', ops)"
    using s(3) by (auto simp: add_document_for_contract_apply_and_add_to_operations_def rbind_eq_Inr)
  obtain more where more: "ops = fetching @ more" "apply_batch_drive_operations d db apply bops [] = Inr (db', more)"
    using apply_batch_accumulates[OF bops(2) assms(1)] by blast
  have "add_document_for_contract_apply_and_add_to_operations (cbor_decoder E) (base58_decoder E) C d db i override_document block apply [] =
      Inr (db', more)"
    using bops(1) more(2) by (simp add: add_document_for_contract_apply_and_add_to_operations_def)
  with s more(1) show ?thesis by blast
qed

section \<open>Two documents in one batch\<close>

text \<open>The operations of an insertion write nothing twice, and below the primary key only the document.\<close>

lemma insertion_primary_write:
  assumes dt: "indexes_named dt"
    and oss: "list_all2 (index_batch b58 C V q doc dt owner flags) (indices dt) oss"
    and "prefix (q @ [[0]]) (p @ [k])"
  shows "last_write (concat oss) p k = None"
  unfolding last_write_None
proof
  fix o' assume o': "o' \<in> set (concat oss)"
  then obtain os' where "o' \<in> set os'" "os' \<in> set oss" by auto
  then obtain ix where ix: "ix \<in> set (indices dt)" and b: "index_batch b58 C V q doc dt owner flags ix os'"
    using list_all2_right[OF oss] by blast
  have "\<not> prefix (q @ [[0]]) (op_full_path o')" by (rule index_op_not_primary[OF dt ix b \<open>o' \<in> set os'\<close>])
  then show "\<not> writes p k o'" using assms(3) by (auto simp: writes_def op_full_path_def)
qed

lemma insertion_deletes_nothing:
  assumes "list_all2 (index_batch b58 C V q doc dt owner flags) ixs oss" "o' \<in> set (concat oss)"
  shows "\<not> deletes o'"
proof -
  obtain os' ix where "o' \<in> set os'" and b: "index_batch b58 C V q doc dt owner flags ix os'"
    using assms(2) list_all2_right[OF assms(1)] by fastforce
  moreover obtain vs where "index_values b58 C doc dt owner ix = Inr vs" using b by (auto simp: index_batch_def)
  ultimately show ?thesis using index_batch_paths[OF b] by blast
qed


section \<open>Examples\<close>

text \<open>A contract without document types, whose bytes are its protocol version, and its versions.\<close>

definition bare_cbor :: "(string, cbor) btree" where
  "bare_cbor =
     [(''$id'', CBytes (replicate 32 1)), (''$schema'', CText ''schema''), (''documents'', CMap []),
      (''ownerId'', CBytes (replicate 32 2)), (''version'', CInteger 1)]"

definition bare_codecs :: contract_codecs where
  "bare_codecs = \<lparr>stack_depth = 3, cbor_decoder = (\<lambda>_. Some bare_cbor), base58_decoder = no_base58\<rparr>"

definition bare_contract :: "bool \<Rightarrow> json data_contract" where
  "bare_contract keep =
     \<lparr>protocol_version = 1, contract_id = replicate 32 1, schema = ''schema'', version = 1, contract_owner_id = replicate 32 2,
      documents = [], defs = [], metadata = None, entropy = replicate 32 0, binary_properties = [],
      contract_config = contract_config_default\<lparr>keeps_history := keep\<rparr>, document_types = []\<rparr>"

lemma bare_contract_read: "read_contract bare_codecs [1, 0, 0, 0] None = Inr (bare_contract False)"
  by (simp add: read_contract_def bare_codecs_def contract_from_cbor_def data_contract_from_cbor_def get_protocol_version_def
      u32_from_be_def be_value_def bare_cbor_def get_identifier_def map_values_to_bytes_def value_to_bytes_def bt_get_def
      get_string_def get_u32_def contract_defs_def contract_documents_def json_entries_def get_mutability_def
      bool_for_system_value_from_tree_map_def get_document_types_def bare_contract_def contract_config_default_def
      generate_binary_properties_def)

lemma bare_contract_simps [simp]:
  "contract_id (bare_contract keep) = replicate 32 1" "document_types (bare_contract keep) = []"
  "contract_config (bare_contract keep) = contract_config_default\<lparr>keeps_history := keep\<rparr>"
  by (simp_all add: bare_contract_def)

abbreviation apply_bare :: "store \<Rightarrow> bool \<Rightarrow> bytes \<Rightarrow> error + (store \<times> fee_result)" where
  "apply_bare db keep bs \<equiv>
     apply_contract (\<lambda>_ _. no_cost) bare_codecs reference_drive db (bare_contract keep) bs some_block True None"

abbreviation bare_root :: path where
  "bare_root \<equiv> contract_root_path (replicate 32 1)"

lemma reference_get [simp]: "gdb_get (grove reference_drive) db p k = store_get db p k" "gdb_cost_get (grove reference_drive) db p k = no_cost"
  by (simp_all add: reference_drive_def reference_grove_def)

lemma combined_free [simp]: "combine_cost_operations (\<lambda>_ _. no_cost) ops = no_cost"
proof -
  have "foldl (\<lambda>cost op. case op of CalculatedCostOperation c \<Rightarrow> no_cost | _ \<Rightarrow> cost) no_cost ops = no_cost" for ops :: drive_ops
    by (induction ops) (auto split: drive_operation.splits)
  then show ?thesis by (simp add: combine_cost_operations_def)
qed

lemmas apply_eval = apply_contract_def apply_contract_operations_def stored_contract_element_def grove_get_direct_def Let_def
  insert_contract_add_operations_def insert_contract_operations_def update_contract_add_operations_def update_contract_operations_def
  check_contract_update_def add_contract_to_storage_def from_some_element_flags_ref_def map_to_some_element_flags_def
  contract_config_default_def for_empty_tree_def for_path_key_element_def free_fee

lemma bare_contract_applied: "\<exists>db'. apply_bare [] keep [1, 0, 0, 0] = Inr (db', fee_result_default)"
  by (cases keep) (simp_all add: apply_eval store_get_def store_follow_def store_raw_def)

definition bare_store :: store where
  "bare_store = [((bare_root, [0]), Item [1, 0, 0, 0] None)]"

lemma bare_stored: "store_get bare_store bare_root [0] = Inr (Item [1, 0, 0, 0] None)"
  by (simp add: bare_store_def store_get_def store_follow_def)

lemma bare_contract_updated: "\<exists>db'. apply_bare bare_store False [2, 0, 0, 0] = Inr (db', fee_result_default)"
  using bare_stored by (simp add: apply_eval bare_contract_read)

theorem applied_contract_read_back_witness:
  "\<exists>db' fee f. apply_bare [] False [1, 0, 0, 0] = Inr (db', fee) \<and> store_get db' bare_root [0] = Inr (Item [1, 0, 0, 0] f)"
proof -
  obtain db' where r: "apply_bare [] False [1, 0, 0, 0] = Inr (db', fee_result_default)" using bare_contract_applied by blast
  from applied_contract_read_back[OF reference_facts _ r bare_contract_read] r show ?thesis
    by (auto simp: contract_config_default_def)
qed

theorem history_contract_not_fetched_witness:
  "\<exists>db' fee err. apply_bare [] True [1, 0, 0, 0] = Inr (db', fee) \<and>
    fst (fetch_contract bare_codecs reference_drive db' (replicate 32 1) None) = Inl (DriveErr (CorruptedContractPath err))"
proof -
  obtain db' where r: "apply_bare [] True [1, 0, 0, 0] = Inr (db', fee_result_default)" using bare_contract_applied by blast
  from history_contract_not_fetched[OF reference_facts _ r, of None] r show ?thesis by auto
qed

theorem unchanged_contract_refused_witness:
  "apply_bare bare_store False [1, 0, 0, 0] = Inl (DriveErr BatchIsEmpty)"
  by (rule unchanged_contract_refused) (simp add: bare_stored)

theorem contract_update_guarded_witness:
  "\<exists>ops. update_contract_operations reference_drive bare_store (Item [2, 0, 0, 0] None) (bare_contract False) (bare_contract False)
      some_block True = Inr ops \<and> \<not> readonly (contract_config (bare_contract False))"
proof -
  obtain ops where r: "update_contract_operations reference_drive bare_store (Item [2, 0, 0, 0] None) (bare_contract False)
      (bare_contract False) some_block True = Inr ops"
    by (simp add: apply_eval)
  from contract_update_guarded[OF r] r show ?thesis by blast
qed

definition empty_cache :: "(id32 \<times> json contract_fetch_info) list data_contract_cache" where
  "empty_cache = data_contract_cache_new unbounded_cache_ops 10 10"

lemma bare_contract_got:
  "\<exists>cache' i. get_contract_with_fetch_info_and_add_to_operations unbounded_cache_ops bare_codecs reference_drive bare_store empty_cache
     (replicate 32 1) None None [] = (cache', Inr (Some i, [])) \<and> fetched_contract i = bare_contract False"
  using bare_stored bare_contract_read
  by (simp add: get_contract_with_fetch_info_and_add_to_operations_def contract_cache_get_def empty_cache_def data_contract_cache_new_def
      unbounded_cache.lookup_new fetch_contract_and_add_operations_def fetch_contract_def from_some_element_flags_ref_def)

theorem applied_update_hidden_by_cache_witness:
  "\<exists>db' cache' fee i. apply_bare bare_store False [2, 0, 0, 0] = Inr (db', fee) \<and>
    (\<exists>f. store_get db' bare_root [0] = Inr (Item [2, 0, 0, 0] f)) \<and>
    get_contract_with_fetch_info unbounded_cache_ops bare_codecs reference_drive db' cache' (replicate 32 1) None None =
      (cache', Inr (Some i)) \<and> fetched_contract i = bare_contract False"
proof -
  obtain cache' i where g: "get_contract_with_fetch_info_and_add_to_operations unbounded_cache_ops bare_codecs reference_drive bare_store
      empty_cache (replicate 32 1) None None [] = (cache', Inr (Some i, []))" "fetched_contract i = bare_contract False"
    using bare_contract_got by blast
  obtain db' where r: "apply_bare bare_store False [2, 0, 0, 0] = Inr (db', fee_result_default)" using bare_contract_updated by blast
  from applied_update_hidden_by_cache[OF reference_facts unbounded_cache.cache_without_eviction_axioms g(1) _ _ _ r] g(2) r
  show ?thesis by (fastforce simp: contract_config_default_def)
qed

text \<open>Accounts of a cached contract.\<close>

definition account_codecs :: contract_codecs where
  "account_codecs = \<lparr>stack_depth = 3, cbor_decoder = account_decode 1 [(''a'', CInteger 1)], base58_decoder = no_base58\<rparr>"

definition account_cache :: "(id32 \<times> json contract_fetch_info) list data_contract_cache" where
  "account_cache = contract_cache_insert unbounded_cache_ops empty_cache
     \<lparr>fetched_contract = account_contract one_index, fetched_storage_flags = None, fetch_cost = no_cost,
      fetch_fee = Some fee_result_default\<rparr> None"

lemma precalculated_fee:
  assumes "drive_fee reference_drive ops block = Inr fee_result_default"
  shows "drive_fee reference_drive (PreCalculatedFeeResult fee_result_default # ops) block = Inr fee_result_default"
proof -
  have add: "checked_add_assign reference_int_map_insert reference_int_map_remove fee_result_default fee_result_default = Inr fee_result_default"
    by (simp add: checked_add_assign_def fee_result_default_def checked_add_def removed_bytes_checked_add_assign_def)
  show ?thesis
    using assms
    by (auto simp: drive_fee_def calculate_fee_def consume_to_fees_def reference_drive_def operation_fee_def add rbind_eq_Inr)
qed

lemma account_added:
  "\<exists>cache' db'. add_serialized_document_for_contract_id unbounded_cache_ops account_codecs reference_codecs reference_drive []
     account_cache [0, 0, 0, 1] (contract_id (account_contract one_index)) ''account'' (Some (replicate 32 8)) False some_block True None None =
     (cache', Inr (db', fee_result_default))"
  using account_decoded[of "''a''" 1 "CInteger 1" 1 one_index "[]"]
  by (simp add: add_serialized_document_for_contract_id_def with_contract_def serialized_document_info_def read_document_def
      get_contract_with_fetch_info_and_add_to_operations_def contract_cache_get_def account_cache_def contract_cache_insert_def
      unbounded_cache.kept account_codecs_def find_document_type_def account_type_found precalculated_fee
      insert_run_eval one_index_def account_field account_keys)

theorem document_added_by_contract_id_witness:
  "\<exists>cache' db' fee. add_serialized_document_for_contract_id unbounded_cache_ops account_codecs reference_codecs reference_drive []
     account_cache [0, 0, 0, 1] (contract_id (account_contract one_index)) ''account'' (Some (replicate 32 8)) False some_block True None None =
     (cache', Inr (db', fee)) \<and>
   (\<exists>fetched fetching. get_contract_with_fetch_info_and_add_to_operations unbounded_cache_ops account_codecs reference_drive []
     account_cache (contract_id (account_contract one_index)) (Some (block_epoch some_block)) None [] =
     (cache', Inr (Some fetched, fetching)))"
proof -
  obtain cache' db' where r: "add_serialized_document_for_contract_id unbounded_cache_ops account_codecs reference_codecs reference_drive []
     account_cache [0, 0, 0, 1] (contract_id (account_contract one_index)) ''account'' (Some (replicate 32 8)) False some_block True None None =
     (cache', Inr (db', fee_result_default))"
    using account_added by blast
  from document_added_by_contract_id[OF reference_batching r] r show ?thesis by blast
qed

abbreviation two_accounts :: "drive_operation_type list" where
  "two_accounts \<equiv> [DocumentOperation (AddDocumentForContract (account_info one_index 1 [(''a'', CInteger 1)]) False),
     DocumentOperation (AddDocumentForContract (account_info one_index 2 [(''a'', CInteger 1)]) False)]"

lemma two_accounts_applied:
  "\<exists>db'. apply_drive_operations account_codecs reference_codecs reference_drive [] two_accounts True some_block = Inr (db', fee_result_default)"
  by (simp add: apply_drive_operations_def to_drive_operations_def document_to_drive_operations_def account_codecs_def
      insert_run_eval one_index_def account_field account_keys)


end
