(* ===== verification/JsonValues.thy ===== *)
theory JsonValues
  imports ContractData Conditions
begin

text \<open>
  Access to JSON values: the paths of \<open>dpp/src/util/json_path.rs\<close>, the accessors of
  \<open>dpp/src/util/json_value/mod.rs\<close>, insertion under a path of \<open>insert_with_path.rs\<close>, and what
  \<open>dpp/src/util/json_schema.rs\<close> and \<open>index.rs\<close> read of a schema. An \<open>anyhow\<close> error is its message, without
  the values that are printed into it.
\<close>

section \<open>Errors\<close>

datatype protocol_error =
    AnyhowError string
  | ProtocolDocumentTypeError string
  | DataContractNotPresentError id32
  | DocumentNotProvided id32
  | ProtocolVersionNotDefined u32
  | InvalidStateTransitionTypeError
  | ProtocolPanic string

definition anyhow :: "string + 'a \<Rightarrow> protocol_error + 'a" where
  "anyhow r = map_err AnyhowError r"

lemma anyhow_simps [simp]: "anyhow (Inl s) = Inl (AnyhowError s)" "anyhow (Inr x) = Inr x"
  by (simp_all add: anyhow_def)

section \<open>Paths\<close>

datatype json_path_step =
    PathKey string
  | PathIndex nat

type_synonym json_path = "json_path_step list"

fun char_position :: "char \<Rightarrow> string \<Rightarrow> nat option" where
  "char_position c [] = None"
| "char_position c (d # s) = (if d = c then Some 0 else map_option Suc (char_position c s))"

definition parse_usize :: "string \<Rightarrow> nat option" where
  "parse_usize s =
     (case (case s of c # ds \<Rightarrow> parse_natural (if c = CHR ''+'' then ds else s) | [] \<Rightarrow> None) of
        Some i \<Rightarrow> if i < 2 ^ 64 then Some (nat i) else None
      | None \<Rightarrow> None)"

text \<open>A step with an index, such as \<open>name[0]\<close>.\<close>

definition try_parse_indexed_field :: "string \<Rightarrow> string + (string \<times> nat)" where
  "try_parse_indexed_field step =
     (case char_position (CHR ''['') step of
        None \<Rightarrow> Inl ''open index bracket not found''
      | Some index_open \<Rightarrow>
          (case char_position (CHR '']'') step of
             None \<Rightarrow> Inl ''close index bracket not found''
           | Some index_close \<Rightarrow>
               if index_close < index_open then Inl ''open bracket is ahead of close bracket''
               else if index_close \<noteq> length step - 1 then Inl ''the close bracket must be the last character''
               else
                 rbind (ok_or ''unable to parse into usize''
                          (parse_usize (drop (Suc index_open) (take index_close step)))) (\<lambda>i.
                   Inr (take index_open step, i))))"

definition json_path_of :: "string \<Rightarrow> json_path" where
  "json_path_of path =
     concat (map (\<lambda>step. case try_parse_indexed_field step of
         Inr (step_key, step_index) \<Rightarrow> [PathKey step_key, PathIndex step_index]
       | Inl _ \<Rightarrow> [PathKey step]) (split_dots path))"

text \<open>\<open>Value::get\<close> with a key or an index.\<close>

fun json_get :: "string \<Rightarrow> json \<Rightarrow> json option" where
  "json_get k (JObject m) = map_of m k"
| "json_get k _ = None"

fun json_at :: "json_path_step \<Rightarrow> json \<Rightarrow> json option" where
  "json_at (PathKey k) j = json_get k j"
| "json_at (PathIndex i) (JArray vs) = (if i < length vs then Some (vs ! i) else None)"
| "json_at (PathIndex i) _ = None"

fun get_value_from_json_path :: "json_path \<Rightarrow> json \<Rightarrow> json option" where
  "get_value_from_json_path [] j = Some j"
| "get_value_from_json_path (s # p) j = Option.bind (json_at s j) (get_value_from_json_path p)"

definition get_value :: "json \<Rightarrow> string \<Rightarrow> string + json" where
  "get_value j string_path = ok_or ''the property not found'' (get_value_from_json_path (json_path_of string_path) j)"

section \<open>Accessors\<close>

fun json_str :: "json \<Rightarrow> string option" where
  "json_str (JString s) = Some s"
| "json_str _ = None"

fun json_bool :: "json \<Rightarrow> bool option" where
  "json_bool (JBool b) = Some b"
| "json_bool _ = None"

fun json_array :: "json \<Rightarrow> json list option" where
  "json_array (JArray vs) = Some vs"
| "json_array _ = None"

fun json_object :: "json \<Rightarrow> (string \<times> json) list option" where
  "json_object (JObject m) = Some m"
| "json_object _ = None"

definition json_u64 :: "json \<Rightarrow> u64 option" where
  "json_u64 j = (case j of JInteger n \<Rightarrow> if 0 \<le> n \<and> n < 2 ^ 64 then Some (word_of_int n) else None | _ \<Rightarrow> None)"

definition json_i64 :: "json \<Rightarrow> int option" where
  "json_i64 j = (case j of JInteger n \<Rightarrow> if - (2 ^ 63) \<le> n \<and> n < 2 ^ 63 then Some n else None | _ \<Rightarrow> None)"

definition json_u8 :: "json \<Rightarrow> u8 option" where
  "json_u8 j = (case j of JInteger n \<Rightarrow> if 0 \<le> n \<and> n < 256 then Some (word_of_int n) else None | _ \<Rightarrow> None)"

definition get_property :: "string \<Rightarrow> (json \<Rightarrow> 'a option) \<Rightarrow> json \<Rightarrow> string \<Rightarrow> string + 'a" where
  "get_property wrong_type conv j prop =
     rbind (ok_or (''the property '' @ prop @ '' doesn't exist'') (json_get prop j)) (\<lambda>v.
       ok_or (''getting property '' @ prop @ '' failed: '' @ wrong_type) (conv v))"

definition json_get_string :: "json \<Rightarrow> string \<Rightarrow> string + string" where
  "json_get_string = get_property ''isn't a number'' json_str"

definition json_get_u64 :: "json \<Rightarrow> string \<Rightarrow> string + u64" where
  "json_get_u64 = get_property ''isn't a number or unable convert to u64'' json_u64"

definition json_get_i64 :: "json \<Rightarrow> string \<Rightarrow> string + int" where
  "json_get_i64 = get_property ''isn't a number or unable convert to i64'' json_i64"

fun option_all :: "'a option list \<Rightarrow> 'a list option" where
  "option_all [] = Some []"
| "option_all (x # xs) = Option.bind x (\<lambda>v. map_option ((#) v) (option_all xs))"

definition json_get_bytes :: "json \<Rightarrow> string \<Rightarrow> string + bytes" where
  "json_get_bytes = get_property ''invalid type'' (\<lambda>v. Option.bind (json_array v) (\<lambda>vs. option_all (map json_u8 vs)))"

definition json_remove :: "json \<Rightarrow> string \<Rightarrow> string + (json \<times> json)" where
  "json_remove j prop =
     rbind (ok_or (''the property '' @ prop @ '' isn't a map'') (json_object j)) (\<lambda>m.
     rbind (ok_or (''the property '' @ prop @ '' doesn't exists'') (map_of m prop)) (\<lambda>v.
       Inr (v, JObject (AList.delete prop m))))"

definition json_insert :: "json \<Rightarrow> string \<Rightarrow> json \<Rightarrow> string + json" where
  "json_insert j prop value =
     rbind (ok_or (''getting property '' @ prop @ '' failed: the data isn't a map'') (json_object j)) (\<lambda>m.
       Inr (JObject (AList.update prop value m)))"

definition json_push :: "json \<Rightarrow> json \<Rightarrow> string + json" where
  "json_push j value = rbind (ok_or ''data isn't an array'' (json_array j)) (\<lambda>vs. Inr (JArray (vs @ [value])))"

definition id_of_bytes :: "bytes \<Rightarrow> string + id32" where
  "id_of_bytes bs = (if length bs = 32 then Inr bs else Inl ''Identifier must be 32 bytes long'')"

text \<open>Equality of values: the order of the entries of an object does not matter, and the two zeros are equal.\<close>

function json_eq :: "json \<Rightarrow> json \<Rightarrow> bool"
and json_entries_eq :: "(string \<times> json) list \<Rightarrow> (string \<times> json) list \<Rightarrow> bool"
and json_lists_eq :: "json list \<Rightarrow> json list \<Rightarrow> bool" where
  "json_eq a b =
     (case (a, b) of
        (JObject m, JObject m') \<Rightarrow> length m = length m' \<and> json_entries_eq m m'
      | (JArray vs, JArray vs') \<Rightarrow> json_lists_eq vs vs'
      | (JFloat f, JFloat g) \<Rightarrow> f = g \<or> (unat f mod 2 ^ 63 = 0 \<and> unat g mod 2 ^ 63 = 0)
      | _ \<Rightarrow> a = b)"
| "json_entries_eq [] m' \<longleftrightarrow> True"
| "json_entries_eq ((k, v) # es) m' \<longleftrightarrow>
     (case map_of m' k of Some v' \<Rightarrow> json_eq v v' | None \<Rightarrow> False) \<and> json_entries_eq es m'"
| "json_lists_eq [] ws \<longleftrightarrow> ws = []"
| "json_lists_eq (v # vs) ws \<longleftrightarrow> (case ws of [] \<Rightarrow> False | w # ws' \<Rightarrow> json_eq v w \<and> json_lists_eq vs ws')"
  by pat_completeness auto

termination
  by (relation "measure (\<lambda>x. case x of
      Inl (a, _) \<Rightarrow> size a
    | Inr (Inl (m, _)) \<Rightarrow> size_list (size_prod (\<lambda>_. 0) size) m
    | Inr (Inr (vs, _)) \<Rightarrow> size_list size vs)") auto

section \<open>Insertion under a path\<close>

fun new_value_based_on_next_step :: "json_path_step \<Rightarrow> json" where
  "new_value_based_on_next_step (PathIndex _) = JArray []"
| "new_value_based_on_next_step (PathKey _) = JObject []"

text \<open>Only an array is filled.\<close>

definition fill_empty_indexes :: "json \<Rightarrow> nat \<Rightarrow> json" where
  "fill_empty_indexes current_level i =
     (case current_level of JArray vs \<Rightarrow> JArray (vs @ replicate (i - length vs) JNull) | _ \<Rightarrow> current_level)"

definition insert_into_array :: "json \<Rightarrow> nat \<Rightarrow> json \<Rightarrow> string + json" where
  "insert_into_array maybe_array position value =
     rbind (ok_or ''expected array'' (json_array maybe_array)) (\<lambda>vs.
       Inr (JArray (if length vs \<le> position then vs @ [value] else vs[position := value])))"

definition null_to :: "json \<Rightarrow> json \<Rightarrow> json" where
  "null_to empty_value j = (if j = JNull then empty_value else j)"

text \<open>The value at a step is replaced by what the rest of the loop makes of it.\<close>

definition json_set :: "json_path_step \<Rightarrow> json \<Rightarrow> json \<Rightarrow> json" where
  "json_set step value j =
     (case (step, j) of
        (PathKey k, JObject m) \<Rightarrow> JObject (AList.update k value m)
      | (PathIndex i, JArray vs) \<Rightarrow> JArray (vs[i := value])
      | _ \<Rightarrow> j)"

definition make_level :: "json \<Rightarrow> json_path_step \<Rightarrow> json_path_step \<Rightarrow> string + json" where
  "make_level current_level step next_step =
     (if json_at step current_level \<noteq> None then Inr current_level
      else
        (case step of
           PathIndex i \<Rightarrow>
             json_push (fill_empty_indexes (null_to (JArray []) current_level) i) (new_value_based_on_next_step next_step)
         | PathKey k \<Rightarrow> json_insert (null_to (JObject []) current_level) k (new_value_based_on_next_step next_step)))"

fun insert_with_path :: "json \<Rightarrow> json_path \<Rightarrow> json \<Rightarrow> string + json" where
  "insert_with_path current_level [] value = Inl ''attempt to subtract with overflow''"
| "insert_with_path current_level [PathIndex i] value =
     insert_into_array (fill_empty_indexes (null_to (JArray []) current_level) i) i value"
| "insert_with_path current_level [PathKey k] value = json_insert (null_to (JObject []) current_level) k value"
| "insert_with_path current_level (step # next_step # path) value =
     rbind (make_level current_level step next_step) (\<lambda>level.
     rbind (ok_or ''called `Option::unwrap()` on a `None` value'' (json_at step level)) (\<lambda>new_level.
     rbind (insert_with_path new_level (next_step # path) value) (\<lambda>inserted.
       Inr (json_set step inserted level))))"

definition json_insert_with_path :: "json \<Rightarrow> string \<Rightarrow> json \<Rightarrow> string + json" where
  "json_insert_with_path j string_path value = insert_with_path j (json_path_of string_path) value"

section \<open>Schemas\<close>

definition is_schema_type :: "string \<Rightarrow> json \<Rightarrow> bool" where
  "is_schema_type t j \<longleftrightarrow> json_get ''type'' j = Some (JString t)"

definition is_type_of_object :: "json \<Rightarrow> bool" where "is_type_of_object = is_schema_type ''object''"

definition is_type_of_array :: "json \<Rightarrow> bool" where "is_type_of_array = is_schema_type ''array''"

definition is_type_of_string :: "json \<Rightarrow> bool" where "is_type_of_string = is_schema_type ''string''"

definition get_schema_properties :: "json \<Rightarrow> string + json" where
  "get_schema_properties j =
     rbind (ok_or ''isn't an map'' (json_object j)) (\<lambda>m. ok_or ''Couldn't find properties'' (map_of m ''properties''))"

definition get_schema_required_fields :: "json \<Rightarrow> string + string list" where
  "get_schema_required_fields j =
     rbind (ok_or ''the json value is not a map'' (json_object j)) (\<lambda>m.
       case map_of m ''required'' of
         None \<Rightarrow> Inr []
       | Some (JArray required_list) \<Rightarrow>
           ok_or ''unable to convert list of required fields to string'' (option_all (map json_str required_list))
       | Some _ \<Rightarrow> Inl ''the required property is not array'')"

record named_index =
  index_name :: string
  named_properties :: "index_property list"
  named_unique :: bool

text \<open>What \<open>serde\<close> reads of an index: an object with the fields, or an array of their values.\<close>

definition raw_index_property :: "json \<Rightarrow> (string, string) btree option" where
  "raw_index_property j =
     Option.bind (json_object j) (\<lambda>m.
       map_option (foldl (\<lambda>acc e. bt_insert (fst e) (snd e) acc) [])
         (option_all (map (\<lambda>e. map_option (Pair (fst e)) (json_str (snd e))) m)))"

definition raw_index :: "json \<Rightarrow> (string \<times> (string, string) btree list \<times> bool) option" where
  "raw_index j =
     (let read = (\<lambda>name ps un.
            Option.bind (json_str name) (\<lambda>n.
            Option.bind (Option.bind (json_array ps) (\<lambda>vs. option_all (map raw_index_property vs))) (\<lambda>raw_properties.
            Option.bind (case un of None \<Rightarrow> Some False | Some u \<Rightarrow> json_bool u) (\<lambda>u. Some (n, raw_properties, u)))))
      in case j of
           JObject m \<Rightarrow>
             Option.bind (map_of m ''name'') (\<lambda>name.
             Option.bind (map_of m ''properties'') (\<lambda>ps. read name ps (map_of m ''unique'')))
         | JArray [name, ps] \<Rightarrow> read name ps None
         | JArray [name, ps, un] \<Rightarrow> read name ps (Some un)
         | _ \<Rightarrow> None)"

definition named_index_of :: "string \<times> (string, string) btree list \<times> bool \<Rightarrow> string + named_index" where
  "named_index_of r =
     (case r of (name, raw_properties, un) \<Rightarrow>
        rmap (\<lambda>ps. \<lparr>index_name = name, named_properties = ps, named_unique = un\<rparr>)
          (mapM index_property_try_from raw_properties))"

definition get_indices :: "json \<Rightarrow> string + named_index list" where
  "get_indices j =
     (case json_get ''indices'' j of
        Some raw_indices \<Rightarrow>
          rbind (ok_or ''invalid indices'' (Option.bind (json_array raw_indices) (\<lambda>vs. option_all (map raw_index vs))))
            (\<lambda>rs. mapM named_index_of rs)
      | None \<Rightarrow> Inr [])"

section \<open>What was inserted is found under its path\<close>

lemma json_at_inserted: "json_insert j k v = Inr j' \<Longrightarrow> json_at (PathKey k) j' = Some v"
  by (auto simp: json_insert_def rbind_eq_Inr update_conv)

lemma json_at_pushed:
  assumes "json_push (fill_empty_indexes (null_to (JArray []) j) i) v = Inr j'" "json_at (PathIndex i) j = None"
  shows "json_at (PathIndex i) j' = Some v"
  using assms
  by (cases j) (auto simp: json_push_def null_to_def fill_empty_indexes_def rbind_eq_Inr nth_append split: if_splits)

lemma json_at_made:
  assumes "make_level j s t = Inr level"
  shows "\<exists>new_level. json_at s level = Some new_level"
  using assms json_at_inserted json_at_pushed
  by (auto simp: make_level_def split: if_splits json_path_step.splits)

lemma json_at_set: "json_at s level = Some old \<Longrightarrow> json_at s (json_set s v level) = Some v"
  by (cases s; cases level) (auto simp: json_set_def update_conv split: if_splits)

text \<open>C99: a value that was inserted under a path, missing levels being made, is the one found under it.\<close>

theorem inserted_with_path_found:
  assumes "insert_with_path j p v = Inr j'"
  shows "get_value_from_json_path p j' = Some v"
  using assms
proof (induction j p v arbitrary: j' rule: insert_with_path.induct)
  case (2 j i v)
  then show ?case
    by (cases j) (auto simp: insert_into_array_def null_to_def fill_empty_indexes_def rbind_eq_Inr nth_append split: if_splits)
next
  case (3 j k v)
  then show ?case using json_at_inserted[of "null_to (JObject []) j" k v] by simp
next
  case (4 j s t p v)
  then obtain level new_level inserted where l: "make_level j s t = Inr level" "json_at s level = Some new_level"
      "insert_with_path new_level (t # p) v = Inr inserted" "j' = json_set s inserted level"
    by (auto simp: rbind_eq_Inr ok_or_eq_Inr)
  with "4.IH" json_at_set[OF l(2)] show ?case by simp
qed simp

theorem inserted_with_path_found_witness:
  "\<exists>j'. insert_with_path JNull [PathKey ''a'', PathIndex 2, PathKey ''b''] (JInteger 1) = Inr j' \<and>
     get_value_from_json_path [PathKey ''a'', PathIndex 2, PathKey ''b''] j' = Some (JInteger 1)"
proof -
  obtain j' where r: "insert_with_path JNull [PathKey ''a'', PathIndex 2, PathKey ''b''] (JInteger 1) = Inr j'"
    by (simp add: make_level_def null_to_def json_insert_def json_push_def fill_empty_indexes_def nth_append)
  from inserted_with_path_found[OF r] r show ?thesis by blast
qed

end
