(* ===== verification/SchemaRules.thy ===== *)
theory SchemaRules
  imports JsonValues
begin

text \<open>
  The rules a contract has to satisfy, of \<open>dpp/src/data_contract\<close>: the depth of its schema with the references
  followed (\<open>validate_data_contract_max_depth.rs\<close>), patterns and byte arrays (\<open>multi_validator.rs\<close>), its indexes
  (\<open>data_contract_validator.rs\<close>) and how these may change (\<open>validate_indices_are_backward_compatible.rs\<close>). JSON Schema
  validation, regular expressions and \<open>serde\<close> are arguments, and so is the order in which a hash map is iterated.
  A validation result is the list of its errors.
\<close>

section \<open>Consensus errors\<close>

text \<open>
  Of the error enumerations of \<open>dpp/src/errors\<close>, the errors that the modelled validations report.
\<close>

datatype index_error =
    UniqueIndicesLimitReachedError string nat
  | SystemPropertyIndexAlreadyPresentError string named_index string
  | UndefinedIndexPropertyError string named_index string
  | InvalidIndexPropertyTypeError string named_index string string
  | InvalidIndexedPropertyConstraintError string named_index string string nat
  | InvalidCompoundIndexError string named_index
  | DuplicateIndexError string named_index

datatype basic_error =
    DataContractMaxDepthExceedError nat
  | InvalidJsonSchemaRefError string
  | JsonSchemaCompilationError string
  | DuplicateIndexNameError string string
  | IndexErr index_error
  | DataContractUniqueIndicesChangedError string string
  | DataContractInvalidIndexDefinitionUpdateError string string
  | DataContractHaveNewUniqueIndexError string string
  | UnsupportedProtocolVersionError u32 u32
  | IncompatibleProtocolVersionError u32 u32
  | MissingDataContractIdError
  | InvalidIdentifierError string string
  | DataContractNotPresent id32
  | MissingDocumentTypeError
  | InvalidDocumentTypeError string id32
  | MissingDocumentTransitionActionError
  | InvalidDocumentTransitionActionError u64
  | InvalidDocumentTransitionIdError id32 id32
  | DuplicateDocumentTransitionsWithIdsError "(string \<times> bytes) list"
  | InconsistentCompoundIndexDataError "string list" string

datatype state_error =
    DocumentOwnerMismatchError id32 id32 id32
  | InvalidDocumentRevisionError id32 u32
  | DocumentAlreadyPresentError id32
  | DocumentNotFoundError id32
  | DocumentTimestampMismatchError id32
  | DocumentTimestampWindowViolationError string id32 u64 u64 u64
  | DuplicateUniqueIndexError id32 "string list"
  | DataTriggerConditionError id32 id32 string
  | DataTriggerExecutionError id32 id32 string

datatype consensus_error =
    BasicErr basic_error
  | StateErr state_error
  | JsonSchemaErr string
  | IncompatibleRe2PatternError string string string

section \<open>The depth of a schema\<close>

definition MAX_DEPTH :: nat where "MAX_DEPTH = 500"

fun is_container :: "json \<Rightarrow> bool" where
  "is_container (JObject _) = True"
| "is_container (JArray _) = True"
| "is_container _ = False"

text \<open>A resolved value is known by its path, as the code knows it by its address.\<close>

definition resolve_uri :: "json \<Rightarrow> string \<Rightarrow> string + (json_path \<times> json)" where
  "resolve_uri j uri =
     (if \<not> prefix ''#/'' uri then Inl ''only local references are allowed''
      else
        (let p = json_path_of (map (\<lambda>c. if c = CHR ''/'' then CHR ''.'' else c) (drop 2 uri))
         in ok_or ''the property not found'' (map_option (Pair p) (get_value_from_json_path p j))))"

definition queue_entry :: "json \<Rightarrow> nat \<Rightarrow> (json \<times> nat) list \<times> json_path set \<Rightarrow> string \<times> json \<Rightarrow>
    basic_error + ((json \<times> nat) list \<times> json_path set)" where
  "queue_entry doc new_depth st e =
     (case st of (values_depth_queue, visited) \<Rightarrow>
       let pushed = Inr (if is_container (snd e) then (snd e, new_depth) # values_depth_queue else values_depth_queue, visited)
       in if fst e = ''$ref''
          then (case json_str (snd e) of
                  Some uri \<Rightarrow>
                    rbind (map_err (\<lambda>m. InvalidJsonSchemaRefError (''invalid ref '' @ uri @ '': '' @ m)) (resolve_uri doc uri))
                      (\<lambda>(p, resolved).
                        if p \<in> visited then Inl (InvalidJsonSchemaRefError (''the ref '' @ uri @ '' contains cycles''))
                        else Inr ((resolved, new_depth) # values_depth_queue, insert p visited))
                | None \<Rightarrow> pushed)
          else pushed)"

text \<open>The loop over the stack: None if it does not end.\<close>

partial_function (option) calc_depth_loop ::
    "json \<Rightarrow> (json \<times> nat) list \<Rightarrow> nat \<Rightarrow> json_path set \<Rightarrow> (basic_error + nat) option" where
  "calc_depth_loop doc values_depth_queue max_depth visited =
     (case values_depth_queue of
        [] \<Rightarrow> Some (Inr max_depth)
      | (v, depth) # rest_queue \<Rightarrow>
          (case v of
             JObject m \<Rightarrow>
               (case foldM (queue_entry doc (Suc depth)) (rest_queue, visited) m of
                  Inl e \<Rightarrow> Some (Inl e)
                | Inr (queue', visited') \<Rightarrow> calc_depth_loop doc queue' (max max_depth (Suc depth)) visited')
           | JArray vs \<Rightarrow>
               calc_depth_loop doc (rev (map (\<lambda>w. (w, Suc depth)) (filter is_container vs)) @ rest_queue)
                 (max max_depth (Suc depth)) visited
           | _ \<Rightarrow> calc_depth_loop doc rest_queue max_depth {}))"

definition calc_max_depth :: "json \<Rightarrow> (basic_error + nat) option" where
  "calc_max_depth j = calc_depth_loop j [(j, 0)] 0 {}"

definition validate_data_contract_max_depth :: "json \<Rightarrow> consensus_error list option" where
  "validate_data_contract_max_depth raw_data_contract =
     map_option (\<lambda>r. case r of
         Inl e \<Rightarrow> [BasicErr e]
       | Inr schema_depth \<Rightarrow> if schema_depth > MAX_DEPTH then [BasicErr (DataContractMaxDepthExceedError MAX_DEPTH)] else [])
       (calc_max_depth raw_data_contract)"

section \<open>Patterns and byte arrays\<close>

type_synonym sub_validator = "string \<Rightarrow> string \<Rightarrow> json \<Rightarrow> json \<Rightarrow> consensus_error list"

definition run_validators :: "sub_validator list \<Rightarrow> string \<Rightarrow> json \<Rightarrow> string \<times> json \<Rightarrow> consensus_error list" where
  "run_validators validators path parent e = concat (map (\<lambda>f. f path (fst e) parent (snd e)) validators)"

definition map_children :: "string \<Rightarrow> (string \<times> json) list \<Rightarrow> (json \<times> string) list" where
  "map_children path m =
     map (\<lambda>(k, v). (v, path @ ''/'' @ k)) (filter (\<lambda>e. is_container (snd e)) m)"

definition array_children :: "string \<Rightarrow> json list \<Rightarrow> (json \<times> string) list" where
  "array_children path vs =
     map (\<lambda>(i, v). (v, path @ ''/['' @ decimal i @ '']''))
       (filter (\<lambda>e. json_object (snd e) \<noteq> None) (enumerate 0 vs))"

lemma map_children_size: "(\<Sum>x\<leftarrow>map_children path m. Suc (size (fst x))) \<le> size_list (size_prod (\<lambda>_. 0) size) m"
  by (induction m) (auto simp: map_children_def)

lemma array_children_size: "(\<Sum>x\<leftarrow>array_children path vs. Suc (size (fst x))) \<le> size_list size vs"
proof -
  have "(\<Sum>x\<leftarrow>map (\<lambda>(i, v). (v, g i)) (filter (\<lambda>e. json_object (snd e) \<noteq> None) (enumerate n vs)). Suc (size (fst x))) \<le> size_list size vs" for n and g :: "nat \<Rightarrow> string"
    by (induction vs arbitrary: n) (simp_all add: le_SucI trans_le_add2)
  then show ?thesis by (simp add: array_children_def)
qed

function multi_validate :: "sub_validator list \<Rightarrow> (json \<times> string) list \<Rightarrow> consensus_error list" where
  "multi_validate validators [] = []"
| "multi_validate validators ((v, path) # values_queue) =
     (case v of
        JObject current_map \<Rightarrow>
          concat (map (run_validators validators path v) current_map) @
          multi_validate validators (rev (map_children path current_map) @ values_queue)
      | JArray arr \<Rightarrow> multi_validate validators (rev (array_children path arr) @ values_queue)
      | _ \<Rightarrow> multi_validate validators values_queue)"
  by pat_completeness auto

termination
  by (relation "measure (\<lambda>(_, q). \<Sum>x\<leftarrow>q. Suc (size (fst x)))") 
    (auto simp: rev_map[symmetric] sum_list_rev intro: le_less_trans[OF map_children_size] le_less_trans[OF array_children_size])

definition pattern_is_valid_regex_validator :: "(string \<Rightarrow> string option) \<Rightarrow> sub_validator" where
  "pattern_is_valid_regex_validator regex_error path k parent v =
     (if k = ''pattern''
      then (case Option.bind (json_str v) (\<lambda>pattern. map_option (Pair pattern) (regex_error pattern)) of
              Some (pattern, msg) \<Rightarrow> [IncompatibleRe2PatternError pattern path msg]
            | None \<Rightarrow> [])
      else [])"

definition byte_array_has_no_items_as_parent_validator :: sub_validator where
  "byte_array_has_no_items_as_parent_validator path k parent v =
     (if k = ''byteArray'' \<and> json_bool v \<noteq> None \<and> (json_get ''items'' parent \<noteq> None \<or> json_get ''prefixItems'' parent \<noteq> None)
      then [BasicErr (JsonSchemaCompilationError
              (''invalid path: '' @ path @ '': byteArray cannot be used with items or prefixItems''))]
      else [])"

section \<open>Base schema and definitions\<close>

text \<open>The entries of the first object replace and extend those of the second.\<close>

definition json_extend :: "(string \<times> json) list \<Rightarrow> (string \<times> json) list \<Rightarrow> (string \<times> json) list" where
  "json_extend entries m = foldl (\<lambda>acc e. AList.update (fst e) (snd e) acc) m entries"

definition set_entry :: "string \<Rightarrow> json \<Rightarrow> json \<Rightarrow> json" where
  "set_entry k v j = (case j of JObject m \<Rightarrow> JObject (AList.update k v m) | _ \<Rightarrow> j)"

definition enrich_document :: "(string \<times> json) list \<Rightarrow> string list \<Rightarrow> string list \<Rightarrow> json \<Rightarrow> json" where
  "enrich_document base_properties base_required exclude_properties d =
     (let d = (case json_get ''properties'' d of
                 Some (JObject ps) \<Rightarrow> set_entry ''properties'' (JObject (json_extend base_properties ps)) d
               | _ \<Rightarrow> d)
      in case json_get ''required'' d of
           Some (JArray required) \<Rightarrow>
             set_entry ''required'' (JArray (filter (\<lambda>p. case p of JString v \<Rightarrow> v \<notin> set exclude_properties | _ \<Rightarrow> True)
               (required @ map JString base_required))) d
         | _ \<Rightarrow> d)"

definition enrich_data_contract_with_base_schema :: "json data_contract \<Rightarrow> json \<Rightarrow> u8 \<Rightarrow> string list \<Rightarrow>
    protocol_error + json data_contract" where
  "enrich_data_contract_with_base_schema data_contract base_schema schema_id_byte_prefix exclude_properties =
     anyhow (rbind (get_schema_properties base_schema) (\<lambda>ps.
       rbind (ok_or ''properties is not a map'' (json_object ps)) (\<lambda>base_properties.
       rbind (get_schema_required_fields base_schema) (\<lambda>base_required.
         Inr (data_contract\<lparr>schema := '''',
           documents := map (\<lambda>e. (fst e, enrich_document base_properties base_required exclude_properties (snd e)))
             (documents data_contract),
           contract_id := replicate 4 schema_id_byte_prefix @ drop 4 (contract_id data_contract)\<rparr>)))))"

definition property_step :: "json \<Rightarrow> string \<Rightarrow> string + json" where
  "property_step current_value path =
     (case json_get_string current_value ''type'' of
        Inr t \<Rightarrow>
          if t = ''object''
          then rbind (get_schema_properties current_value) (\<lambda>ps. ok_or ''unable to find the property'' (json_get path ps))
          else if t = ''array''
          then rbind (ok_or ''the array doesn't contain items'' (json_get ''items'' current_value)) (\<lambda>array_items.
                 if \<not> is_type_of_object array_items then Inl ''the items isn't type of object''
                 else rbind (get_schema_properties array_items) (\<lambda>ps. ok_or ''unable to find the property'' (json_get path ps)))
          else Inl ''is not array or object''
      | Inl _ \<Rightarrow> Inl ''is not array or object'')"

definition get_property_definition_by_path :: "json \<Rightarrow> json \<Rightarrow> string \<Rightarrow> string + json" where
  "get_property_definition_by_path base_document_schema document_definition path =
     (if prefix ''$'' path then get_value base_document_schema (''properties.'' @ path)
      else
        rbind (get_schema_properties document_definition) (\<lambda>ps.
        rbind (ok_or ''the top-level property cannot be found'' (json_get (hd (split_dots path)) ps)) (\<lambda>current_value.
          foldM property_step current_value (tl (split_dots path)))))"

section \<open>Indexes of a contract\<close>

definition MAX_INDEXED_STRING_PROPERTY_LENGTH :: u64 where "MAX_INDEXED_STRING_PROPERTY_LENGTH = 63"
definition UNIQUE_INDEX_LIMIT :: nat where "UNIQUE_INDEX_LIMIT = 3"
definition NOT_ALLOWED_SYSTEM_PROPERTIES :: "string list" where "NOT_ALLOWED_SYSTEM_PROPERTIES = [''$id'']"
definition ALLOWED_INDEX_SYSTEM_PROPERTIES :: "string list" where
  "ALLOWED_INDEX_SYSTEM_PROPERTIES = [''$ownerId'', ''$createdAt'', ''$updatedAt'']"
definition MAX_INDEXED_BYTE_ARRAY_PROPERTY_LENGTH :: u64 where "MAX_INDEXED_BYTE_ARRAY_PROPERTY_LENGTH = 255"
definition MAX_INDEXED_ARRAY_ITEMS :: u64 where "MAX_INDEXED_ARRAY_ITEMS = 1024"

definition named_names :: "named_index \<Rightarrow> string list" where
  "named_names ix = map property_name (named_properties ix)"

definition validate_no_system_indices :: "named_index \<Rightarrow> string \<Rightarrow> consensus_error list" where
  "validate_no_system_indices ix document_type =
     map (\<lambda>n. BasicErr (IndexErr (SystemPropertyIndexAlreadyPresentError document_type ix n)))
       (filter (\<lambda>n. n \<in> set NOT_ALLOWED_SYSTEM_PROPERTIES) (named_names ix))"

text \<open>A name is reported when it is met for the second time.\<close>

fun duplicates_from :: "'a list \<Rightarrow> 'a list \<Rightarrow> 'a list" where
  "duplicates_from seen [] = []"
| "duplicates_from seen (x # xs) =
     (if count_list seen x = 1 then [x] else []) @ duplicates_from (seen @ [x]) xs"

definition validate_index_duplicates :: "named_index list \<Rightarrow> string \<Rightarrow> consensus_error list" where
  "validate_index_duplicates ixs document_type =
     map (\<lambda>n. BasicErr (DuplicateIndexNameError document_type n)) (duplicates_from [] (map index_name ixs))"

definition validate_max_unique_indices :: "named_index list \<Rightarrow> string \<Rightarrow> consensus_error list" where
  "validate_max_unique_indices ixs document_type =
     (if length (filter named_unique ixs) > UNIQUE_INDEX_LIMIT
      then [BasicErr (IndexErr (UniqueIndicesLimitReachedError document_type UNIQUE_INDEX_LIMIT))] else [])"

definition too_long :: "json \<Rightarrow> string \<Rightarrow> u64 \<Rightarrow> bool" where
  "too_long property_definition constraint limit \<longleftrightarrow>
     (case json_get_u64 property_definition constraint of Inr n \<Rightarrow> limit < n | Inl _ \<Rightarrow> True)"

definition validate_property_definition :: "string \<Rightarrow> json \<Rightarrow> string \<Rightarrow> named_index \<Rightarrow> consensus_error list" where
  "validate_property_definition n property_definition document_type ix =
     (let is_byte_array = is_type_of_byte_array property_definition;
          invalid_property_type =
            (if is_type_of_array property_definition \<and> \<not> is_byte_array then ''array''
             else if is_type_of_object property_definition then ''object'' else '''');
          max_limit = (if is_byte_array then MAX_INDEXED_BYTE_ARRAY_PROPERTY_LENGTH else MAX_INDEXED_ARRAY_ITEMS)
      in (if invalid_property_type \<noteq> ''''
          then [BasicErr (IndexErr (InvalidIndexPropertyTypeError document_type ix n invalid_property_type))] else []) @
         (if invalid_property_type = '''' \<and> is_type_of_array property_definition \<and> too_long property_definition ''maxItems'' max_limit
          then [BasicErr (IndexErr (InvalidIndexedPropertyConstraintError document_type ix n ''maxItems'' (unat max_limit)))] else []) @
         (if is_type_of_string property_definition \<and>
             too_long property_definition ''maxLength'' MAX_INDEXED_STRING_PROPERTY_LENGTH
          then [BasicErr (IndexErr (InvalidIndexedPropertyConstraintError document_type ix n ''maxLength''
                  (unat MAX_INDEXED_STRING_PROPERTY_LENGTH)))] else []))"

text \<open>What a validation depends on that is not in the sources.\<close>

record rules_env =
  hash_order :: "string list \<Rightarrow> string list"
  base_document_schema :: json

definition user_properties :: "rules_env \<Rightarrow> named_index \<Rightarrow> string list" where
  "user_properties E ix =
     hash_order E (remdups (filter (\<lambda>n. n \<notin> set ALLOWED_INDEX_SYSTEM_PROPERTIES) (named_names ix)))"

definition validate_not_defined_properties :: "(string \<times> json option) list \<Rightarrow> named_index \<Rightarrow> string \<Rightarrow> consensus_error list" where
  "validate_not_defined_properties ps ix document_type =
     map (\<lambda>e. BasicErr (IndexErr (UndefinedIndexPropertyError document_type ix (fst e)))) (filter (\<lambda>e. snd e = None) ps)"

definition compound_index_inconsistent :: "json \<Rightarrow> named_index \<Rightarrow> bool" where
  "compound_index_inconsistent document_schema ix \<longleftrightarrow>
     (let required_fields = (case get_schema_required_fields document_schema of Inr r \<Rightarrow> r | Inl _ \<Rightarrow> [])
      in \<not> set (named_names ix) \<subseteq> set required_fields \<and> \<not> set (named_names ix) \<inter> set required_fields = {})"

text \<open>
  The result with the properties of the compound indexes met, or the result alone when the validation stops. Indexes with the
  same properties have the same fingerprint.
\<close>

definition validate_index_definition :: "rules_env \<Rightarrow> string \<Rightarrow> json \<Rightarrow> consensus_error list \<times> index_property list list \<Rightarrow>
    named_index \<Rightarrow> consensus_error list + (consensus_error list \<times> index_property list list)" where
  "validate_index_definition E document_type document_schema st ix =
     (case st of (result, fingerprints) \<Rightarrow>
       let entities = map (\<lambda>n. (n, case get_property_definition_by_path (base_document_schema E) document_schema n of
                                     Inr d \<Rightarrow> Some d | Inl _ \<Rightarrow> None)) (user_properties E ix);
           result = result @ validate_no_system_indices ix document_type;
           undefined_errors = validate_not_defined_properties entities ix document_type
       in if undefined_errors \<noteq> [] then Inl (result @ undefined_errors)
          else
            (let result = result @ concat (map (\<lambda>e. validate_property_definition (fst e) (the (snd e)) document_type ix) entities)
             in if length (named_properties ix) > 1
                then Inr (result @
                       (if compound_index_inconsistent document_schema ix
                        then [BasicErr (IndexErr (InvalidCompoundIndexError document_type ix))] else []) @
                       (if named_properties ix \<in> set fingerprints
                        then [BasicErr (IndexErr (DuplicateIndexError document_type ix))] else []),
                     fingerprints @ [named_properties ix])
                else Inr (result, fingerprints)))"

definition validate_index_definitions :: "rules_env \<Rightarrow> named_index list \<Rightarrow> string \<Rightarrow> json \<Rightarrow> consensus_error list \<times> bool" where
  "validate_index_definitions E ixs document_type document_schema =
     (case foldM (validate_index_definition E document_type document_schema) ([], []) ixs of
        Inl result \<Rightarrow> (result, True)
      | Inr (result, _) \<Rightarrow> (result, False))"

text \<open>The document types of a contract that have indexes, one after the other.\<close>

fun validate_contract_indices :: "rules_env \<Rightarrow> (string \<times> json) list \<Rightarrow> protocol_error + consensus_error list" where
  "validate_contract_indices E [] = Inr []"
| "validate_contract_indices E ((document_type, document_schema) # ds) =
     (if json_get ''indices'' document_schema = None then validate_contract_indices E ds
      else
        rbind (anyhow (get_indices document_schema)) (\<lambda>ixs.
          let (definition_errors, stop) = validate_index_definitions E ixs document_type document_schema;
              errors = validate_index_duplicates ixs document_type @ validate_max_unique_indices ixs document_type @ definition_errors
          in if stop then Inr errors else rmap ((@) errors) (validate_contract_indices E ds)))"

section \<open>The validation of a contract\<close>

record protocol_version_validator =
  current_protocol_version :: u32
  latest_protocol_version :: u32
  compatibility_map :: "u32 \<rightharpoonup> u32"

definition validate_protocol_version :: "protocol_version_validator \<Rightarrow> u32 \<Rightarrow> protocol_error + consensus_error list" where
  "validate_protocol_version V pv =
     (if latest_protocol_version V < pv
      then Inr [BasicErr (UnsupportedProtocolVersionError pv (latest_protocol_version V))]
      else
        (let max_protocol_version = max pv (current_protocol_version V);
             min_protocol_version = min pv (current_protocol_version V)
         in case compatibility_map V max_protocol_version of
              Some minimal_compatible \<Rightarrow>
                Inr (if min_protocol_version < minimal_compatible
                     then [BasicErr (IncompatibleProtocolVersionError pv minimal_compatible)] else [])
            | None \<Rightarrow> Inl (ProtocolVersionNotDefined max_protocol_version)))"

record contract_env = rules_env +
  meta_schema_errors :: "json \<Rightarrow> protocol_error + consensus_error list"
  document_schema_errors :: "json \<Rightarrow> consensus_error list"
  regex_error :: "string \<Rightarrow> string option"
  raw_contract :: "json \<Rightarrow> protocol_error + json data_contract"
  version_validator :: protocol_version_validator

text \<open>A step runs when the steps before it found no error.\<close>

definition and_valid :: "(protocol_error + consensus_error list) option \<Rightarrow> (protocol_error + consensus_error list) option \<Rightarrow>
    (protocol_error + consensus_error list) option" where
  "and_valid r next_step = (case r of Some (Inr []) \<Rightarrow> next_step | _ \<Rightarrow> r)"

text \<open>None if the depth of the schema is not found.\<close>

definition validate_data_contract :: "contract_env \<Rightarrow> json \<Rightarrow> (protocol_error + consensus_error list) option" where
  "validate_data_contract E raw_data_contract =
     and_valid (Some (meta_schema_errors E raw_data_contract))
    (and_valid (Some (rbind (map_err (\<lambda>_. AnyhowError ''protocolVersion isn't unsigned integer'')
        (json_get_u64 raw_data_contract ''protocolVersion'')) (\<lambda>v. validate_protocol_version (version_validator E) (ucast v))))
    (and_valid (map_option Inr (validate_data_contract_max_depth raw_data_contract))
    (and_valid (Some (Inr (multi_validate
        [pattern_is_valid_regex_validator (regex_error E), byte_array_has_no_items_as_parent_validator] [(raw_data_contract, '''')])))
    (case rbind (raw_contract E raw_data_contract) (\<lambda>data_contract.
            enrich_data_contract_with_base_schema data_contract (base_document_schema E) 0 []) of
       Inl e \<Rightarrow> Some (Inl e)
     | Inr enriched \<Rightarrow>
         and_valid (Some (Inr (concat (map (\<lambda>e. document_schema_errors E (snd e)) (documents enriched)))))
           (Some (validate_contract_indices (rules_env.truncate E) (documents enriched)))))))"

section \<open>Updates of indexes\<close>

text \<open>The indexes of the new schema by name: the last of each name.\<close>

definition to_index_by_name :: "named_index list \<Rightarrow> (string \<times> named_index) list" where
  "to_index_by_name ixs = foldl (\<lambda>acc i. AList.update (index_name i) i acc) [] ixs"

definition index_values_of :: "rules_env \<Rightarrow> (string \<times> named_index) list \<Rightarrow> named_index list" where
  "index_values_of E by_name = map (\<lambda>k. the (map_of by_name k)) (hash_order E (map fst by_name))"

definition get_changed_old_unique_index :: "named_index list \<Rightarrow> (string \<times> named_index) list \<Rightarrow> named_index option" where
  "get_changed_old_unique_index existing_indices new_indices =
     List.find (\<lambda>i. map_of new_indices (index_name i) \<noteq> Some i \<and> named_unique i) existing_indices"

fun get_wrongly_updated_non_unique_index :: "named_index list \<Rightarrow> (string \<times> named_index) list \<Rightarrow> json \<Rightarrow>
    protocol_error + named_index option" where
  "get_wrongly_updated_non_unique_index [] new_indices existing_schema = Inr None"
| "get_wrongly_updated_non_unique_index (i # existing) new_indices existing_schema =
     (if named_unique i then get_wrongly_updated_non_unique_index existing new_indices existing_schema
      else
        (case map_of new_indices (index_name i) of
           None \<Rightarrow> get_wrongly_updated_non_unique_index existing new_indices existing_schema
         | Some n \<Rightarrow>
             (let len = length (named_properties i)
              in if length (named_properties n) < len then Inl (ProtocolPanic ''range end index out of range for slice'')
                 else if take len (named_properties n) \<noteq> named_properties i then Inr (Some i)
                 else if list_ex (\<lambda>p. \<not> isl (get_value existing_schema (property_name p))) (drop len (named_properties n))
                 then Inr (Some i)
                 else get_wrongly_updated_non_unique_index existing new_indices existing_schema)))"

definition get_new_unique_index :: "named_index list \<Rightarrow> named_index list \<Rightarrow> named_index option" where
  "get_new_unique_index existing_indices new_indices =
     List.find named_unique (filter (\<lambda>i. index_name i \<notin> index_name ` set existing_indices) new_indices)"

definition get_all_possible_sequences_of_properties :: "named_index \<Rightarrow> index_property list list" where
  "get_all_possible_sequences_of_properties ix = map (\<lambda>i. take (Suc i) (named_properties ix)) [0..<length (named_properties ix)]"

definition get_wrongly_constructed_new_index :: "named_index list \<Rightarrow> named_index list \<Rightarrow> named_index option" where
  "get_wrongly_constructed_new_index existing_indices new_indices =
     (let indexed = concat (map named_names existing_indices);
          sequences = concat (map get_all_possible_sequences_of_properties existing_indices)
      in List.find (\<lambda>n.
           let existing_len = length (filter (\<lambda>p. property_name p \<in> set indexed) (named_properties n))
           in existing_len \<noteq> 0 \<and> take existing_len (named_properties n) \<notin> set sequences)
         (filter (\<lambda>i. index_name i \<notin> index_name ` set existing_indices) new_indices))"

definition index_change :: "(string \<Rightarrow> string \<Rightarrow> basic_error) \<Rightarrow> string \<Rightarrow> named_index option \<Rightarrow> consensus_error list" where
  "index_change err document_type ix = (case ix of Some i \<Rightarrow> [BasicErr (err document_type (index_name i))] | None \<Rightarrow> [])"

definition validate_indices_of_type :: "rules_env \<Rightarrow> (string \<times> json) list \<Rightarrow> string \<times> json \<Rightarrow>
    protocol_error + consensus_error list" where
  "validate_indices_of_type E new_documents e =
     (case e of (document_type, existing_schema) \<Rightarrow>
        rbind (ok_or (AnyhowError ''the document type doesn't exist in new definitions'') (map_of new_documents document_type))
          (\<lambda>new_schema.
        rbind (anyhow (get_indices new_schema)) (\<lambda>new_indices.
          let by_name = to_index_by_name new_indices;
              existing = (case get_indices existing_schema of Inr ixs \<Rightarrow> ixs | Inl _ \<Rightarrow> [])
          in rbind (get_wrongly_updated_non_unique_index existing by_name existing_schema) (\<lambda>wrongly_updated.
               Inr (index_change DataContractUniqueIndicesChangedError document_type (get_changed_old_unique_index existing by_name) @
                    index_change DataContractInvalidIndexDefinitionUpdateError document_type wrongly_updated @
                    index_change DataContractHaveNewUniqueIndexError document_type
                      (get_new_unique_index existing (index_values_of E by_name)) @
                    index_change DataContractInvalidIndexDefinitionUpdateError document_type
                      (get_wrongly_constructed_new_index existing (index_values_of E by_name)))))))"

definition validate_indices_are_backward_compatible :: "rules_env \<Rightarrow> (string \<times> json) list \<Rightarrow> (string \<times> json) list \<Rightarrow>
    protocol_error + consensus_error list" where
  "validate_indices_are_backward_compatible E existing_documents new_documents =
     rmap concat (mapM (validate_indices_of_type E new_documents) existing_documents)"


end
