(* ===== verification/SchemaDepth.thy ===== *)
theory SchemaDepth
  imports SchemaRules
begin

text \<open>
  The depth of a schema, \<open>validate_data_contract_max_depth.rs\<close>: when the loop that follows the references ends, what it finds
  without references, a schema for which it does not end, and one it refuses although it has no cycle.
\<close>

section \<open>References that never end\<close>

text \<open>Properties of an object that only refers to a definition.\<close>

definition ref_to :: "string \<Rightarrow> json" where
  "ref_to name = JObject [(''$ref'', JString (''#/'' @ name))]"

text \<open>A definition that refers to itself beside a property that refers to a scalar: each round forgets what was visited.\<close>

definition endless_schema :: json where
  "endless_schema = JObject [(''a'', JObject [(''$ref'', JString ''#/a''), (''b'', ref_to ''c'')]), (''c'', JString ''text'')]"

lemma endless_resolves:
  "resolve_uri endless_schema ''#/a'' = Inr ([PathKey ''a''], JObject [(''$ref'', JString ''#/a''), (''b'', ref_to ''c'')])"
  "resolve_uri endless_schema ''#/c'' = Inr ([PathKey ''c''], JString ''text'')"
  by (simp_all add: resolve_uri_def json_path_of_def try_parse_indexed_field_def endless_schema_def)

text \<open>The three states the loop goes through.\<close>

definition endless_state :: "(json \<times> nat) list \<Rightarrow> json_path set \<Rightarrow> bool" where
  "endless_state q visited \<longleftrightarrow>
     (\<exists>d rest_queue. q = (JObject [(''$ref'', JString ''#/a''), (''b'', ref_to ''c'')], d) # rest_queue \<and> visited \<subseteq> {}) \<or>
     (\<exists>d d' rest_queue. q = (ref_to ''c'', d') # (JObject [(''$ref'', JString ''#/a''), (''b'', ref_to ''c'')], d) # rest_queue \<and>
        visited = {[PathKey ''a'']}) \<or>
     (\<exists>d d' rest_queue. q = (JString ''text'', d') # (JObject [(''$ref'', JString ''#/a''), (''b'', ref_to ''c'')], d) # rest_queue)"

lemma endless_loop:
  assumes "calc_depth_loop doc q n visited = Some r"
  shows "doc = endless_schema \<longrightarrow> \<not> endless_state q visited"
proof (rule calc_depth_loop.raw_induct[where P = "\<lambda>doc q n visited r. doc = endless_schema \<longrightarrow> \<not> endless_state q visited", OF _ assms], goal_cases)
  case (1 loop doc q n visited r)
  note ih = 1(1) and body = 1(2)
  show ?case
  proof (intro impI notI)
    let ?X = "JObject [(''$ref'', JString ''#/a''), (''b'', ref_to ''c'')]"
    assume doc: "doc = endless_schema" and "endless_state q visited"
    then consider d rest_queue where "q = (?X, d) # rest_queue" "visited = {}"
      | d d' rest_queue where "q = (ref_to ''c'', d') # (?X, d) # rest_queue" "visited = {[PathKey ''a'']}"
      | d d' rest_queue where "q = (JString ''text'', d') # (?X, d) # rest_queue"
      by (auto simp: endless_state_def)
    then show False
    proof cases
      case (1 d rest_queue)
      then have "loop endless_schema ((ref_to ''c'', Suc d) # (?X, Suc d) # rest_queue) (max n (Suc d)) {[PathKey ''a'']} = Some r"
        using body doc by (simp add: queue_entry_def Let_def endless_resolves ref_to_def)
      from ih[OF this] show False by (auto simp: endless_state_def)
    next
      case (2 d d' rest_queue)
      then have "loop endless_schema ((JString ''text'', Suc d') # (?X, d) # rest_queue) (max n (Suc d'))
          {[PathKey ''c''], [PathKey ''a'']} = Some r"
        using body doc by (simp add: queue_entry_def Let_def endless_resolves ref_to_def)
      from ih[OF this] show False by (auto simp: endless_state_def)
    next
      case (3 d d' rest_queue)
      then have "loop endless_schema ((?X, d) # rest_queue) n {} = Some r"
        using body doc by simp
      from ih[OF this] show False by (auto simp: endless_state_def)
    qed
  qed
qed

text \<open>C99: the depth of a schema in which a definition refers to itself and, in a property, to a scalar is never found: the
  scalar makes the loop forget the references it followed.\<close>

theorem reference_cycle_diverges: "validate_data_contract_max_depth endless_schema = None"
proof -
  let ?X = "JObject [(''$ref'', JString ''#/a''), (''b'', ref_to ''c'')]"
  have "calc_depth_loop endless_schema [(?X, 1)] 1 {} = None"
    using endless_loop[of endless_schema "[(?X, 1)]" 1 "{}"]
    by (cases "calc_depth_loop endless_schema [(?X, 1)] 1 {}") (auto simp: endless_state_def)
  moreover have "calc_max_depth endless_schema = calc_depth_loop endless_schema [(?X, 1)] 1 {}"
    unfolding calc_max_depth_def
    by (subst calc_depth_loop.simps) (simp add: endless_schema_def queue_entry_def)
  ultimately show ?thesis by (simp add: validate_data_contract_max_depth_def)
qed

section \<open>Schemas without endless references\<close>

text \<open>The references of a schema, and how deep its containers are nested.\<close>

fun json_refs :: "json \<Rightarrow> string list"
and entry_refs :: "(string \<times> json) list \<Rightarrow> string list"
and list_refs :: "json list \<Rightarrow> string list" where
  "json_refs j = (case j of JObject m \<Rightarrow> entry_refs m | JArray vs \<Rightarrow> list_refs vs | _ \<Rightarrow> [])"
| "entry_refs [] = []"
| "entry_refs ((k, v) # es) =
     (case json_str v of Some uri \<Rightarrow> if k = ''$ref'' then [uri] else [] | None \<Rightarrow> []) @ json_refs v @ entry_refs es"
| "list_refs [] = []"
| "list_refs (v # vs) = json_refs v @ list_refs vs"

fun json_depth :: "json \<Rightarrow> nat"
and entries_depth :: "(string \<times> json) list \<Rightarrow> nat"
and list_depth :: "json list \<Rightarrow> nat" where
  "json_depth j = (case j of JObject m \<Rightarrow> Suc (entries_depth m) | JArray vs \<Rightarrow> Suc (list_depth vs) | _ \<Rightarrow> 0)"
| "entries_depth [] = 0"
| "entries_depth ((k, v) # es) = max (json_depth v) (entries_depth es)"
| "list_depth [] = 0"
| "list_depth (v # vs) = max (json_depth v) (list_depth vs)"

definition queue_depth :: "(json \<times> nat) list \<Rightarrow> nat" where
  "queue_depth q = foldr (\<lambda>x. max (snd x + json_depth (fst x))) q 0"

definition queue_size :: "(json \<times> nat) list \<Rightarrow> nat" where
  "queue_size q = (\<Sum>x\<leftarrow>q. Suc (size (fst x)))"

lemma queue_depth_simps [simp]:
  "queue_depth [] = 0" "queue_depth (x # q) = max (snd x + json_depth (fst x)) (queue_depth q)"
  by (simp_all add: queue_depth_def)

lemma queue_depth_append [simp]: "queue_depth (p @ q) = max (queue_depth p) (queue_depth q)"
  by (induction p) (simp_all add: max.assoc)

lemma queue_depth_rev [simp]: "queue_depth (rev q) = queue_depth q"
  by (induction q) (simp_all add: max.commute)

lemma queue_size_simps [simp]:
  "queue_size [] = 0" "queue_size (x # q) = Suc (size (fst x)) + queue_size q"
  "queue_size (p @ q) = queue_size p + queue_size q" "queue_size (rev q) = queue_size q"
  by (simp_all add: queue_size_def sum_list_rev rev_map[symmetric])

definition entry_children :: "nat \<Rightarrow> (string \<times> json) list \<Rightarrow> (json \<times> nat) list" where
  "entry_children d m = map (\<lambda>e. (snd e, d)) (filter (\<lambda>e. is_container (snd e)) m)"

definition list_children :: "nat \<Rightarrow> json list \<Rightarrow> (json \<times> nat) list" where
  "list_children d vs = map (\<lambda>w. (w, d)) (filter is_container vs)"

lemma scalar_simps: "\<not> is_container v \<Longrightarrow> json_depth v = 0 \<and> json_refs v = []"
  by (cases v) auto

lemma entry_children_facts:
  "queue_size (entry_children d m) \<le> size_list (size_prod (\<lambda>_. 0) size) m"
  "max d (queue_depth (entry_children d m)) = d + entries_depth m"
  "entry_refs m = [] \<Longrightarrow> \<forall>x \<in> set (entry_children d m). json_refs (fst x) = [] \<and> is_container (fst x)"
  by (induction m) (auto simp: entry_children_def scalar_simps simp del: json_refs.simps json_depth.simps)

lemma list_children_facts:
  "queue_size (list_children d vs) \<le> size_list size vs"
  "max d (queue_depth (list_children d vs)) = d + list_depth vs"
  "list_refs vs = [] \<Longrightarrow> \<forall>x \<in> set (list_children d vs). json_refs (fst x) = [] \<and> is_container (fst x)"
  by (induction vs) (auto simp: list_children_def scalar_simps simp del: json_refs.simps json_depth.simps)

lemma queue_entries_no_refs:
  assumes "entry_refs m = []"
  shows "foldM (queue_entry doc d) (q, visited) m = Inr (rev (entry_children d m) @ q, visited)"
  using assms
  by (induction m arbitrary: q)
    (auto simp: queue_entry_def entry_children_def Let_def split: option.splits if_splits simp del: json_refs.simps)

text \<open>Values without references are left behind with their depth.\<close>

lemma calc_depth_no_refs:
  assumes "\<forall>x \<in> set ws. json_refs (fst x) = [] \<and> is_container (fst x)"
  shows "calc_depth_loop doc (ws @ q) n visited = calc_depth_loop doc q (max n (queue_depth ws)) visited"
  using assms
proof (induction "queue_size ws" arbitrary: ws n rule: less_induct)
  case less
  show ?case
  proof (cases ws)
    case (Cons x ws')
    obtain v d where x: "x = (v, d)" by force
    have v: "json_refs v = []" "is_container v" and ws': "\<forall>x \<in> set ws'. json_refs (fst x) = [] \<and> is_container (fst x)"
      using less.prems Cons x by (auto simp del: json_refs.simps)
    consider m where "v = JObject m" "entry_refs m = []" | vs where "v = JArray vs" "list_refs vs = []"
      using v by (cases v) auto
    then show ?thesis
    proof cases
      case (1 m)
      let ?cs = "rev (entry_children (Suc d) m)"
      have "calc_depth_loop doc (ws @ q) n visited = calc_depth_loop doc ((?cs @ ws') @ q) (max n (Suc d)) visited"
        using Cons x 1 queue_entries_no_refs[OF 1(2)] by (subst calc_depth_loop.simps) simp
      also have "\<dots> = calc_depth_loop doc q (max (max n (Suc d)) (queue_depth (?cs @ ws'))) visited"
      proof (rule less.hyps)
        show "queue_size (?cs @ ws') < queue_size ws" using entry_children_facts(1)[of "Suc d" m] Cons x 1 by simp
        show "\<forall>x \<in> set (?cs @ ws'). json_refs (fst x) = [] \<and> is_container (fst x)"
          using entry_children_facts(3)[OF 1(2)] ws' by (simp del: json_refs.simps) blast
      qed
      also have "max (max n (Suc d)) (queue_depth (?cs @ ws')) = max n (queue_depth ws)"
        using entry_children_facts(2)[of "Suc d" m] Cons x 1 by simp
      finally show ?thesis .
    next
      case (2 vs)
      let ?cs = "rev (list_children (Suc d) vs)"
      have "calc_depth_loop doc (ws @ q) n visited = calc_depth_loop doc ((?cs @ ws') @ q) (max n (Suc d)) visited"
        using Cons x 2 by (subst calc_depth_loop.simps) (simp add: list_children_def)
      also have "\<dots> = calc_depth_loop doc q (max (max n (Suc d)) (queue_depth (?cs @ ws'))) visited"
      proof (rule less.hyps)
        show "queue_size (?cs @ ws') < queue_size ws" using list_children_facts(1)[of "Suc d" vs] Cons x 2 by simp
        show "\<forall>x \<in> set (?cs @ ws'). json_refs (fst x) = [] \<and> is_container (fst x)"
          using list_children_facts(3)[OF 2(2)] ws' by (simp del: json_refs.simps) blast
      qed
      also have "max (max n (Suc d)) (queue_depth (?cs @ ws')) = max n (queue_depth ws)"
        using list_children_facts(2)[of "Suc d" vs] Cons x 2 by simp
      finally show ?thesis .
    qed
  qed simp
qed

lemma calc_depth_done [simp]: "calc_depth_loop doc [] n visited = Some (Inr n)"
  by (subst calc_depth_loop.simps) simp

text \<open>C99: for a schema without references the depth is that of its nested objects and arrays.\<close>

theorem schema_depth_exact:
  assumes "json_refs j = []"
  shows "calc_max_depth j = Some (Inr (json_depth j))"
proof (cases "is_container j")
  case True
  with calc_depth_no_refs[of "[(j, 0)]" j "[]" 0 "{}"] assms show ?thesis by (simp add: calc_max_depth_def del: json_refs.simps json_depth.simps)
next
  case False
  then show ?thesis unfolding calc_max_depth_def by (subst calc_depth_loop.simps) (auto split: json.splits)
qed

lemma follow_reference:
  assumes "resolve_uri doc (''#/'' @ name) = Inr (p, v)"
  shows "calc_depth_loop doc ((ref_to name, d) # q) n visited =
    (if p \<in> visited then Some (Inl (InvalidJsonSchemaRefError (''the ref #/'' @ name @ '' contains cycles'')))
     else calc_depth_loop doc ((v, Suc d) # q) (max n (Suc d)) (insert p visited))"
  using assms by (subst calc_depth_loop.simps) (simp add: ref_to_def queue_entry_def)

text \<open>C99: a schema in which two properties refer to the same definition, which has no reference itself, is refused for a cycle.\<close>

theorem shared_definition_refused:
  assumes "json_refs definition = []" "is_container definition"
  shows "calc_max_depth (JObject [(''a'', ref_to ''d''), (''b'', ref_to ''d''), (''d'', definition)]) =
    Some (Inl (InvalidJsonSchemaRefError ''the ref #/d contains cycles''))"
proof -
  let ?j = "JObject [(''a'', ref_to ''d''), (''b'', ref_to ''d''), (''d'', definition)]"
  have r: "resolve_uri ?j ''#/d'' = Inr ([PathKey ''d''], definition)"
    by (simp add: resolve_uri_def json_path_of_def try_parse_indexed_field_def)
  have skip: "calc_depth_loop ?j ((definition, d) # q) n visited = calc_depth_loop ?j q (max n (d + json_depth definition)) visited"
      for d q n visited
    using calc_depth_no_refs[of "[(definition, d)]" ?j q n visited] assms by (simp del: json_refs.simps json_depth.simps)
  have "calc_max_depth ?j = calc_depth_loop ?j [(definition, 1), (ref_to ''d'', 1), (ref_to ''d'', 1)] 1 {}"
    unfolding calc_max_depth_def by (subst calc_depth_loop.simps) (simp add: queue_entry_def ref_to_def assms(2))
  also have "\<dots> = calc_depth_loop ?j [(ref_to ''d'', 1), (ref_to ''d'', 1)] (max 1 (Suc (json_depth definition))) {}"
    by (simp add: skip del: json_depth.simps)
  also have "\<dots> = Some (Inl (InvalidJsonSchemaRefError ''the ref #/d contains cycles''))"
    using follow_reference[of ?j "''d''"] r by (simp add: skip del: json_depth.simps)
  finally show ?thesis .
qed

section \<open>When the depth is found\<close>

lemma entry_refs_mem: "(k, v) \<in> set m \<Longrightarrow> set (json_refs v) \<subseteq> set (entry_refs m)"
  by (induction m) auto

lemma list_refs_mem: "v \<in> set vs \<Longrightarrow> set (json_refs v) \<subseteq> set (list_refs vs)"
  by (induction vs) auto

lemma json_at_refs:
  assumes "json_at s j = Some v"
  shows "set (json_refs v) \<subseteq> set (json_refs j)"
proof (cases s)
  case (PathKey k)
  with assms obtain m where "j = JObject m" "(k, v) \<in> set m" by (cases j) (auto dest: map_of_SomeD)
  then show ?thesis using entry_refs_mem by (simp del: json_refs.simps add: json_refs.simps[of "JObject m"])
next
  case (PathIndex i)
  with assms obtain vs where "j = JArray vs" "v \<in> set vs" by (cases j) (auto split: if_splits)
  then show ?thesis using list_refs_mem by (simp del: json_refs.simps add: json_refs.simps[of "JArray vs"])
qed

lemma json_path_refs: "get_value_from_json_path p j = Some v \<Longrightarrow> set (json_refs v) \<subseteq> set (json_refs j)"
proof (induction p arbitrary: j)
  case (Cons s p)
  then obtain w where "json_at s j = Some w" "get_value_from_json_path p w = Some v" by (auto split: bind_splits)
  with Cons.IH json_at_refs show ?case by blast
qed simp

lemma resolved_refs: "resolve_uri j uri = Inr (p, v) \<Longrightarrow> set (json_refs v) \<subseteq> set (json_refs j)"
  using json_path_refs by (auto simp: resolve_uri_def Let_def ok_or_eq_Inr split: if_splits)

text \<open>The places a schema refers to.\<close>

definition ref_targets :: "json \<Rightarrow> json_path set" where
  "ref_targets doc = {p. \<exists>uri \<in> set (json_refs doc). \<exists>v. resolve_uri doc uri = Inr (p, v)}"

lemma finite_ref_targets: "finite (ref_targets doc)"
proof (rule finite_subset)
  show "ref_targets doc \<subseteq> (\<lambda>uri. fst (projr (resolve_uri doc uri))) ` set (json_refs doc)"
    by (force simp: ref_targets_def)
qed simp

definition refs_to_containers :: "json \<Rightarrow> bool" where
  "refs_to_containers doc \<longleftrightarrow> (\<forall>uri \<in> set (json_refs doc). case resolve_uri doc uri of Inr (p, v) \<Rightarrow> is_container v | Inl _ \<Rightarrow> True)"

definition queue_ok :: "json \<Rightarrow> (json \<times> nat) list \<Rightarrow> bool" where
  "queue_ok doc q \<longleftrightarrow> (\<forall>x \<in> set q. is_container (fst x) \<and> set (json_refs (fst x)) \<subseteq> set (json_refs doc))"

lemma queue_ok_simps [simp]:
  "queue_ok doc []" "queue_ok doc (x # q) \<longleftrightarrow> is_container (fst x) \<and> set (json_refs (fst x)) \<subseteq> set (json_refs doc) \<and> queue_ok doc q"
  "queue_ok doc (p @ q) \<longleftrightarrow> queue_ok doc p \<and> queue_ok doc q" "queue_ok doc (rev q) \<longleftrightarrow> queue_ok doc q"
  by (auto simp: queue_ok_def)

lemma queue_entry_step:
  assumes "refs_to_containers doc" "set (entry_refs [e]) \<subseteq> set (json_refs doc)" "queue_ok doc q"
    and "queue_entry doc d (q, visited) e = Inr (q', visited')"
  shows "queue_ok doc q' \<and> (visited' = visited \<and> queue_size q' \<le> queue_size q + Suc (size (snd e)) \<or>
    (\<exists>p \<in> ref_targets doc - visited. visited' = insert p visited))"
proof -
  obtain k v where e: "e = (k, v)" by force
  consider uri where "k = ''$ref''" "v = JString uri" | "k \<noteq> ''$ref'' \<or> json_str v = None" by (cases v) auto
  then show ?thesis
  proof cases
    case (1 uri)
    with assms(4) e obtain p w where r: "resolve_uri doc uri = Inr (p, w)" "p \<notin> visited" "q' = (w, d) # q" "visited' = insert p visited"
      by (auto simp: queue_entry_def Let_def rbind_eq_Inr map_err_eq_Inr split: if_splits)
    have uri: "uri \<in> set (json_refs doc)" using assms(2) e 1 by (simp del: json_refs.simps)
    with r(1) have "p \<in> ref_targets doc" "is_container w" using assms(1) by (auto simp: ref_targets_def refs_to_containers_def)
    with r resolved_refs[OF r(1)] assms(3) show ?thesis by auto
  next
    case 2
    with assms(4) e have "visited' = visited" "q' = (if is_container v then (v, d) # q else q)"
      by (auto simp: queue_entry_def Let_def split: option.splits if_splits)
    with assms(2,3) e show ?thesis by (simp del: json_refs.simps)
  qed
qed

lemma queue_entries:
  assumes "refs_to_containers doc" "set (entry_refs m) \<subseteq> set (json_refs doc)" "queue_ok doc q"
    and "foldM (queue_entry doc d) (q, visited) m = Inr (q', visited')"
  shows "queue_ok doc q' \<and> visited \<subseteq> visited' \<and>
    (visited' = visited \<and> queue_size q' \<le> queue_size q + size_list (size_prod (\<lambda>_. 0) size) m \<or>
     (\<exists>p \<in> ref_targets doc - visited. p \<in> visited'))"
  using assms(2-)
proof (induction m arbitrary: q visited)
  case (Cons e m)
  then obtain q1 visited1 where s: "queue_entry doc d (q, visited) e = Inr (q1, visited1)"
      "foldM (queue_entry doc d) (q1, visited1) m = Inr (q', visited')"
    by (auto simp: rbind_eq_Inr)
  obtain k v where e: "e = (k, v)" by force
  have refs: "set (entry_refs [e]) \<subseteq> set (json_refs doc)" "set (entry_refs m) \<subseteq> set (json_refs doc)"
    using Cons.prems(1) e by (simp_all del: json_refs.simps)
  note step = queue_entry_step[OF assms(1) refs(1) Cons.prems(2) s(1)]
  with Cons.IH[OF refs(2) _ s(2)] have ih: "queue_ok doc q' \<and> visited1 \<subseteq> visited' \<and>
      (visited' = visited1 \<and> queue_size q' \<le> queue_size q1 + size_list (size_prod (\<lambda>_. 0) size) m \<or>
       (\<exists>p \<in> ref_targets doc - visited1. p \<in> visited'))" by blast
  from step show ?case
  proof (elim conjE disjE)
    assume "visited1 = visited" "queue_size q1 \<le> queue_size q + Suc (size (snd e))"
    with ih e show ?thesis by auto
  next
    assume "\<exists>p \<in> ref_targets doc - visited. visited1 = insert p visited"
    with ih show ?thesis by blast
  qed
qed simp

lemma calc_depth_returns:
  assumes "refs_to_containers doc" "queue_ok doc q"
  shows "\<exists>r. calc_depth_loop doc q n visited = Some r"
  using assms(2)
proof (induction "(card (ref_targets doc - visited), queue_size q)" arbitrary: q n visited rule: wf_induct_rule[OF wf_lex_prod[OF wf_less_than wf_less_than]])
  case (1 q visited n)
  note ih = "1.hyps"
  show ?case
  proof (cases q)
    case (Cons x q0)
    obtain v d where x: "x = (v, d)" by force
    with "1.prems" Cons have v: "is_container v" "set (json_refs v) \<subseteq> set (json_refs doc)" and q0: "queue_ok doc q0"
      by (simp_all del: json_refs.simps)
    show ?thesis
    proof (cases v)
      case (JObject m)
      show ?thesis
      proof (cases "foldM (queue_entry doc (Suc d)) (q0, visited) m")
        case (Inl err)
        then show ?thesis using Cons x JObject by (subst calc_depth_loop.simps) simp
      next
        case (Inr st)
        obtain q1 visited1 where st: "st = (q1, visited1)" by force
        have "set (entry_refs m) \<subseteq> set (json_refs doc)" using v(2) JObject by simp
        from queue_entries[OF assms(1) this q0 Inr[unfolded st]]
        have q1: "queue_ok doc q1" "visited \<subseteq> visited1" and
          m: "visited1 = visited \<and> queue_size q1 \<le> queue_size q0 + size_list (size_prod (\<lambda>_. 0) size) m \<or>
            (\<exists>p \<in> ref_targets doc - visited. p \<in> visited1)" by blast+
        from m have "((card (ref_targets doc - visited1), queue_size q1), card (ref_targets doc - visited), queue_size q) \<in> Wellfounded.less_than <*lex*> Wellfounded.less_than"
        proof
          assume "\<exists>p \<in> ref_targets doc - visited. p \<in> visited1"
          then have "ref_targets doc - visited1 \<subset> ref_targets doc - visited" using q1(2) by blast
          then show ?thesis using finite_ref_targets by (simp add: psubset_card_mono)
        qed (use Cons x JObject in simp)
        from ih[OF this q1(1)] show ?thesis using Cons x JObject Inr st by (subst calc_depth_loop.simps) simp
      qed
    next
      case (JArray vs)
      let ?cs = "rev (list_children (Suc d) vs)"
      have "queue_ok doc (?cs @ q0)"
        using q0 v(2) list_refs_mem JArray by (force simp: list_children_def queue_ok_def simp del: json_refs.simps simp: json_refs.simps[of "JArray ws" for ws])
      moreover have "queue_size (?cs @ q0) < queue_size q" using list_children_facts(1)[of "Suc d" vs] Cons x JArray by simp
      ultimately have "\<exists>r. calc_depth_loop doc (?cs @ q0) (max n (Suc d)) visited = Some r" using ih by simp
      then show ?thesis using Cons x JArray by (subst calc_depth_loop.simps) (simp add: list_children_def)
    qed (use v in simp_all)
  qed simp
qed

text \<open>C99: the depth of a schema is found, or an error, whenever none of its references leads to a scalar.\<close>

theorem schema_depth_found:
  assumes "refs_to_containers j"
  shows "\<exists>errors. validate_data_contract_max_depth j = Some errors"
proof (cases "is_container j")
  case True
  then have "queue_ok j [(j, 0)]" by simp
  from calc_depth_returns[OF assms this] show ?thesis by (auto simp: validate_data_contract_max_depth_def calc_max_depth_def)
next
  case False
  then show ?thesis unfolding validate_data_contract_max_depth_def calc_max_depth_def
    by (subst calc_depth_loop.simps) (auto split: json.splits)
qed

section \<open>Examples\<close>

definition nested_schema :: json where
  "nested_schema = JObject [(''items'', JArray [JObject [(''type'', JString ''integer'')], JInteger 1])]"

theorem schema_depth_exact_witness: "calc_max_depth nested_schema = Some (Inr 3)"
proof -
  have "json_refs nested_schema = []" by (simp add: nested_schema_def)
  from schema_depth_exact[OF this] show ?thesis by (simp add: nested_schema_def)
qed

theorem shared_definition_refused_witness:
  "calc_max_depth (JObject [(''a'', ref_to ''d''), (''b'', ref_to ''d''), (''d'', JObject [(''type'', JString ''integer'')])]) =
    Some (Inl (InvalidJsonSchemaRefError ''the ref #/d contains cycles''))"
  by (rule shared_definition_refused) simp_all

theorem schema_depth_found_witness:
  "\<exists>errors. validate_data_contract_max_depth (JObject [(''a'', ref_to ''d''), (''d'', JObject [])]) = Some errors"
  by (rule schema_depth_found)
    (simp add: refs_to_containers_def ref_to_def resolve_uri_def json_path_of_def try_parse_indexed_field_def)

end
