(* ===== verification/IndexRules.thy ===== *)
theory IndexRules
  imports SchemaRules
begin

text \<open>
  What a contract that passed the rules of \<open>SchemaRules\<close> satisfies: its indexes are over properties that can be indexed, and a
  new version keeps them.
\<close>


section \<open>Compatible indexes\<close>

lemma find_None: "List.find P xs = None \<longleftrightarrow> (\<forall>x \<in> set xs. \<not> P x)"
  by (auto simp: find_None_iff)

lemma index_change_Nil [simp]: "index_change err t i = [] \<longleftrightarrow> i = None"
  by (simp add: index_change_def split: option.splits)

lemma by_name_lookup:
  "map_of (foldl (\<lambda>acc i. AList.update (index_name i) i acc) acc ixs) k =
     (case List.find (\<lambda>i. index_name i = k) (rev ixs) of Some i \<Rightarrow> Some i | None \<Rightarrow> map_of acc k)"
  by (induction ixs arbitrary: acc) (auto simp: find_append update_conv' split: option.splits)

lemma by_name_distinct:
  assumes "distinct (map index_name ixs)"
  shows "map_of (to_index_by_name ixs) k = Some i \<longleftrightarrow> i \<in> set ixs \<and> index_name i = k"
proof -
  have "List.find (\<lambda>i. index_name i = k) (rev ixs) = Some i \<longleftrightarrow> i \<in> set ixs \<and> index_name i = k"
    using assms by (induction ixs rule: rev_induct) (auto split: if_splits)
  then show ?thesis unfolding to_index_by_name_def by_name_lookup by (auto split: option.splits)
qed

lemma index_values_distinct:
  assumes "distinct (map index_name ixs)" "\<And>ks. set (hash_order E ks) = set ks"
  shows "set (index_values_of E (to_index_by_name ixs)) = set ixs"
proof -
  let ?m = "to_index_by_name ixs"
  have "set (index_values_of E ?m) = (\<lambda>k. the (map_of ?m k)) ` dom (map_of ?m)"
    using assms(2) by (simp add: index_values_of_def dom_map_of_conv_image_fst)
  also have "\<dots> = set ixs"
  proof
    show "(\<lambda>k. the (map_of ?m k)) ` dom (map_of ?m) \<subseteq> set ixs"
    proof
      fix i assume "i \<in> (\<lambda>k. the (map_of ?m k)) ` dom (map_of ?m)"
      then obtain k where "map_of ?m k = Some i" by auto
      then show "i \<in> set ixs" using by_name_distinct[OF assms(1)] by simp
    qed
    show "set ixs \<subseteq> (\<lambda>k. the (map_of ?m k)) ` dom (map_of ?m)"
    proof
      fix i assume "i \<in> set ixs"
      then have m: "map_of ?m (index_name i) = Some i" using by_name_distinct[OF assms(1)] by simp
      then show "i \<in> (\<lambda>k. the (map_of ?m k)) ` dom (map_of ?m)"
        by (intro image_eqI[of _ _ "index_name i"]) (simp_all add: domI)
    qed
  qed
  finally show ?thesis .
qed

lemma list_all2_mem: "list_all2 P xs ys \<Longrightarrow> x \<in> set xs \<Longrightarrow> \<exists>y \<in> set ys. P x y"
  by (induction rule: list_all2_induct) auto

lemma not_wrongly_updated:
  assumes "get_wrongly_updated_non_unique_index existing new_indices s = Inr None"
    and "i \<in> set existing" "\<not> named_unique i" "map_of new_indices (index_name i) = Some n"
  shows "prefix (named_properties i) (named_properties n)"
  using assms
proof (induction existing)
  case (Cons j existing)
  have "prefix (take (length (named_properties i)) (named_properties n)) (named_properties n)" by (rule take_is_prefix)
  with Cons show ?case by (auto simp: Let_def split: if_splits option.splits)
qed simp

text \<open>C99: when the indexes of a new version of a contract are found compatible, every unique index is there unchanged, an index
  with the name of an old one starts with the properties of it, and no unique index is new.\<close>

theorem compatible_indices_kept:
  assumes "validate_indices_are_backward_compatible E existing_documents new_documents = Inr []"
    and "\<And>ks. set (hash_order E ks) = set ks"
    and "(t, old_schema) \<in> set existing_documents" "get_indices old_schema = Inr old_indices"
    and "map_of new_documents t = Some new_schema" "get_indices new_schema = Inr new_indices" "distinct (map index_name new_indices)"
  shows "(\<forall>i \<in> set old_indices. named_unique i \<longrightarrow> i \<in> set new_indices) \<and>
    (\<forall>i \<in> set old_indices. \<forall>n \<in> set new_indices. index_name n = index_name i \<longrightarrow> prefix (named_properties i) (named_properties n)) \<and>
    (\<forall>n \<in> set new_indices. named_unique n \<longrightarrow> index_name n \<in> index_name ` set old_indices)"
proof -
  let ?m = "to_index_by_name new_indices"
  obtain errors where "validate_indices_of_type E new_documents (t, old_schema) = Inr errors" "errors = []"
  proof -
    obtain ess where ess: "list_all2 (\<lambda>e es. validate_indices_of_type E new_documents e = Inr es) existing_documents ess" "concat ess = []"
      using assms(1) by (auto simp: validate_indices_are_backward_compatible_def rmap_eq_Inr mapM_eq_Inr)
    obtain es where "es \<in> set ess" "validate_indices_of_type E new_documents (t, old_schema) = Inr es"
      using list_all2_mem[OF ess(1) assms(3)] by blast
    with ess(2) that show ?thesis by auto
  qed
  then have v: "get_changed_old_unique_index old_indices ?m = None" "get_wrongly_updated_non_unique_index old_indices ?m old_schema = Inr None"
      "get_new_unique_index old_indices (index_values_of E ?m) = None"
    using assms(4-6) by (auto simp: validate_indices_of_type_def Let_def rbind_eq_Inr)
  note look = by_name_distinct[OF assms(7)]
  have unique_kept: "i \<in> set new_indices" if "i \<in> set old_indices" "named_unique i" for i
    using v(1) that look by (auto simp: get_changed_old_unique_index_def find_None)
  have "prefix (named_properties i) (named_properties n)"
    if "i \<in> set old_indices" "n \<in> set new_indices" "index_name n = index_name i" for i n
  proof (cases "named_unique i")
    case True
    with unique_kept that have "i \<in> set new_indices" by blast
    with that assms(7) have "n = i" by (metis distinct_map inj_onD)
    then show ?thesis by simp
  next
    case False
    with not_wrongly_updated[OF v(2) that(1)] that look show ?thesis by simp
  qed
  moreover have "index_name n \<in> index_name ` set old_indices" if "n \<in> set new_indices" "named_unique n" for n
    using v(3) that index_values_distinct[OF assms(7,2)] by (auto simp: get_new_unique_index_def find_None)
  ultimately show ?thesis using unique_kept by blast
qed

text \<open>C99: removing properties from an index that is not unique makes the check of compatibility panic instead of refusing the
  new version.\<close>

theorem shortened_index_panics:
  assumes "get_indices old_schema = Inr [i]" "\<not> named_unique i"
    and "map_of new_documents t = Some new_schema" "get_indices new_schema = Inr [n]" "index_name n = index_name i"
    and "length (named_properties n) < length (named_properties i)"
  shows "validate_indices_are_backward_compatible E [(t, old_schema)] new_documents =
    Inl (ProtocolPanic ''range end index out of range for slice'')"
  using assms
  by (simp add: validate_indices_are_backward_compatible_def validate_indices_of_type_def to_index_by_name_def)

lemma count_distinct: "distinct xs \<Longrightarrow> x \<in> set xs \<Longrightarrow> count_list xs x = 1"
  by (induction xs) (auto simp: count_list_0_iff)

lemma duplicates_from_Nil: "duplicates_from seen xs = [] \<Longrightarrow> distinct seen \<Longrightarrow> distinct (seen @ xs)"
proof (induction xs arbitrary: seen)
  case (Cons x xs)
  then have "count_list seen x \<noteq> 1" "duplicates_from (seen @ [x]) xs = []" by (auto split: if_splits)
  moreover from this(1) have "x \<notin> set seen"
    using count_distinct[OF Cons.prems(2), of x] by auto
  ultimately show ?case using Cons.IH[of "seen @ [x]"] Cons.prems(2) by simp
qed simp

text \<open>What a property of an index has to be.\<close>

definition indexable :: "json \<Rightarrow> bool" where
  "indexable d \<longleftrightarrow> \<not> is_type_of_object d \<and>
     (is_type_of_array d \<longrightarrow> is_type_of_byte_array d \<and> (\<exists>n. json_get_u64 d ''maxItems'' = Inr n \<and> n \<le> 255)) \<and>
     (is_type_of_string d \<longrightarrow> (\<exists>n. json_get_u64 d ''maxLength'' = Inr n \<and> n \<le> 63))"

lemma not_too_long: "\<not> too_long d c limit \<Longrightarrow> \<exists>n. json_get_u64 d c = Inr n \<and> n \<le> limit"
  by (auto simp: too_long_def not_less split: sum.splits)

lemma property_definition_valid:
  assumes "validate_property_definition n d t ix = []"
  shows "indexable d"
proof -
  let ?inv = "if is_type_of_array d \<and> \<not> is_type_of_byte_array d then ''array'' else if is_type_of_object d then ''object'' else ''''"
  let ?lim = "if is_type_of_byte_array d then MAX_INDEXED_BYTE_ARRAY_PROPERTY_LENGTH else MAX_INDEXED_ARRAY_ITEMS"
  have guard: "(if c then [x] else []) = [] \<longleftrightarrow> \<not> c" for c and x :: consensus_error by simp
  have e: "\<not> (?inv \<noteq> '''')" "\<not> (?inv = '''' \<and> is_type_of_array d \<and> too_long d ''maxItems'' ?lim)"
      "\<not> (is_type_of_string d \<and> too_long d ''maxLength'' MAX_INDEXED_STRING_PROPERTY_LENGTH)"
    using assms unfolding validate_property_definition_def Let_def append_is_Nil_conv guard by blast+
  have "\<not> (is_type_of_array d \<and> \<not> is_type_of_byte_array d)" "\<not> is_type_of_object d"
    using e(1) by (auto simp only: list.distinct not_not split: if_splits)
  with e(2,3) have "\<not> is_type_of_object d" "is_type_of_array d \<longrightarrow> is_type_of_byte_array d \<and> \<not> too_long d ''maxItems'' 255"
      "is_type_of_string d \<longrightarrow> \<not> too_long d ''maxLength'' 63"
    by (auto simp: MAX_INDEXED_BYTE_ARRAY_PROPERTY_LENGTH_def MAX_INDEXED_STRING_PROPERTY_LENGTH_def)
  then show ?thesis using not_too_long by (auto simp: indexable_def)
qed

definition index_property_valid :: "rules_env \<Rightarrow> json \<Rightarrow> string \<Rightarrow> bool" where
  "index_property_valid E s n \<longleftrightarrow> n \<noteq> ''$id'' \<and>
     (n \<in> set ALLOWED_INDEX_SYSTEM_PROPERTIES \<or>
      (\<exists>d. get_property_definition_by_path (base_document_schema E) s n = Inr d \<and> indexable d))"

lemma index_definition_valid:
  assumes "validate_index_definition E t s (result, fingerprints) ix = Inr (result', fingerprints')" "result' = []"
    and "\<And>ks. set (hash_order E ks) = set ks"
  shows "result = [] \<and> (\<forall>n \<in> set (named_names ix). index_property_valid E s n)"
proof -
  let ?def = "\<lambda>n. case get_property_definition_by_path (base_document_schema E) s n of Inr d \<Rightarrow> Some d | Inl _ \<Rightarrow> None"
  let ?es = "map (\<lambda>n. (n, ?def n)) (user_properties E ix)"
  have r: "result = []" "validate_no_system_indices ix t = []" "validate_not_defined_properties ?es ix t = []"
      "concat (map (\<lambda>e. validate_property_definition (fst e) (the (snd e)) t ix) ?es) = []"
    using assms(1,2) by (auto simp: validate_index_definition_def Let_def split: if_splits)
  have user: "set (user_properties E ix) = {n \<in> set (named_names ix). n \<notin> set ALLOWED_INDEX_SYSTEM_PROPERTIES}"
    using assms(3) by (auto simp: user_properties_def)
  have "index_property_valid E s n" if n: "n \<in> set (named_names ix)" for n
  proof -
    have "n \<noteq> ''$id''" using r(2) n by (auto simp: validate_no_system_indices_def NOT_ALLOWED_SYSTEM_PROPERTIES_def filter_empty_conv)
    moreover have "\<exists>d. get_property_definition_by_path (base_document_schema E) s n = Inr d \<and> indexable d"
      if "n \<notin> set ALLOWED_INDEX_SYSTEM_PROPERTIES"
    proof -
      have m: "n \<in> set (user_properties E ix)" using user n that by simp
      then have "?def n \<noteq> None" using r(3) by (auto simp: validate_not_defined_properties_def filter_empty_conv)
      then obtain d where "get_property_definition_by_path (base_document_schema E) s n = Inr d" by (auto split: sum.splits)
      moreover have "validate_property_definition n (the (?def n)) t ix = []" using r(4) m by simp
      ultimately show ?thesis using property_definition_valid by fastforce
    qed
    ultimately show ?thesis by (auto simp: index_property_valid_def)
  qed
  with r(1) show ?thesis by blast
qed

lemma index_definitions_valid:
  assumes "foldM (validate_index_definition E t s) (result, fingerprints) ixs = Inr ([], fingerprints')"
    and "\<And>ks. set (hash_order E ks) = set ks"
  shows "result = [] \<and> (\<forall>ix \<in> set ixs. \<forall>n \<in> set (named_names ix). index_property_valid E s n)"
  using assms(1)
proof (induction ixs arbitrary: result fingerprints)
  case (Cons ix ixs)
  then obtain result1 fingerprints1 where s: "validate_index_definition E t s (result, fingerprints) ix = Inr (result1, fingerprints1)"
      "foldM (validate_index_definition E t s) (result1, fingerprints1) ixs = Inr ([], fingerprints')"
    by (auto simp: rbind_eq_Inr)
  with Cons.IH[OF s(2)] index_definition_valid[OF s(1) _ assms(2)] show ?case by auto
qed simp

lemma stopped_with_errors:
  assumes "foldM (validate_index_definition E t s) st ixs = Inl result"
  shows "result \<noteq> []"
  using assms
  by (induction ixs arbitrary: st)
    (auto simp: rbind_eq_Inl validate_index_definition_def Let_def split: prod.splits if_splits)

text \<open>C99: in a contract whose indexes are valid, the indexes of a document type have different names, at most three of them
  are unique, and each of their properties is the owner or a time of the document, or defined as a number, a boolean, a string of
  at most 63 characters or at most 255 bytes.\<close>

theorem contract_indices_valid:
  assumes "validate_contract_indices E ds = Inr []" "\<And>ks. set (hash_order E ks) = set ks"
    and "(t, s) \<in> set ds" "get_indices s = Inr ixs"
  shows "distinct (map index_name ixs) \<and> length (filter named_unique ixs) \<le> 3 \<and>
    (\<forall>ix \<in> set ixs. \<forall>n \<in> set (named_names ix). index_property_valid E s n)"
proof (cases "json_get ''indices'' s")
  case None
  with assms(4) show ?thesis by (simp add: get_indices_def)
next
  case (Some raw)
  have "\<exists>definition_errors. validate_index_definitions E ixs t s = (definition_errors, False) \<and> definition_errors = [] \<and>
      validate_index_duplicates ixs t = [] \<and> validate_max_unique_indices ixs t = []"
    using assms(1,3,4) Some
  proof (induction ds)
    case (Cons e ds)
    obtain t' s' where e: "e = (t', s')" by force
    show ?case
    proof (cases "(t, s) = e")
      case True
      then show ?thesis
        using Cons.prems e stopped_with_errors[of E t s "([], [])" ixs]
        by (auto simp: Let_def rmap_eq_Inr validate_index_definitions_def split: prod.splits if_splits sum.splits)
    next
      case False
      with Cons show ?thesis
        using e stopped_with_errors
        by (auto simp: Let_def rbind_eq_Inr rmap_eq_Inr validate_index_definitions_def split: prod.splits if_splits sum.splits)
    qed
  qed simp
  then obtain fingerprints where v: "foldM (validate_index_definition E t s) ([], []) ixs = Inr ([], fingerprints)"
      "validate_index_duplicates ixs t = []" "validate_max_unique_indices ixs t = []"
    by (auto simp: validate_index_definitions_def split: sum.splits)
  have "distinct (map index_name ixs)"
    using duplicates_from_Nil[of "[]"] v(2) by (simp add: validate_index_duplicates_def)
  moreover have "length (filter named_unique ixs) \<le> 3"
    using v(3) by (simp add: validate_max_unique_indices_def UNIQUE_INDEX_LIMIT_def split: if_splits)
  ultimately show ?thesis using index_definitions_valid[OF v(1) assms(2)] by blast
qed

section \<open>Examples\<close>

definition plain_rules :: rules_env where
  "plain_rules = \<lparr>hash_order = id, base_document_schema = JNull\<rparr>"

definition index_json :: "string \<Rightarrow> string list \<Rightarrow> bool \<Rightarrow> json" where
  "index_json n ps u = JObject [(''name'', JString n), (''properties'', JArray (map (\<lambda>p. JObject [(p, JString ''asc'')]) ps)),
     (''unique'', JBool u)]"

definition schema_json :: "json list \<Rightarrow> json" where
  "schema_json ixs = JObject [(''properties'', JObject [(''a'', JObject [(''type'', JString ''string''), (''maxLength'', JInteger 63)]),
     (''b'', JObject [(''type'', JString ''integer'')])]), (''indices'', JArray ixs)]"

definition plain_index :: "string \<Rightarrow> string list \<Rightarrow> bool \<Rightarrow> named_index" where
  "plain_index n ps u = \<lparr>index_name = n, named_properties = map (\<lambda>p. \<lparr>property_name = p, ascending = True\<rparr>) ps, named_unique = u\<rparr>"

lemma schema_json_indices:
  "get_indices (schema_json [index_json ''x'' [''a''] True]) = Inr [plain_index ''x'' [''a''] True]"
  "get_indices (schema_json [index_json ''x'' [''a''] True, index_json ''y'' [''b''] False]) =
     Inr [plain_index ''x'' [''a''] True, plain_index ''y'' [''b''] False]"
  "get_indices (schema_json [index_json ''y'' [''b''] False]) = Inr [plain_index ''y'' [''b''] False]"
  "get_indices (schema_json [index_json ''y'' [''b'', ''a''] False]) = Inr [plain_index ''y'' [''b'', ''a''] False]"
  by (simp_all add: get_indices_def schema_json_def index_json_def raw_index_def raw_index_property_def named_index_of_def
      index_property_try_from_def plain_index_def)

theorem compatible_indices_kept_witness:
  "validate_indices_are_backward_compatible plain_rules [(''t'', schema_json [index_json ''x'' [''a''] True])]
     [(''t'', schema_json [index_json ''x'' [''a''] True, index_json ''y'' [''b''] False])] = Inr [] \<and>
   plain_index ''x'' [''a''] True \<in> {plain_index ''x'' [''a''] True, plain_index ''y'' [''b''] False}"
proof -
  have v: "validate_indices_are_backward_compatible plain_rules [(''t'', schema_json [index_json ''x'' [''a''] True])]
     [(''t'', schema_json [index_json ''x'' [''a''] True, index_json ''y'' [''b''] False])] = Inr []"
    by (simp add: validate_indices_are_backward_compatible_def validate_indices_of_type_def schema_json_indices to_index_by_name_def
        get_changed_old_unique_index_def get_new_unique_index_def get_wrongly_constructed_new_index_def index_values_of_def
        plain_rules_def plain_index_def named_names_def index_change_def)
  from compatible_indices_kept[OF v _ _ schema_json_indices(1) _ schema_json_indices(2), of "''t''"] v show ?thesis
    by (simp add: plain_rules_def plain_index_def)
qed

theorem shortened_index_panics_witness:
  "validate_indices_are_backward_compatible plain_rules [(''t'', schema_json [index_json ''y'' [''b'', ''a''] False])]
     [(''t'', schema_json [index_json ''y'' [''b''] False])] = Inl (ProtocolPanic ''range end index out of range for slice'')"
  by (rule shortened_index_panics[OF schema_json_indices(4) _ _ schema_json_indices(3)]) (simp_all add: plain_index_def)

theorem contract_indices_valid_witness:
  "validate_contract_indices plain_rules [(''t'', schema_json [index_json ''x'' [''a''] True])] = Inr [] \<and>
   index_property_valid plain_rules (schema_json [index_json ''x'' [''a''] True]) ''a''"
proof -
  let ?s = "schema_json [index_json ''x'' [''a''] True]"
  have "get_property_definition_by_path JNull ?s ''a'' = Inr (JObject [(''type'', JString ''string''), (''maxLength'', JInteger 63)])"
    by (simp add: get_property_definition_by_path_def get_schema_properties_def schema_json_def)
  then have "validate_contract_indices plain_rules [(''t'', ?s)] = Inr []"
    using schema_json_indices(1)
    by (simp add: validate_index_definitions_def validate_index_definition_def plain_rules_def
        user_properties_def plain_index_def named_names_def ALLOWED_INDEX_SYSTEM_PROPERTIES_def validate_no_system_indices_def
        NOT_ALLOWED_SYSTEM_PROPERTIES_def validate_not_defined_properties_def validate_property_definition_def is_type_of_array_def
        is_type_of_object_def is_type_of_string_def is_schema_type_def too_long_def json_get_u64_def get_property_def json_u64_def
        MAX_INDEXED_STRING_PROPERTY_LENGTH_def validate_index_duplicates_def validate_max_unique_indices_def UNIQUE_INDEX_LIMIT_def)
  from contract_indices_valid[OF this _ _ schema_json_indices(1), of "''t''"] this show ?thesis
    by (simp add: plain_rules_def plain_index_def named_names_def)
qed

end
