(* ===== verification/Spec2Isabelle.thy ===== *)
theory Spec2Isabelle
  imports Chain Identity Applied SchemaDepth IndexRules
begin

text \<open>A verification development of the Dash Platform storage and execution layer.\<close>

end
